(* ===== verification/Adapter_Prelude.thy ===== *)
theory Adapter_Prelude
  imports Main "HOL-Library.Word"
begin

text \<open>
  Shared vocabulary of the development: machine types, the faults a C++ routine can
  end with, fixed-size buffers as byte lists, and the list lemmas the component
  theories use.

  A routine that can throw or run into undefined behaviour returns \<open>fault + 'a\<close>;
  \<open>Inl\<close> carries the fault.  State that was changed before a throw stays changed, so
  stateful routines return the fault together with the new state.
\<close>

unbundle bit_operations_syntax

section \<open>Machine types\<close>

type_synonym byte = "8 word"
type_synonym u16 = "16 word"
type_synonym u32 = "32 word"
type_synonym u64 = "64 word"
type_synonym wchar = "16 word"
type_synonym bytes = "byte list"
type_synonym wchars = "wchar list"

text \<open>Handles of the operating system and window handles; a null window is \<open>0\<close>.\<close>

type_synonym HANDLE = nat
type_synonym HWND = nat

named_theorems layout_simps \<open>sizes, offsets and lengths of the wire structures\<close>
named_theorems buffer_simps \<open>fixed-size buffers\<close>
named_theorems handler_simps \<open>unfolding of the handler interface\<close>

section \<open>Faults\<close>

text \<open>
  What can leave a C++ function other than its return value.  \<open>Pointer_exception\<close> is
  \<^verbatim>\<open>throw new std::runtime_error(..)\<close>: the thrown object is a pointer, which no handler
  for \<^verbatim>\<open>const std::exception&\<close> matches.  \<open>Result_exception\<close> is what the WIL macros
  \<^verbatim>\<open>THROW_HR\<close>, \<^verbatim>\<open>THROW_LAST_ERROR\<close> throw; it derives from \<^verbatim>\<open>std::exception\<close>.
\<close>

datatype cxx_exception =
    Runtime_error bytes
  | Logic_error bytes
  | Result_exception int
  | Filesystem_error
  | Pointer_exception bytes

datatype ub_kind =
    Float_conversion_out_of_range
  | Shift_exponent_too_large
  | Signed_overflow
  | Indeterminate_value
  | Empty_optional
  | Out_of_bounds_read
  | Out_of_bounds_write
  | Dangling_pointer
  | Null_function_pointer

datatype fault = Throw cxx_exception | UB ub_kind

type_synonym 'a result = "fault + 'a"

fun is_std_exception :: "cxx_exception \<Rightarrow> bool" where
  "is_std_exception (Runtime_error _) = True"
| "is_std_exception (Logic_error _) = True"
| "is_std_exception (Result_exception _) = True"
| "is_std_exception Filesystem_error = True"
| "is_std_exception (Pointer_exception _) = False"

text \<open>The code that \<^verbatim>\<open>THROW_LAST_ERROR\<close> and its variants put into the exception.\<close>

definition HRESULT_FROM_WIN32 :: "int \<Rightarrow> int" where
  "HRESULT_FROM_WIN32 e = (if e \<le> 0 then e else sint ((word_of_int e AND 0xFFFF) OR 0x80070000 :: 32 word))"

section \<open>Strings and fixed-size buffers\<close>

text \<open>A string literal of the source as its bytes.\<close>

definition cstr :: "string \<Rightarrow> bytes" where
  "cstr s = map of_char s"

definition wstr :: "string \<Rightarrow> wchars" where
  "wstr s = map of_char s"

text \<open>A number in decimal, as \<^verbatim>\<open>std::format("{}", n)\<close> prints it.\<close>

fun decimal :: "nat \<Rightarrow> string" where
  "decimal n = (if n < 10 then [char_of (48 + n)] else decimal (n div 10) @ [char_of (48 + n mod 10)])"

declare decimal.simps [simp del]

text \<open>The part of a buffer before its first NUL, the whole buffer if it has none.\<close>

definition until_nul :: "'a::len word list \<Rightarrow> 'a word list" where
  "until_nul bs = takeWhile (\<lambda>b. b \<noteq> 0) bs"

text \<open>
  \<^verbatim>\<open>std::ranges::fill(dest, 0)\<close> and then \<^verbatim>\<open>copy_n(src, min(src.size(), N), dest)\<close>, for an array
  of \<open>N\<close> elements.
\<close>

definition fill_copy :: "nat \<Rightarrow> 'a::len word list \<Rightarrow> 'a word list" where
  "fill_copy N src = take N src @ drop (length src) (replicate N 0)"

text \<open>Writing \<open>bs\<close> into \<open>buf\<close> from offset \<open>off\<close> on (\<^verbatim>\<open>memcpy\<close>, \<^verbatim>\<open>copy_n\<close>).\<close>

definition write_at :: "nat \<Rightarrow> 'a list \<Rightarrow> 'a list \<Rightarrow> 'a list" where
  "write_at off bs buf = take off buf @ bs @ drop (off + length bs) buf"

text \<open>\<^verbatim>\<open>std::vector::resize\<close> and \<^verbatim>\<open>std::string::resize\<close>: cut, or extend with zeros.\<close>

definition resize :: "nat \<Rightarrow> 'a::len word list \<Rightarrow> 'a word list" where
  "resize n bs = take n bs @ replicate (n - length bs) 0"

section \<open>Lemmas on buffers\<close>

lemma length_cstr [simp]: "length (cstr s) = length s"
  by (simp add: cstr_def)

lemma cstr_append: "cstr (s @ t) = cstr s @ cstr t"
  by (simp add: cstr_def)

lemma length_write_at [buffer_simps]:
  "off + length bs \<le> length buf \<Longrightarrow> length (write_at off bs buf) = length buf"
  by (simp add: write_at_def)

lemma write_at_0 [buffer_simps]: "write_at 0 bs buf = bs @ drop (length bs) buf"
  by (simp add: write_at_def)

lemma write_at_append [buffer_simps]:
  "write_at (length pre) bs (pre @ post) = pre @ bs @ drop (length bs) post"
  by (simp add: write_at_def)

lemma length_fill_copy [simp]: "length (fill_copy N src) = N"
  by (simp add: fill_copy_def min_def)

lemma length_resize [simp]: "length (resize n bs) = n"
  by (simp add: resize_def)

lemma resize_same [simp]: "resize (length bs) bs = bs"
  by (simp add: resize_def)

lemma take_resize: "n \<le> length bs \<Longrightarrow> n \<le> m \<Longrightarrow> take n (resize m bs) = take n bs"
  by (simp add: resize_def min_def)

lemma until_nul_append_zeros [simp]: "until_nul (bs @ replicate n 0) = until_nul bs"
  by (induction bs) (auto simp: until_nul_def takeWhile_replicate)

lemma until_nul_no_nul: "0 \<notin> set bs \<Longrightarrow> until_nul bs = bs"
  by (auto simp: until_nul_def takeWhile_eq_all_conv)

lemma nul_notin_until_nul [simp]: "0 \<notin> set (until_nul bs)"
  by (auto simp: until_nul_def dest: set_takeWhileD)

lemma until_nul_take: "until_nul (take n bs) = take n (until_nul bs)"
proof (induction bs arbitrary: n)
  case Nil
  then show ?case by (simp add: until_nul_def)
next
  case (Cons b bs)
  then show ?case by (cases n) (auto simp: until_nul_def)
qed

lemma until_nul_fill_copy: "until_nul (fill_copy N src) = take N (until_nul src)"
  by (simp add: fill_copy_def drop_replicate until_nul_take)

lemma nul_in_fill_copy: "0 \<notin> set src \<Longrightarrow> 0 \<in> set (fill_copy N src) \<longleftrightarrow> length src < N"
  by (auto simp: fill_copy_def drop_replicate dest: in_set_takeD)

lemma set_take_notin: "a \<notin> set bs \<Longrightarrow> a \<notin> set (take n bs)"
  by (auto dest: in_set_takeD)

end
