(* ===== verification/Wire_Layout.thy ===== *)
theory Wire_Layout
  imports Adapter_Prelude
begin

text \<open>
  The object representation of the message structs.  A struct is the list of its
  scalar and array members in declaration order; the layout rules of the platform ABI
  (every member at the next multiple of its alignment, the size rounded up to the
  largest alignment, little-endian scalars, one-byte \<^verbatim>\<open>bool\<close>, two-byte \<^verbatim>\<open>wchar_t\<close>) give
  the offsets and the bytes that \<^verbatim>\<open>sizeof(T)\<close> and \<^verbatim>\<open>send(.., &msg, sizeof(msg))\<close> see.
  A base class is laid out as its members first.

  Padding bytes have no specified value: they come from the parameter \<open>pad\<close>, a
  function of the offset, and no theorem depends on it.
\<close>

section \<open>Little-endian scalars\<close>

primrec le_bytes :: "nat \<Rightarrow> nat \<Rightarrow> bytes" where
  "le_bytes 0 k = []"
| "le_bytes (Suc n) k = word_of_nat k # le_bytes n (k div 256)"

primrec le_nat :: "bytes \<Rightarrow> nat" where
  "le_nat [] = 0"
| "le_nat (b # bs) = unat b + 256 * le_nat bs"

section \<open>Members and structs\<close>

datatype cfield =
    U8 "8 word"
  | U16 "16 word"
  | U32 "32 word"
  | U64 "64 word"
  | Boolean bool
  | CharArray bytes
  | WCharArray wchars

fun fbytes :: "cfield \<Rightarrow> bytes" where
  "fbytes (U8 w) = [w]"
| "fbytes (U16 w) = le_bytes 2 (unat w)"
| "fbytes (U32 w) = le_bytes 4 (unat w)"
| "fbytes (U64 w) = le_bytes 8 (unat w)"
| "fbytes (Boolean b) = [if b then 1 else 0]"
| "fbytes (CharArray cs) = cs"
| "fbytes (WCharArray ws) = concat (map (\<lambda>w. le_bytes 2 (unat w)) ws)"

fun fsize :: "cfield \<Rightarrow> nat" where
  "fsize (U8 _) = 1"
| "fsize (U16 _) = 2"
| "fsize (U32 _) = 4"
| "fsize (U64 _) = 8"
| "fsize (Boolean _) = 1"
| "fsize (CharArray cs) = length cs"
| "fsize (WCharArray ws) = 2 * length ws"

fun falign :: "cfield \<Rightarrow> nat" where
  "falign (U8 _) = 1"
| "falign (U16 _) = 2"
| "falign (U32 _) = 4"
| "falign (U64 _) = 8"
| "falign (Boolean _) = 1"
| "falign (CharArray _) = 1"
| "falign (WCharArray _) = 2"

text \<open>The next multiple of \<open>a\<close> at or after \<open>off\<close>.\<close>

definition align_up :: "nat \<Rightarrow> nat \<Rightarrow> nat" where
  "align_up a off = (off + (a - 1)) div a * a"

fun offsets :: "nat \<Rightarrow> cfield list \<Rightarrow> nat list" where
  "offsets off [] = []"
| "offsets off (f # fs) =
     (let o' = align_up (falign f) off in o' # offsets (o' + fsize f) fs)"

fun end_offset :: "nat \<Rightarrow> cfield list \<Rightarrow> nat" where
  "end_offset off [] = off"
| "end_offset off (f # fs) = end_offset (align_up (falign f) off + fsize f) fs"

fun struct_body :: "(nat \<Rightarrow> byte) \<Rightarrow> nat \<Rightarrow> cfield list \<Rightarrow> bytes" where
  "struct_body pad off [] = []"
| "struct_body pad off (f # fs) =
     (let o' = align_up (falign f) off
      in map pad [off..<o'] @ fbytes f @ struct_body pad (o' + fsize f) fs)"

definition struct_align :: "cfield list \<Rightarrow> nat" where
  "struct_align fs = foldr (\<lambda>f a. max (falign f) a) fs 1"

definition sizeof :: "cfield list \<Rightarrow> nat" where
  "sizeof fs = align_up (struct_align fs) (end_offset 0 fs)"

definition struct_bytes :: "(nat \<Rightarrow> byte) \<Rightarrow> cfield list \<Rightarrow> bytes" where
  "struct_bytes pad fs =
     struct_body pad 0 fs @ map pad [end_offset 0 fs..<sizeof fs]"

section \<open>Reading members back\<close>

text \<open>What a member access through a pointer of struct type reads from the bytes.\<close>

definition mem_slice :: "nat \<Rightarrow> nat \<Rightarrow> 'a list \<Rightarrow> 'a list" where
  "mem_slice off n bs = take n (drop off bs)"

definition get_u8 :: "nat \<Rightarrow> bytes \<Rightarrow> 8 word" where
  "get_u8 off bs = word_of_nat (le_nat (mem_slice off 1 bs))"

definition get_u16 :: "nat \<Rightarrow> bytes \<Rightarrow> u16" where
  "get_u16 off bs = word_of_nat (le_nat (mem_slice off 2 bs))"

definition get_u32 :: "nat \<Rightarrow> bytes \<Rightarrow> u32" where
  "get_u32 off bs = word_of_nat (le_nat (mem_slice off 4 bs))"

definition get_u64 :: "nat \<Rightarrow> bytes \<Rightarrow> u64" where
  "get_u64 off bs = word_of_nat (le_nat (mem_slice off 8 bs))"

definition get_bool :: "nat \<Rightarrow> bytes \<Rightarrow> bool" where
  "get_bool off bs = (le_nat (mem_slice off 1 bs) \<noteq> 0)"

definition get_chars :: "nat \<Rightarrow> nat \<Rightarrow> bytes \<Rightarrow> bytes" where
  "get_chars off n bs = mem_slice off n bs"

primrec le_wchars :: "nat \<Rightarrow> bytes \<Rightarrow> wchars" where
  "le_wchars 0 bs = []"
| "le_wchars (Suc n) bs = word_of_nat (le_nat (take 2 bs)) # le_wchars n (drop 2 bs)"

definition get_wchars :: "nat \<Rightarrow> nat \<Rightarrow> bytes \<Rightarrow> wchars" where
  "get_wchars off n bs = le_wchars n (mem_slice off (2 * n) bs)"

text \<open>The member that starts at offset \<open>t\<close>.\<close>

fun field_at :: "nat \<Rightarrow> nat \<Rightarrow> cfield list \<Rightarrow> cfield option" where
  "field_at off t [] = None"
| "field_at off t (f # fs) =
     (let o' = align_up (falign f) off in if o' = t then Some f else field_at (o' + fsize f) t fs)"

section \<open>Scalars round-trip\<close>

lemma length_le_bytes [simp]: "length (le_bytes n k) = n"
  by (induction n arbitrary: k) auto

lemma le_nat_le_bytes: "le_nat (le_bytes n k) = k mod 256 ^ n"
proof (induction n arbitrary: k)
  case 0
  then show ?case by simp
next
  case (Suc n)
  have "k mod 256 + 256 * (k div 256 mod 256 ^ n) = k mod (256 * 256 ^ n)"
    by (simp add: mod_mult2_eq)
  with Suc show ?case by (simp add: unat_of_nat)
qed

lemma le_nat_bound: "le_nat bs < 256 ^ length bs"
proof (induction bs)
  case Nil
  then show ?case by simp
next
  case (Cons b bs)
  have "unat b < 256" using unsigned_less [of b, where ?'a = nat] by simp
  with Cons show ?case by simp
qed

lemma le_nat_le_bytes_word:
  fixes w :: "'a::len word"
  assumes "LENGTH('a) = 8 * n"
  shows "le_nat (le_bytes n (unat w)) = unat w"
proof -
  have "unat w < 2 ^ (8 * n)" using unsigned_less [of w, where ?'a = nat] assms by simp
  then have "unat w < 256 ^ n" by (simp add: power_mult)
  then show ?thesis by (simp add: le_nat_le_bytes)
qed

lemma le_wchars_concat:
  "le_wchars (length ws) (concat (map (\<lambda>w. le_bytes 2 (unat w)) ws)) = ws"
  by (induction ws) (simp_all add: le_nat_le_bytes_word)

lemma length_fbytes [simp]: "length (fbytes f) = fsize f"
proof (cases f)
  case (WCharArray ws)
  then show ?thesis by (induction ws arbitrary: f) auto
qed auto

lemma falign_pos [simp]: "0 < falign f"
  by (cases f) auto

section \<open>Offsets and sizes\<close>

lemma align_up_ge: "0 < a \<Longrightarrow> off \<le> align_up a off"
proof -
  assume a: "0 < a"
  have "off + (a - 1) = (off + (a - 1)) div a * a + (off + (a - 1)) mod a" by simp
  moreover have "(off + (a - 1)) mod a \<le> a - 1"
    using a by (metis Suc_pred' less_Suc_eq_le mod_less_divisor)
  ultimately show ?thesis unfolding align_up_def by linarith
qed

lemma align_up_dvd: "a dvd align_up a off"
  by (simp add: align_up_def)

lemma falign_align_up_ge [simp]: "off \<le> align_up (falign f) off"
  by (simp add: align_up_ge)

lemma struct_align_pos [simp]: "0 < struct_align fs"
  by (induction fs) (auto simp: struct_align_def)

lemma end_offset_ge: "off \<le> end_offset off fs"
proof (induction fs arbitrary: off)
  case Nil
  then show ?case by simp
next
  case (Cons f fs)
  have "off \<le> align_up (falign f) off + fsize f" by (simp add: trans_le_add1)
  also have "\<dots> \<le> end_offset (align_up (falign f) off + fsize f) fs" by (rule Cons)
  finally show ?case by simp
qed

lemma length_struct_body: "length (struct_body pad off fs) = end_offset off fs - off"
proof (induction fs arbitrary: off)
  case Nil
  then show ?case by simp
next
  case (Cons f fs)
  let ?o = "align_up (falign f) off"
  have "off \<le> ?o" by simp
  moreover have "?o + fsize f \<le> end_offset (?o + fsize f) fs" by (rule end_offset_ge)
  ultimately show ?case by (simp add: Cons Let_def)
qed

lemma sizeof_ge_end: "end_offset 0 fs \<le> sizeof fs"
  by (simp add: sizeof_def align_up_ge)

text \<open>The bytes handed to the transport are exactly \<open>sizeof\<close> many.\<close>

lemma length_struct_bytes [simp]: "length (struct_bytes pad fs) = sizeof fs"
  using sizeof_ge_end [of fs] by (simp add: struct_bytes_def length_struct_body)

section \<open>Every member is found at its offset\<close>

lemma length_offsets [simp]: "length (offsets off fs) = length fs"
  by (induction fs arbitrary: off) (auto simp: Let_def)

lemma offsets_ge: "k < length fs \<Longrightarrow> off \<le> offsets off fs ! k"
proof (induction fs arbitrary: off k)
  case Nil
  then show ?case by simp
next
  case (Cons f fs)
  let ?o = "align_up (falign f) off"
  have o: "off \<le> ?o" by simp
  show ?case
  proof (cases k)
    case 0
    with o show ?thesis by (simp add: Let_def)
  next
    case (Suc j)
    with Cons have "?o + fsize f \<le> offsets (?o + fsize f) fs ! j" by simp
    with o have "off \<le> offsets (?o + fsize f) fs ! j" by linarith
    with Suc show ?thesis by (simp add: Let_def)
  qed
qed

lemma mem_slice_struct_body:
  "k < length fs \<Longrightarrow>
     mem_slice (offsets off fs ! k - off) (fsize (fs ! k)) (struct_body pad off fs @ rest) = fbytes (fs ! k)"
proof (induction fs arbitrary: off k)
  case Nil
  then show ?case by simp
next
  case (Cons f fs)
  let ?o = "align_up (falign f) off"
  have o: "off \<le> ?o" by simp
  show ?case
  proof (cases k)
    case 0
    with o show ?thesis by (simp add: Let_def mem_slice_def)
  next
    case (Suc j)
    with Cons.prems have j: "j < length fs" by simp
    let ?p = "offsets (?o + fsize f) fs ! j"
    have p: "?o + fsize f \<le> ?p" using j by (rule offsets_ge)
    have "drop (?p - off) (map pad [off..<?o] @ fbytes f @ struct_body pad (?o + fsize f) fs @ rest)
        = drop (?p - (?o + fsize f)) (struct_body pad (?o + fsize f) fs @ rest)"
      using o p by simp
    with Cons.IH [OF j, of "?o + fsize f"] Suc show ?thesis
      by (simp add: Let_def mem_slice_def)
  qed
qed

lemma mem_slice_struct_bytes:
  "k < length fs \<Longrightarrow>
     mem_slice (offsets 0 fs ! k) (fsize (fs ! k)) (struct_bytes pad fs) = fbytes (fs ! k)"
  using mem_slice_struct_body [of k fs 0] by (simp add: struct_bytes_def)

text \<open>A prefix of at least the struct's size is all a member access needs.\<close>

lemma offsets_end: "k < length fs \<Longrightarrow> offsets off fs ! k + fsize (fs ! k) \<le> end_offset off fs"
proof (induction fs arbitrary: off k)
  case Nil
  then show ?case by simp
next
  case (Cons f fs)
  then show ?case
    by (cases k) (auto simp: Let_def intro: order_trans [OF _ end_offset_ge])
qed

lemma mem_slice_append: "off + n \<le> length xs \<Longrightarrow> mem_slice off n (xs @ ys) = mem_slice off n xs"
  by (simp add: mem_slice_def)

lemma mem_slice_struct_bytes_append:
  assumes "k < length fs"
  shows "mem_slice (offsets 0 fs ! k) (fsize (fs ! k)) (struct_bytes pad fs @ rest) = fbytes (fs ! k)"
proof -
  have "offsets 0 fs ! k + fsize (fs ! k) \<le> sizeof fs"
    using offsets_end [OF assms, of 0] sizeof_ge_end [of fs] by linarith
  then show ?thesis
    using mem_slice_struct_bytes [OF assms] by (simp add: mem_slice_append)
qed

section \<open>Typed member reads\<close>

lemma field_at_Some:
  "field_at off t fs = Some f \<Longrightarrow> \<exists>k < length fs. fs ! k = f \<and> offsets off fs ! k = t"
proof (induction fs arbitrary: off)
  case Nil
  then show ?case by simp
next
  case (Cons g fs)
  let ?o = "align_up (falign g) off"
  show ?case
  proof (cases "?o = t")
    case True
    with Cons.prems show ?thesis by (intro exI [of _ 0]) (simp add: Let_def)
  next
    case False
    with Cons.prems have "field_at (?o + fsize g) t fs = Some f" by (simp add: Let_def)
    with Cons.IH obtain k where "k < length fs" "fs ! k = f" "offsets (?o + fsize g) fs ! k = t" by blast
    then show ?thesis by (intro exI [of _ "Suc k"]) (simp add: Let_def)
  qed
qed

lemma mem_slice_field_at:
  assumes "field_at 0 t fs = Some f"
  shows "mem_slice t (fsize f) (struct_bytes pad fs @ rest) = fbytes f"
  using field_at_Some [OF assms] mem_slice_struct_bytes_append by blast

lemma get_u8_at: "field_at 0 t fs = Some (U8 w) \<Longrightarrow> get_u8 t (struct_bytes pad fs @ rest) = w"
  using mem_slice_field_at [of t fs "U8 w" pad rest] by (simp add: get_u8_def)

lemma get_u16_at: "field_at 0 t fs = Some (U16 w) \<Longrightarrow> get_u16 t (struct_bytes pad fs @ rest) = w"
  using mem_slice_field_at [of t fs "U16 w" pad rest]
  by (simp add: get_u16_def le_nat_le_bytes_word del: le_bytes.simps)

lemma get_u32_at: "field_at 0 t fs = Some (U32 w) \<Longrightarrow> get_u32 t (struct_bytes pad fs @ rest) = w"
  using mem_slice_field_at [of t fs "U32 w" pad rest]
  by (simp add: get_u32_def le_nat_le_bytes_word del: le_bytes.simps)

lemma get_u64_at: "field_at 0 t fs = Some (U64 w) \<Longrightarrow> get_u64 t (struct_bytes pad fs @ rest) = w"
  using mem_slice_field_at [of t fs "U64 w" pad rest]
  by (simp add: get_u64_def le_nat_le_bytes_word del: le_bytes.simps)

lemma get_bool_at: "field_at 0 t fs = Some (Boolean b) \<Longrightarrow> get_bool t (struct_bytes pad fs @ rest) = b"
  using mem_slice_field_at [of t fs "Boolean b" pad rest] by (simp add: get_bool_def)

lemma get_chars_at:
  "field_at 0 t fs = Some (CharArray cs) \<Longrightarrow> length cs = n \<Longrightarrow>
     get_chars t n (struct_bytes pad fs @ rest) = cs"
  using mem_slice_field_at [of t fs "CharArray cs" pad rest] by (auto simp: get_chars_def)

lemma get_wchars_at:
  "field_at 0 t fs = Some (WCharArray ws) \<Longrightarrow> length ws = n \<Longrightarrow>
     get_wchars t n (struct_bytes pad fs @ rest) = ws"
  using mem_slice_field_at [of t fs "WCharArray ws" pad rest] le_wchars_concat [of ws]
  by (auto simp: get_wchars_def)

lemmas get_at =
  get_u8_at get_u16_at get_u32_at get_u64_at get_bool_at get_chars_at get_wchars_at

end
