(* ===== verification/Float32.thy ===== *)
theory Float32
  imports Adapter_Prelude "HOL-Library.Log_Nat"
begin

text \<open>
  The C++ type \<^verbatim>\<open>float\<close> as the adapter uses it: IEEE 754 binary32 values as bit patterns,
  conversion from integers, subtraction, and conversion to \<^verbatim>\<open>uint32_t\<close>.

  Every finite binary32 value is an integer multiple of \<open>2 ^ -149\<close>, so its exact value
  is the integer \<open>f32_units\<close>.  An operation computes exactly on these integers and
  rounds once (to nearest, ties to even).  The magnitude bits of a rounded value are
  \<open>k * 2 ^ 23 + m\<close> with \<open>k\<close> the number of bits cut and \<open>m\<close> the rounded significand:
  for a normal number this is the biased exponent \<open>k + 1\<close> over the significand without
  its leading one, for a subnormal one (\<open>k = 0\<close>, \<open>m < 2 ^ 23\<close>) it is \<open>m\<close> itself, and a
  carry out of the significand moves to the next exponent.
\<close>

section \<open>Bit patterns and their values\<close>

type_synonym f32 = "32 word"

definition f32_neg :: "f32 \<Rightarrow> bool" where
  "f32_neg w = (2 ^ 31 \<le> unat w)"

definition f32_mag :: "f32 \<Rightarrow> nat" where
  "f32_mag w = unat w mod 2 ^ 31"

definition inf_mag :: nat where
  "inf_mag = 255 * 2 ^ 23"

definition f32_finite :: "f32 \<Rightarrow> bool" where
  "f32_finite w = (f32_mag w < inf_mag)"

definition f32_nan :: "f32 \<Rightarrow> bool" where
  "f32_nan w = (inf_mag < f32_mag w)"

definition mag_units :: "nat \<Rightarrow> nat" where
  "mag_units g =
     (if g < 2 ^ 23 then g else (2 ^ 23 + g mod 2 ^ 23) * 2 ^ (g div 2 ^ 23 - 1))"

definition f32_units :: "f32 \<Rightarrow> int" where
  "f32_units w =
     (if f32_neg w then - int (mag_units (f32_mag w)) else int (mag_units (f32_mag w)))"

section \<open>Rounding\<close>

definition cut_bits :: "nat \<Rightarrow> nat" where
  "cut_bits u = floorlog 2 u - 24"

definition round_even :: "nat \<Rightarrow> nat \<Rightarrow> nat" where
  "round_even k u =
     (let q = u div 2 ^ k; r = u mod 2 ^ k
      in if 2 ^ k < 2 * r \<or> (2 * r = 2 ^ k \<and> odd q) then q + 1 else q)"

definition mag_round :: "nat \<Rightarrow> nat" where
  "mag_round u = min (cut_bits u * 2 ^ 23 + round_even (cut_bits u) u) inf_mag"

definition f32_make :: "bool \<Rightarrow> nat \<Rightarrow> f32" where
  "f32_make neg g = word_of_nat (if neg then 2 ^ 31 + g else g)"

definition f32_round :: "int \<Rightarrow> f32" where
  "f32_round u = f32_make (u < 0) (mag_round (nat \<bar>u\<bar>))"

section \<open>The operations\<close>

text \<open>\<^verbatim>\<open>static_cast<float>(n)\<close> for an integer \<open>n\<close>.\<close>

definition f32_of_int :: "int \<Rightarrow> f32" where
  "f32_of_int n = f32_round (n * 2 ^ 149)"

text \<open>
  \<^verbatim>\<open>a - b\<close>.  A NaN operand comes out quieted, the difference of two equal infinities is
  the default NaN, and an exact zero is positive unless it is \<open>-0 - +0\<close>.
\<close>

definition f32_sub :: "f32 \<Rightarrow> f32 \<Rightarrow> f32" where
  "f32_sub a b =
     (if f32_nan a then a OR 0x400000
      else if f32_nan b then b OR 0x400000
      else if \<not> f32_finite a then (if \<not> f32_finite b \<and> f32_neg a = f32_neg b then 0xFFC00000 else a)
      else if \<not> f32_finite b then f32_make (\<not> f32_neg b) inf_mag
      else if f32_units a = f32_units b
        then f32_make (f32_neg a \<and> \<not> f32_neg b) 0
      else f32_round (f32_units a - f32_units b))"

text \<open>
  Conversion to \<^verbatim>\<open>uint32_t\<close> truncates; it is undefined behaviour when the truncated value
  does not fit, which \<open>None\<close> stands for.
\<close>

definition f32_trunc :: "f32 \<Rightarrow> int" where
  "f32_trunc w = (let t = int (mag_units (f32_mag w) div 2 ^ 149) in if f32_neg w then - t else t)"

definition f32_to_u32 :: "f32 \<Rightarrow> u32 option" where
  "f32_to_u32 w =
     (if f32_finite w \<and> 0 \<le> f32_trunc w \<and> f32_trunc w < 2 ^ 32
      then Some (word_of_int (f32_trunc w)) else None)"

section \<open>Magnitudes\<close>

lemma mag_units_normal:
  assumes "2 ^ 23 \<le> m" and "m \<le> 2 ^ 24"
  shows "mag_units (k * 2 ^ 23 + m) = m * 2 ^ k"
proof (cases "m = 2 ^ 24")
  case True
  have eq: "k * 8388608 + 16777216 = (k + 2) * (8388608::nat)" by simp
  have "(k * 8388608 + 16777216) mod 8388608 = (0::nat)" unfolding eq by (rule mod_mult_self2_is_0)
  moreover have "(k * 8388608 + 16777216) div 8388608 = k + 2" unfolding eq by simp
  ultimately show ?thesis using True by (simp add: mag_units_def)
next
  case False
  with assms have lt: "m - 2 ^ 23 < 2 ^ 23" and m: "m = 2 ^ 23 + (m - 2 ^ 23)" by simp_all
  define t where "t = m - 2 ^ 23"
  have t: "t < 2 ^ 23" and mt: "m = 2 ^ 23 + t" using lt m by (simp_all add: t_def)
  have eq: "k * 2 ^ 23 + m = (k + 1) * 2 ^ 23 + t" using mt by simp
  have "((k + 1) * 2 ^ 23 + t) mod 2 ^ 23 = t" using t by (metis mod_mult_self3 mod_less)
  moreover have "((k + 1) * 2 ^ 23 + t) div 2 ^ 23 = k + 1" using t by simp
  moreover have "\<not> (k + 1) * 2 ^ 23 + t < 2 ^ 23" by simp
  ultimately show ?thesis unfolding eq mag_units_def using mt by simp
qed

lemma mag_units_small: "m < 2 ^ 23 \<Longrightarrow> mag_units m = m"
  by (simp add: mag_units_def)

text \<open>The significand that a rounding keeps.\<close>

lemma cut_bits_bounds:
  assumes "0 < cut_bits u"
  shows "2 ^ 23 * 2 ^ cut_bits u \<le> u" and "u < 2 ^ 24 * 2 ^ cut_bits u"
proof -
  have u: "0 < u" using assms by (cases "u = 0") (simp_all add: cut_bits_def floorlog_def)
  have f: "floorlog 2 u = 24 + cut_bits u" using assms by (simp add: cut_bits_def)
  have "2 ^ (23 + cut_bits u) \<le> u" and "u < 2 ^ (24 + cut_bits u)"
    using floorlog_bounds [of u 2] u f by simp_all
  then show "2 ^ 23 * 2 ^ cut_bits u \<le> u" and "u < 2 ^ 24 * 2 ^ cut_bits u"
    by (simp_all add: power_add)
qed

lemma cut_bits_0: "cut_bits u = 0 \<longleftrightarrow> u < 2 ^ 24"
  using floorlog_le_iff [of 2 u 24] by (simp add: cut_bits_def)

lemma cut_bits_mono: "u \<le> v \<Longrightarrow> cut_bits u \<le> cut_bits v"
  by (simp add: cut_bits_def diff_le_mono floorlog_mono)

lemma round_even_0 [simp]: "round_even 0 u = u"
  by (simp add: round_even_def)

lemma round_even_exact: "round_even k (m * 2 ^ k) = m"
  by (simp add: round_even_def)

lemma round_even_ge: "u div 2 ^ k \<le> round_even k u"
  by (simp add: round_even_def Let_def)

lemma round_even_le: "round_even k u \<le> u div 2 ^ k + 1"
  by (simp add: round_even_def Let_def)

lemma round_even_mono:
  assumes "u \<le> v"
  shows "round_even k u \<le> round_even k v"
proof (cases "u div 2 ^ k = v div 2 ^ k")
  case True
  have "u = u div 2 ^ k * 2 ^ k + u mod 2 ^ k" and "v = v div 2 ^ k * 2 ^ k + v mod 2 ^ k"
    by (rule div_mult_mod_eq [symmetric])+
  with True assms have "u mod 2 ^ k \<le> v mod 2 ^ k" by (metis add_le_cancel_left)
  with True show ?thesis by (auto simp: round_even_def Let_def)
next
  case False
  with assms have "u div 2 ^ k + 1 \<le> v div 2 ^ k"
    by (metis Suc_eq_plus1 Suc_leI div_le_mono le_neq_implies_less)
  then show ?thesis using round_even_le [of k u] round_even_ge [of v k] by linarith
qed

lemma round_even_range:
  assumes "0 < cut_bits u"
  shows "2 ^ 23 \<le> round_even (cut_bits u) u" and "round_even (cut_bits u) u \<le> 2 ^ 24"
proof -
  let ?k = "cut_bits u"
  have "2 ^ 23 \<le> u div 2 ^ ?k"
    using cut_bits_bounds(1) [OF assms] by (simp add: less_eq_div_iff_mult_less_eq)
  then show "2 ^ 23 \<le> round_even ?k u" using round_even_ge [of u ?k] by linarith
  have "u div 2 ^ ?k < 2 ^ 24"
    using cut_bits_bounds(2) [OF assms] by (simp add: div_less_iff_less_mult)
  then show "round_even ?k u \<le> 2 ^ 24" using round_even_le [of ?k u] by linarith
qed

text \<open>Rounding to nearest is monotone.\<close>

lemma mag_round_mono:
  assumes "u \<le> v"
  shows "mag_round u \<le> mag_round v"
proof (cases "cut_bits u = cut_bits v")
  case True
  then show ?thesis using round_even_mono [OF assms] by (simp add: mag_round_def min_le_iff_disj)
next
  case False
  with cut_bits_mono [OF assms] have lt: "cut_bits u + 1 \<le> cut_bits v" by simp
  have "round_even (cut_bits u) u \<le> 2 ^ 24"
  proof (cases "cut_bits u = 0")
    case True
    then show ?thesis using cut_bits_0 [of u] by simp
  next
    case False
    then show ?thesis using round_even_range(2) [of u] by simp
  qed
  then have "cut_bits u * 2 ^ 23 + round_even (cut_bits u) u \<le> (cut_bits u + 1) * 2 ^ 23 + 2 ^ 23"
    by simp
  also have "\<dots> \<le> cut_bits v * 2 ^ 23 + 2 ^ 23" using lt by simp
  also have "\<dots> \<le> cut_bits v * 2 ^ 23 + round_even (cut_bits v) v"
    using lt round_even_range(1) [of v] by simp
  finally show ?thesis unfolding mag_round_def by linarith
qed

lemma mag_round_small: "u < 2 ^ 24 \<Longrightarrow> mag_round u = u"
  using cut_bits_0 [of u] by (simp add: mag_round_def inf_mag_def)

lemma mag_round_finite:
  assumes "u < 2 ^ 200"
  shows "mag_round u < inf_mag"
proof -
  have "floorlog 2 u \<le> 200" using floorlog_le_iff [of 2 u 200] assms by simp
  then have k: "cut_bits u \<le> 176" by (simp add: cut_bits_def)
  have "round_even (cut_bits u) u \<le> 2 ^ 24"
    using cut_bits_0 [of u] round_even_range(2) [of u] by (cases "cut_bits u = 0") simp_all
  then have "cut_bits u * 2 ^ 23 + round_even (cut_bits u) u \<le> 176 * 2 ^ 23 + 2 ^ 24"
    using k by (intro add_mono) simp_all
  then show ?thesis by (simp add: mag_round_def inf_mag_def)
qed

lemma mag_units_split:
  assumes "2 ^ 23 \<le> g"
  obtains k m where "g = k * 2 ^ 23 + m" and "2 ^ 23 \<le> m" and "m < 2 ^ 24"
    and "mag_units g = m * 2 ^ k"
proof -
  define k where "k = g div 2 ^ 23 - 1"
  define m where "m = 2 ^ 23 + g mod 2 ^ 23"
  have "1 \<le> g div 2 ^ 23" using assms by (simp add: less_eq_div_iff_mult_less_eq)
  then have "g div 2 ^ 23 = k + 1" by (simp add: k_def)
  then have g: "g = k * 2 ^ 23 + m"
    using div_mult_mod_eq [of g "2 ^ 23"] by (simp add: m_def)
  have m: "2 ^ 23 \<le> m" "m < 2 ^ 24" by (simp_all add: m_def)
  show thesis
    by (rule that [OF g m]) (use g mag_units_normal [of m k] m in simp)
qed

text \<open>Rounding a value that is a binary32 value already gives that value.\<close>

lemma mag_round_units:
  assumes "g \<le> inf_mag"
  shows "mag_round (mag_units g) = g"
proof (cases "g < 2 ^ 23")
  case True
  then show ?thesis by (simp add: mag_units_small mag_round_small)
next
  case False
  then have "2 ^ 23 \<le> g" by simp
  then obtain k m where g: "g = k * 2 ^ 23 + m" and m: "2 ^ 23 \<le> m" "m < 2 ^ 24"
    and u: "mag_units g = m * 2 ^ k" by (rule mag_units_split)
  have "floorlog 2 m \<le> 24" using m floorlog_leI [of m 2 24] by simp
  moreover have "24 \<le> floorlog 2 m" using m floorlog_geI [of 2 24 m] by simp
  ultimately have "floorlog 2 m = 24" by simp
  then have "cut_bits (m * 2 ^ k) = k"
    using m floorlog_power [of m 2 k] by (simp add: cut_bits_def)
  then have "mag_round (m * 2 ^ k) = min (k * 2 ^ 23 + m) inf_mag"
    by (simp add: mag_round_def round_even_exact)
  also have "\<dots> = g" using assms g by simp
  finally show ?thesis by (simp only: u)
qed

lemma mag_units_mono:
  assumes "g \<le> h"
  shows "mag_units g \<le> mag_units h"
proof (cases "h < 2 ^ 23")
  case True
  with assms show ?thesis by (simp add: mag_units_small)
next
  case False
  then have "2 ^ 23 \<le> h" by simp
  then obtain k m where h: "h = k * 2 ^ 23 + m" and m: "2 ^ 23 \<le> m" "m < 2 ^ 24"
    and uh: "mag_units h = m * 2 ^ k" by (rule mag_units_split)
  show ?thesis
  proof (cases "g < 2 ^ 23")
    case True
    have "g \<le> m" using True m by simp
    also have "m = m * 1" by simp
    also have "\<dots> \<le> m * 2 ^ k" by (rule mult_le_mono2) simp
    finally show ?thesis using True by (simp add: mag_units_small uh)
  next
    case False
    then have "2 ^ 23 \<le> g" by simp
    then obtain j n where g: "g = j * 2 ^ 23 + n" and n: "2 ^ 23 \<le> n" "n < 2 ^ 24"
      and ug: "mag_units g = n * 2 ^ j" by (rule mag_units_split)
    show ?thesis
    proof (cases "j = k")
      case True
      with assms g h ug uh show ?thesis by simp
    next
      case False
      have "j < k"
      proof (rule ccontr)
        assume "\<not> j < k"
        with False have "k + 1 \<le> j" by simp
        then have "(k + 1) * 2 ^ 23 \<le> j * 2 ^ 23" by (rule mult_le_mono1)
        with assms g h m n show False by simp
      qed
      then obtain d where k: "k = Suc (j + d)" using less_imp_Suc_add by blast
      have "n * 2 ^ j \<le> 2 ^ 24 * 2 ^ j" using n by simp
      also have "\<dots> = 2 ^ 23 * 2 ^ Suc j" by simp
      also have "\<dots> \<le> m * (2 ^ Suc j * 2 ^ d)" using m by (intro mult_le_mono) simp_all
      also have "\<dots> = m * 2 ^ k" by (simp add: k power_add)
      finally show ?thesis by (simp add: ug uh)
    qed
  qed
qed

lemma mag_units_round_le:
  assumes "u \<le> mag_units g" and "g \<le> inf_mag"
  shows "mag_units (mag_round u) \<le> mag_units g"
  using mag_units_mono [OF mag_round_mono [OF assms(1)]] assms(2) by (simp add: mag_round_units)

text \<open>A value whose cut bits are zero is not changed by rounding.\<close>

lemma mag_round_exact:
  assumes "2 ^ cut_bits u dvd u" and "u < 2 ^ 200"
  shows "mag_units (mag_round u) = u"
proof (cases "cut_bits u = 0")
  case True
  then have u: "u < 2 ^ 24" using cut_bits_0 by simp
  show ?thesis
  proof (cases "u < 2 ^ 23")
    case True
    then show ?thesis by (simp add: mag_round_small mag_units_small)
  next
    case False
    then show ?thesis using u mag_units_normal [of u 0] by (simp add: mag_round_small)
  qed
next
  case False
  let ?k = "cut_bits u"
  obtain m where um: "u = m * 2 ^ ?k" using assms(1) by (metis dvd_def mult.commute)
  then have r: "round_even ?k u = m" by (metis round_even_exact)
  have m: "2 ^ 23 \<le> m" "m \<le> 2 ^ 24" using round_even_range [of u] False r by simp_all
  have "mag_round u = ?k * 2 ^ 23 + m"
    using mag_round_finite [OF assms(2)] r by (simp add: mag_round_def)
  then show ?thesis using mag_units_normal [OF m, of ?k] um by simp
qed

lemma cut_bits_dvd:
  assumes "m < 2 ^ 24"
  shows "2 ^ cut_bits (m * 2 ^ j) dvd m * 2 ^ j"
proof (cases "m = 0")
  case True
  then show ?thesis by simp
next
  case False
  have "floorlog 2 m \<le> 24" using assms floorlog_leI [of m 2 24] by simp
  then have "cut_bits (m * 2 ^ j) \<le> j"
    using False floorlog_power [of m 2 j] by (simp add: cut_bits_def)
  then show ?thesis by (simp add: le_imp_power_dvd)
qed

section \<open>Values\<close>

lemma f32_make_parts:
  assumes "g < 2 ^ 31"
  shows "f32_neg (f32_make neg g) = neg" and "f32_mag (f32_make neg g) = g"
proof -
  have "unat (f32_make neg g) = (if neg then 2 ^ 31 + g else g)"
    using assms by (simp add: f32_make_def unat_of_nat)
  then show "f32_neg (f32_make neg g) = neg" and "f32_mag (f32_make neg g) = g"
    using assms by (simp_all add: f32_neg_def f32_mag_def)
qed

lemma mag_round_le_inf: "mag_round u \<le> inf_mag"
  by (simp add: mag_round_def)

lemma inf_mag_less: "inf_mag < 2 ^ 31"
  by (simp add: inf_mag_def)

lemma f32_round_parts:
  shows "f32_neg (f32_round u) = (u < 0)" and "f32_mag (f32_round u) = mag_round (nat \<bar>u\<bar>)"
  using f32_make_parts [of "mag_round (nat \<bar>u\<bar>)" "u < 0"]
    le_less_trans [OF mag_round_le_inf inf_mag_less]
  by (simp_all add: f32_round_def)

lemma f32_units_round:
  "f32_units (f32_round u) =
     (if u < 0 then - int (mag_units (mag_round (nat \<bar>u\<bar>))) else int (mag_units (mag_round (nat \<bar>u\<bar>))))"
  by (simp add: f32_units_def f32_round_parts)

lemma f32_round_finite: "\<bar>u\<bar> < 2 ^ 200 \<Longrightarrow> f32_finite (f32_round u)"
  using mag_round_finite [of "nat \<bar>u\<bar>"] by (simp add: f32_finite_def f32_round_parts nat_less_iff)

lemma f32_units_round_mono:
  assumes "u \<le> v"
  shows "f32_units (f32_round u) \<le> f32_units (f32_round v)"
proof -
  have m: "mag_units (mag_round a) \<le> mag_units (mag_round b)" if "a \<le> b" for a b
    using that by (intro mag_units_mono mag_round_mono)
  show ?thesis
    using assms m [of "nat \<bar>u\<bar>" "nat \<bar>v\<bar>"] m [of "nat \<bar>v\<bar>" "nat \<bar>u\<bar>"]
    by (auto simp: f32_units_round)
qed

lemma f32_units_round_exact:
  assumes "nat \<bar>u\<bar> = m * 2 ^ j" and "m < 2 ^ 24" and "\<bar>u\<bar> < 2 ^ 200"
  shows "f32_units (f32_round u) = u"
proof -
  have "mag_units (mag_round (nat \<bar>u\<bar>)) = nat \<bar>u\<bar>"
    by (rule mag_round_exact) (use assms cut_bits_dvd in \<open>auto simp: nat_less_iff\<close>)
  then show ?thesis by (auto simp: f32_units_round)
qed

lemma f32_units_round_units:
  assumes "f32_finite w"
  shows "f32_units (f32_round (f32_units w)) = f32_units w"
proof -
  have "mag_round (mag_units (f32_mag w)) = f32_mag w"
    using assms by (intro mag_round_units) (simp add: f32_finite_def)
  then show ?thesis by (auto simp: f32_units_round) (auto simp: f32_units_def)
qed

lemma f32_finite_not_nan: "f32_finite w \<Longrightarrow> \<not> f32_nan w"
  by (simp add: f32_finite_def f32_nan_def)

section \<open>Conversions of integers\<close>

lemma int_scaled_bound:
  assumes "\<bar>n\<bar> \<le> 2 ^ 33"
  shows "\<bar>n * 2 ^ 149 :: int\<bar> < 2 ^ 200"
proof -
  have "\<bar>n * 2 ^ 149\<bar> = \<bar>n\<bar> * 2 ^ 149" by (simp add: abs_mult)
  also have "\<dots> \<le> 2 ^ 33 * 2 ^ 149" using assms by (intro mult_right_mono) simp_all
  also have "\<dots> < (2 ^ 200 :: int)" by simp
  finally show ?thesis .
qed

lemma f32_of_int_finite: "\<bar>n\<bar> \<le> 2 ^ 33 \<Longrightarrow> f32_finite (f32_of_int n)"
  unfolding f32_of_int_def by (intro f32_round_finite int_scaled_bound)

lemma f32_of_int_neg [simp]: "f32_neg (f32_of_int n) = (n < 0)"
  by (simp add: f32_of_int_def f32_round_parts mult_less_0_iff)

lemma f32_of_int_mono: "m \<le> n \<Longrightarrow> f32_units (f32_of_int m) \<le> f32_units (f32_of_int n)"
  unfolding f32_of_int_def by (intro f32_units_round_mono mult_right_mono) simp_all

lemma f32_of_int_0_units: "f32_units (f32_of_int 0) = 0"
  by (simp add: f32_of_int_def f32_units_round mag_round_small mag_units_small)

lemma f32_of_int_units_nonneg: "0 \<le> n \<Longrightarrow> 0 \<le> f32_units (f32_of_int n)"
  using f32_of_int_mono [of 0 n] by (simp add: f32_of_int_0_units)

text \<open>Integers of at most 24 bits are represented exactly.\<close>

lemma f32_of_int_exact:
  assumes "\<bar>n\<bar> \<le> 2 ^ 24"
  shows "f32_units (f32_of_int n) = n * 2 ^ 149"
proof (cases "\<bar>n\<bar> = 2 ^ 24")
  case True
  then have "nat \<bar>n * 2 ^ 149\<bar> = 2 ^ 23 * 2 ^ 150" by (simp add: abs_mult nat_mult_distrib)
  then show ?thesis
    unfolding f32_of_int_def
    by (rule f32_units_round_exact) (use int_scaled_bound [of n] assms in simp_all)
next
  case False
  have "nat \<bar>n * 2 ^ 149\<bar> = nat \<bar>n\<bar> * 2 ^ 149" by (simp add: abs_mult nat_mult_distrib)
  moreover have "nat \<bar>n\<bar> < 2 ^ 24" using False assms by simp
  ultimately show ?thesis
    unfolding f32_of_int_def
    by (rule f32_units_round_exact) (use int_scaled_bound [of n] assms in simp_all)
qed

lemma f32_of_int_pow2:
  assumes "e \<le> 33"
  shows "f32_units (f32_of_int (2 ^ e)) = 2 ^ e * 2 ^ 149"
proof -
  have "(2::int) ^ e \<le> 2 ^ 33" using assms by (rule power_increasing) simp
  then have "\<bar>2 ^ e * 2 ^ 149 :: int\<bar> < 2 ^ 200" by (intro int_scaled_bound) simp
  then show ?thesis
    unfolding f32_of_int_def
    by (intro f32_units_round_exact [where m = 1 and j = "e + 149"])
      (simp_all add: power_add nat_mult_distrib nat_power_eq)
qed

section \<open>Subtraction\<close>

lemma f32_make_0_units:
  shows "f32_units (f32_make neg 0) = 0" and "f32_finite (f32_make neg 0)"
  by (simp_all add: f32_units_def f32_finite_def inf_mag_def mag_units_small f32_make_parts)

lemma f32_finite_round_le:
  assumes "f32_finite a" and "\<bar>u\<bar> \<le> \<bar>f32_units a\<bar>"
  shows "f32_finite (f32_round u)"
proof -
  have "nat \<bar>u\<bar> \<le> mag_units (f32_mag a)" using assms(2) by (auto simp: f32_units_def split: if_splits)
  then have "mag_round (nat \<bar>u\<bar>) \<le> mag_round (mag_units (f32_mag a))" by (rule mag_round_mono)
  also have "\<dots> = f32_mag a" using assms(1) by (simp add: mag_round_units f32_finite_def)
  also have "\<dots> < inf_mag" using assms(1) by (simp add: f32_finite_def)
  finally show ?thesis by (simp add: f32_finite_def f32_round_parts)
qed

text \<open>
  The difference of two ordered non-negative values lies between zero and the larger one,
  whatever is rounded away.
\<close>

lemma f32_sub_range:
  assumes "f32_finite a" and "f32_finite b" and "0 \<le> f32_units b" and "f32_units b \<le> f32_units a"
  shows "f32_finite (f32_sub a b)" and "0 \<le> f32_units (f32_sub a b)"
    and "f32_units (f32_sub a b) \<le> f32_units a"
proof -
  let ?u = "f32_units a - f32_units b"
  have sub: "f32_sub a b = (if ?u = 0 then f32_make (f32_neg a \<and> \<not> f32_neg b) 0 else f32_round ?u)"
    using assms(1,2) by (simp add: f32_sub_def f32_finite_not_nan)
  have "f32_finite (f32_round ?u)" using assms by (intro f32_finite_round_le [of a]) auto
  then show "f32_finite (f32_sub a b)" by (simp add: sub f32_make_0_units)
  have "f32_units (f32_round 0) \<le> f32_units (f32_round ?u)" using assms by (intro f32_units_round_mono) simp
  then show "0 \<le> f32_units (f32_sub a b)"
    by (simp add: sub f32_make_0_units f32_units_round [of 0] mag_round_small mag_units_small)
  have "f32_units (f32_round ?u) \<le> f32_units (f32_round (f32_units a))"
    using assms by (intro f32_units_round_mono) simp
  then show "f32_units (f32_sub a b) \<le> f32_units a"
    using assms by (simp add: sub f32_make_0_units f32_units_round_units)
qed

lemma f32_of_int_eq_units:
  assumes "\<bar>m\<bar> \<le> 2 ^ 24" and "\<bar>n\<bar> \<le> 2 ^ 24"
  shows "f32_units (f32_of_int m) = f32_units (f32_of_int n) \<longleftrightarrow> m = n"
  using assms by (simp add: f32_of_int_exact)

text \<open>On integers of at most 24 bits the subtraction is exact.\<close>

lemma f32_sub_of_int:
  assumes "\<bar>m\<bar> \<le> 2 ^ 24" and "\<bar>n\<bar> \<le> 2 ^ 24"
  shows "f32_sub (f32_of_int m) (f32_of_int n) = f32_of_int (m - n)"
proof -
  have fin: "f32_finite (f32_of_int m)" "f32_finite (f32_of_int n)"
    using assms by (simp_all add: f32_of_int_finite)
  have eq: "f32_units (f32_of_int m) - f32_units (f32_of_int n) = (m - n) * 2 ^ 149"
    using assms by (simp add: f32_of_int_exact left_diff_distrib)
  show ?thesis
  proof (cases "m = n")
    case True
    have "f32_of_int 0 = f32_make False 0" by (simp add: f32_of_int_def f32_round_def mag_round_small)
    with True fin show ?thesis by (simp add: f32_sub_def f32_finite_not_nan)
  next
    case False
    then have "f32_units (f32_of_int m) \<noteq> f32_units (f32_of_int n)"
      using assms by (simp add: f32_of_int_eq_units)
    then show ?thesis using fin eq by (simp add: f32_sub_def f32_finite_not_nan f32_of_int_def)
  qed
qed

section \<open>Conversion to an unsigned integer\<close>

lemma f32_trunc_units: "0 \<le> f32_units w \<Longrightarrow> \<not> f32_neg w \<Longrightarrow> f32_trunc w = f32_units w div 2 ^ 149"
  by (simp add: f32_trunc_def f32_units_def zdiv_int)

lemma f32_to_u32_of_int:
  assumes "0 \<le> n" and "n \<le> 2 ^ 24"
  shows "f32_to_u32 (f32_of_int n) = Some (word_of_int n)"
proof -
  have "f32_trunc (f32_of_int n) = n"
    using assms f32_trunc_units [of "f32_of_int n"] by (simp add: f32_of_int_exact)
  then show ?thesis using assms by (simp add: f32_to_u32_def f32_of_int_finite)
qed

lemma f32_to_u32_of_int_Some:
  assumes "0 \<le> n" and "n < 2 ^ 31"
  shows "\<exists>w. f32_to_u32 (f32_of_int n) = Some w"
proof -
  have nn: "0 \<le> f32_units (f32_of_int n)" using assms(1) by (rule f32_of_int_units_nonneg)
  have "f32_units (f32_of_int n) \<le> 2 ^ 31 * 2 ^ 149"
    using f32_of_int_mono [of n "2 ^ 31"] assms(2) f32_of_int_pow2 [of 31] by simp
  then have "f32_units (f32_of_int n) div 2 ^ 149 \<le> 2 ^ 31 * 2 ^ 149 div 2 ^ 149"
    by (intro zdiv_mono1) simp_all
  then show ?thesis
    using nn assms by (simp add: f32_to_u32_def f32_of_int_finite f32_trunc_units pos_imp_zdiv_nonneg_iff)
qed

text \<open>A negative integer cannot be converted by way of \<^verbatim>\<open>float\<close>.\<close>

lemma f32_to_u32_of_int_neg:
  assumes "n < 0"
  shows "f32_to_u32 (f32_of_int n) = None"
proof -
  let ?g = "mag_units (f32_mag (f32_of_int n))"
  have "f32_units (f32_of_int n) \<le> f32_units (f32_of_int (- 1))"
    using assms by (intro f32_of_int_mono) simp
  also have "\<dots> = - (2 ^ 149)" by (simp add: f32_of_int_exact)
  finally have "- int ?g \<le> - (2 ^ 149)" using assms by (simp add: f32_units_def)
  then have "int (2 ^ 149) \<le> int ?g" by simp
  then have "2 ^ 149 \<le> ?g" by (simp only: of_nat_le_iff)
  then have "1 \<le> ?g div 2 ^ 149" by (simp add: less_eq_div_iff_mult_less_eq)
  then have "f32_trunc (f32_of_int n) < 0" using assms by (simp add: f32_trunc_def Let_def)
  then show ?thesis by (simp add: f32_to_u32_def)
qed

end
