(* ===== verification/OTDIPC_V1.thy ===== *)
theory OTDIPC_V1
  imports Wire_Layout Float32
begin

text \<open>
  The messages of OTD-IPC version 1 (\<^verbatim>\<open>include/OTDIPC/V1/*.hpp\<close>), with the prefix \<open>v1_\<close> on
  their members.  A version 1 header identifies the tablet by a USB vendor and product
  number instead of a tablet id.
\<close>

section \<open>MessageType.hpp and Header.hpp\<close>

datatype V1_MessageType = V1_MT_DeviceInfo | V1_MT_State | V1_MT_Ping

fun v1_to_underlying :: "V1_MessageType \<Rightarrow> u32" where
  "v1_to_underlying V1_MT_DeviceInfo = 1"
| "v1_to_underlying V1_MT_State = 2"
| "v1_to_underlying V1_MT_Ping = 3"

record V1_Header =
  v1_messageType :: u32
  v1_size :: u32
  v1_vid :: u16
  v1_pid :: u16

definition V1_Header_fields :: "'a V1_Header_scheme \<Rightarrow> cfield list" where
  "V1_Header_fields h = [U32 (v1_messageType h), U32 (v1_size h), U16 (v1_vid h), U16 (v1_pid h)]"

section \<open>DeviceInfo.hpp, State.hpp and Ping.hpp\<close>

record V1_DeviceInfo = V1_Header +
  v1_isValid :: bool
  v1_maxX :: f32
  v1_maxY :: f32
  v1_maxPressure :: u32
  v1_name :: wchars

definition V1_NameLength :: nat where
  "V1_NameLength = 64"

definition V1_DeviceInfo_fields :: "V1_DeviceInfo \<Rightarrow> cfield list" where
  "V1_DeviceInfo_fields d = V1_Header_fields d @
     [Boolean (v1_isValid d), U32 (v1_maxX d), U32 (v1_maxY d), U32 (v1_maxPressure d), WCharArray (v1_name d)]"

definition sizeof_V1_DeviceInfo :: nat where
  "sizeof_V1_DeviceInfo = 156"

definition wf_V1_DeviceInfo :: "V1_DeviceInfo \<Rightarrow> bool" where
  "wf_V1_DeviceInfo d \<longleftrightarrow> length (v1_name d) = V1_NameLength"

record V1_State = V1_Header +
  v1_positionValid :: bool
  v1_x :: f32
  v1_y :: f32
  v1_pressureValid :: bool
  v1_pressure :: u32
  v1_penButtonsValid :: bool
  v1_penButtons :: u32
  v1_auxButtonsValid :: bool
  v1_auxButtons :: u32
  v1_proximityValid :: bool
  v1_hoverDistance :: u32
  v1_nearProximity :: bool

definition V1_State_fields :: "V1_State \<Rightarrow> cfield list" where
  "V1_State_fields s = V1_Header_fields s @
     [Boolean (v1_positionValid s), U32 (v1_x s), U32 (v1_y s),
      Boolean (v1_pressureValid s), U32 (v1_pressure s),
      Boolean (v1_penButtonsValid s), U32 (v1_penButtons s),
      Boolean (v1_auxButtonsValid s), U32 (v1_auxButtons s),
      Boolean (v1_proximityValid s), U32 (v1_hoverDistance s), Boolean (v1_nearProximity s)]"

definition sizeof_V1_State :: nat where
  "sizeof_V1_State = 60"

record V1_Ping = V1_Header +
  v1_sequenceNumber :: u64

definition V1_Ping_fields :: "V1_Ping \<Rightarrow> cfield list" where
  "V1_Ping_fields p = V1_Header_fields p @ [U64 (v1_sequenceNumber p)]"

definition sizeof_V1_Ping :: nat where
  "sizeof_V1_Ping = 24"

text \<open>Value-initialised messages: every member is zero.\<close>

definition V1_DeviceInfo_zero :: V1_DeviceInfo where
  "V1_DeviceInfo_zero =
     \<lparr>v1_messageType = 0, v1_size = 0, v1_vid = 0, v1_pid = 0, v1_isValid = False, v1_maxX = 0,
      v1_maxY = 0, v1_maxPressure = 0, v1_name = replicate V1_NameLength 0\<rparr>"

definition V1_State_zero :: V1_State where
  "V1_State_zero =
     \<lparr>v1_messageType = 0, v1_size = 0, v1_vid = 0, v1_pid = 0, v1_positionValid = False, v1_x = 0,
      v1_y = 0, v1_pressureValid = False, v1_pressure = 0, v1_penButtonsValid = False,
      v1_penButtons = 0, v1_auxButtonsValid = False, v1_auxButtons = 0, v1_proximityValid = False,
      v1_hoverDistance = 0, v1_nearProximity = False\<rparr>"

definition V1_Ping_zero :: V1_Ping where
  "V1_Ping_zero = \<lparr>v1_messageType = 0, v1_size = 0, v1_vid = 0, v1_pid = 0, v1_sequenceNumber = 0\<rparr>"

text \<open>What a client that holds the bytes of a message sees.\<close>

definition V1_Header_at :: "bytes \<Rightarrow> V1_Header" where
  "V1_Header_at bs =
     \<lparr>v1_messageType = get_u32 0 bs, v1_size = get_u32 4 bs, v1_vid = get_u16 8 bs, v1_pid = get_u16 10 bs\<rparr>"

definition V1_DeviceInfo_at :: "bytes \<Rightarrow> V1_DeviceInfo" where
  "V1_DeviceInfo_at bs =
     \<lparr>v1_messageType = get_u32 0 bs, v1_size = get_u32 4 bs, v1_vid = get_u16 8 bs, v1_pid = get_u16 10 bs,
      v1_isValid = get_bool 12 bs, v1_maxX = get_u32 16 bs, v1_maxY = get_u32 20 bs,
      v1_maxPressure = get_u32 24 bs, v1_name = get_wchars 28 V1_NameLength bs\<rparr>"

definition V1_State_at :: "bytes \<Rightarrow> V1_State" where
  "V1_State_at bs =
     \<lparr>v1_messageType = get_u32 0 bs, v1_size = get_u32 4 bs, v1_vid = get_u16 8 bs, v1_pid = get_u16 10 bs,
      v1_positionValid = get_bool 12 bs, v1_x = get_u32 16 bs, v1_y = get_u32 20 bs,
      v1_pressureValid = get_bool 24 bs, v1_pressure = get_u32 28 bs,
      v1_penButtonsValid = get_bool 32 bs, v1_penButtons = get_u32 36 bs,
      v1_auxButtonsValid = get_bool 40 bs, v1_auxButtons = get_u32 44 bs,
      v1_proximityValid = get_bool 48 bs, v1_hoverDistance = get_u32 52 bs,
      v1_nearProximity = get_bool 56 bs\<rparr>"

definition V1_Ping_at :: "bytes \<Rightarrow> V1_Ping" where
  "V1_Ping_at bs =
     \<lparr>v1_messageType = get_u32 0 bs, v1_size = get_u32 4 bs, v1_vid = get_u16 8 bs, v1_pid = get_u16 10 bs,
      v1_sequenceNumber = get_u64 16 bs\<rparr>"

section \<open>Sizes and round trips\<close>

lemmas v1_field_defs =
  V1_Header_fields_def V1_DeviceInfo_fields_def V1_State_fields_def V1_Ping_fields_def
lemmas v1_sizeof_consts = sizeof_V1_DeviceInfo_def sizeof_V1_State_def sizeof_V1_Ping_def
lemmas v1_layout_eval = sizeof_def struct_align_def align_up_def Let_def

lemma sizeof_V1_DeviceInfo_fields [layout_simps]:
  "wf_V1_DeviceInfo d \<Longrightarrow> sizeof (V1_DeviceInfo_fields d) = sizeof_V1_DeviceInfo"
  by (simp add: v1_field_defs v1_sizeof_consts v1_layout_eval wf_V1_DeviceInfo_def V1_NameLength_def)

lemma sizeof_V1_State_fields [layout_simps]: "sizeof (V1_State_fields s) = sizeof_V1_State"
  by (simp add: v1_field_defs v1_sizeof_consts v1_layout_eval)

lemma sizeof_V1_Ping_fields [layout_simps]: "sizeof (V1_Ping_fields p) = sizeof_V1_Ping"
  by (simp add: v1_field_defs v1_sizeof_consts v1_layout_eval)

lemma V1_State_at_bytes: "V1_State_at (struct_bytes pad (V1_State_fields s) @ rest) = s"
  unfolding V1_State_at_def v1_field_defs
  by (rule V1_State.equality) (simp_all, (rule get_at, simp add: v1_layout_eval)+)

lemma V1_Ping_at_bytes: "V1_Ping_at (struct_bytes pad (V1_Ping_fields p) @ rest) = p"
  unfolding V1_Ping_at_def v1_field_defs
  by (rule V1_Ping.equality) (simp_all, (rule get_at, simp add: v1_layout_eval)+)

lemma V1_DeviceInfo_at_bytes:
  assumes "wf_V1_DeviceInfo d"
  shows "V1_DeviceInfo_at (struct_bytes pad (V1_DeviceInfo_fields d) @ rest) = d"
  using assms unfolding V1_DeviceInfo_at_def v1_field_defs wf_V1_DeviceInfo_def
  by (intro V1_DeviceInfo.equality)
    (simp_all, (rule get_at, simp_all add: v1_layout_eval V1_NameLength_def)+)

lemma V1_Header_at_append:
  "V1_Header_at (struct_bytes pad (V1_Header_fields h @ gs) @ rest) = V1_Header.truncate h"
  unfolding V1_Header_at_def V1_Header.truncate_def V1_Header_fields_def
  by (rule V1_Header.equality) (simp_all, (rule get_at, simp add: v1_layout_eval)+)

lemma wf_V1_DeviceInfo_zero [simp]: "wf_V1_DeviceInfo V1_DeviceInfo_zero"
  by (simp add: wf_V1_DeviceInfo_def V1_DeviceInfo_zero_def)

end
