(* ===== verification/OTDIPC_V2.thy ===== *)
theory OTDIPC_V2
  imports Wire_Layout Float32
begin

text \<open>
  The messages of OTD-IPC version 2 (\<^verbatim>\<open>include/OTDIPC/*.hpp\<close>): their members, the
  operations the headers define on them, and their object representation.

  A struct derived from \<^verbatim>\<open>Header\<close> is a record that extends the record \<open>Header\<close>.  The
  members \<^verbatim>\<open>x\<close>, \<^verbatim>\<open>y\<close>, \<^verbatim>\<open>name\<close> and \<^verbatim>\<open>size\<close> are called \<open>pos_x\<close>, \<open>pos_y\<close>, \<open>device_name\<close> and
  \<open>msg_size\<close>.  A \<^verbatim>\<open>char[N]\<close> member is a byte list, of length \<open>N\<close> in a well-formed message.
  An \<^verbatim>\<open>enum class\<close> with a fixed underlying type can hold any value of that type, so
  members of such a type are words.
\<close>

section \<open>MessageType.hpp and Header.hpp\<close>

datatype MessageType =
    MT_DeviceInfo
  | MT_State
  | MT_Ping
  | MT_DebugMessage
  | MT_Experimental
  | MT_Hello

fun to_underlying :: "MessageType \<Rightarrow> u32" where
  "to_underlying MT_DeviceInfo = 1"
| "to_underlying MT_State = 2"
| "to_underlying MT_Ping = 3"
| "to_underlying MT_DebugMessage = 4"
| "to_underlying MT_Experimental = 5"
| "to_underlying MT_Hello = 6"

record Header =
  messageType :: u32
  msg_size :: u32
  nonPersistentTabletId :: u32

definition Header_fields :: "'a Header_scheme \<Rightarrow> cfield list" where
  "Header_fields h = [U32 (messageType h), U32 (msg_size h), U32 (nonPersistentTabletId h)]"

definition sizeof_Header :: nat where
  "sizeof_Header = 12"

text \<open>\<^verbatim>\<open>reinterpret_cast<Header*>\<close> of a buffer.\<close>

definition Header_at :: "bytes \<Rightarrow> Header" where
  "Header_at bs = \<lparr>messageType = get_u32 0 bs, msg_size = get_u32 4 bs, nonPersistentTabletId = get_u32 8 bs\<rparr>"

section \<open>DeviceInfo.hpp\<close>

definition PersistentIdMaxLength :: nat where
  "PersistentIdMaxLength = 256"

definition NameMaxLength :: nat where
  "NameMaxLength = 256"

record DeviceInfo = Header +
  maxX :: f32
  maxY :: f32
  maxPressure :: u32
  persistentId :: bytes
  device_name :: bytes

definition DeviceInfo_fields :: "DeviceInfo \<Rightarrow> cfield list" where
  "DeviceInfo_fields d = Header_fields d @
     [U32 (maxX d), U32 (maxY d), U32 (maxPressure d), CharArray (persistentId d), CharArray (device_name d)]"

definition sizeof_DeviceInfo :: nat where
  "sizeof_DeviceInfo = 536"

text \<open>The default constructor.\<close>

definition DeviceInfo_init :: DeviceInfo where
  "DeviceInfo_init =
     \<lparr>messageType = to_underlying MT_DeviceInfo, msg_size = word_of_nat sizeof_DeviceInfo,
      nonPersistentTabletId = 0, maxX = 0, maxY = 0, maxPressure = 0,
      persistentId = replicate PersistentIdMaxLength 0, device_name = replicate NameMaxLength 0\<rparr>"

definition GetName :: "DeviceInfo \<Rightarrow> bytes" where
  "GetName d = until_nul (device_name d)"

definition GetPersistentId :: "DeviceInfo \<Rightarrow> bytes" where
  "GetPersistentId d = until_nul (persistentId d)"

definition DeviceInfo_at :: "bytes \<Rightarrow> DeviceInfo" where
  "DeviceInfo_at bs =
     \<lparr>messageType = get_u32 0 bs, msg_size = get_u32 4 bs, nonPersistentTabletId = get_u32 8 bs,
      maxX = get_u32 12 bs, maxY = get_u32 16 bs, maxPressure = get_u32 20 bs,
      persistentId = get_chars 24 PersistentIdMaxLength bs, device_name = get_chars 280 NameMaxLength bs\<rparr>"

definition wf_DeviceInfo :: "DeviceInfo \<Rightarrow> bool" where
  "wf_DeviceInfo d \<longleftrightarrow>
     length (persistentId d) = PersistentIdMaxLength \<and> length (device_name d) = NameMaxLength"

section \<open>State.hpp\<close>

type_synonym ValidMask = u32

definition VM_None :: ValidMask where "VM_None = 0"

definition VM_PositionX :: ValidMask where "VM_PositionX = push_bit 0 1"

definition VM_PositionY :: ValidMask where "VM_PositionY = push_bit 1 1"

definition VM_Pressure :: ValidMask where "VM_Pressure = push_bit 2 1"

definition VM_PenButtons :: ValidMask where "VM_PenButtons = push_bit 3 1"

definition VM_AuxButtons :: ValidMask where "VM_AuxButtons = push_bit 4 1"

definition VM_PenIsNearSurface :: ValidMask where "VM_PenIsNearSurface = push_bit 5 1"

definition VM_HoverDistance :: ValidMask where "VM_HoverDistance = push_bit 6 1"

definition VM_Position :: ValidMask where "VM_Position = VM_PositionX OR VM_PositionY"

record State = Header +
  validBits :: ValidMask
  pos_x :: f32
  pos_y :: f32
  pressure :: u32
  penButtons :: u32
  auxButtons :: u32
  hoverDistance :: u32
  penIsNearSurface :: bool

definition State_fields :: "State \<Rightarrow> cfield list" where
  "State_fields s = Header_fields s @
     [U32 (validBits s), U32 (pos_x s), U32 (pos_y s), U32 (pressure s), U32 (penButtons s),
      U32 (auxButtons s), U32 (hoverDistance s), Boolean (penIsNearSurface s)]"

definition sizeof_State :: nat where
  "sizeof_State = 44"

definition State_init :: State where
  "State_init =
     \<lparr>messageType = to_underlying MT_State, msg_size = word_of_nat sizeof_State, nonPersistentTabletId = 0,
      validBits = 0, pos_x = 0, pos_y = 0, pressure = 0, penButtons = 0, auxButtons = 0,
      hoverDistance = 0, penIsNearSurface = False\<rparr>"

definition HasData :: "State \<Rightarrow> ValidMask \<Rightarrow> bool" where
  "HasData s m = (m AND validBits s = m)"

definition vm_or :: "ValidMask \<Rightarrow> ValidMask \<Rightarrow> ValidMask" where
  "vm_or lhs rhs = lhs OR rhs"

definition vm_or_assign :: "ValidMask \<Rightarrow> ValidMask \<Rightarrow> ValidMask" where
  "vm_or_assign lhs rhs = vm_or lhs rhs"

definition vm_and :: "ValidMask \<Rightarrow> ValidMask \<Rightarrow> ValidMask" where
  "vm_and lhs rhs = lhs AND rhs"

definition vm_not :: "ValidMask \<Rightarrow> ValidMask" where
  "vm_not m = NOT m"

definition State_at :: "bytes \<Rightarrow> State" where
  "State_at bs =
     \<lparr>messageType = get_u32 0 bs, msg_size = get_u32 4 bs, nonPersistentTabletId = get_u32 8 bs,
      validBits = get_u32 12 bs, pos_x = get_u32 16 bs, pos_y = get_u32 20 bs,
      pressure = get_u32 24 bs, penButtons = get_u32 28 bs, auxButtons = get_u32 32 bs,
      hoverDistance = get_u32 36 bs, penIsNearSurface = get_bool 40 bs\<rparr>"

section \<open>Ping.hpp, Hello.hpp and DebugMessage.hpp\<close>

record Ping = Header +
  sequenceNumber :: u64

definition Ping_fields :: "Ping \<Rightarrow> cfield list" where
  "Ping_fields p = Header_fields p @ [U64 (sequenceNumber p)]"

definition sizeof_Ping :: nat where
  "sizeof_Ping = 24"

definition Ping_at :: "bytes \<Rightarrow> Ping" where
  "Ping_at bs =
     \<lparr>messageType = get_u32 0 bs, msg_size = get_u32 4 bs, nonPersistentTabletId = get_u32 8 bs,
      sequenceNumber = get_u64 16 bs\<rparr>"

record Hello =
  hello_header :: Header
  protocolVersion :: u64
  humanReadableName :: bytes
  humanReadableVersion :: bytes
  implementationID :: bytes
  compatibilityVersion :: "8 word"

definition Hello_fields :: "Hello \<Rightarrow> cfield list" where
  "Hello_fields h = Header_fields (hello_header h) @
     [U64 (protocolVersion h), CharArray (humanReadableName h), CharArray (humanReadableVersion h),
      CharArray (implementationID h), U8 (compatibilityVersion h)]"

definition sizeof_Hello :: nat where
  "sizeof_Hello = 800"

text \<open>The member initialisers.\<close>

definition Hello_init :: Hello where
  "Hello_init =
     \<lparr>hello_header = \<lparr>messageType = to_underlying MT_Hello, msg_size = word_of_nat sizeof_Hello,
                     nonPersistentTabletId = 0\<rparr>,
      protocolVersion = 0, humanReadableName = replicate 256 0,
      humanReadableVersion = replicate 256 0, implementationID = replicate 256 0,
      compatibilityVersion = 0\<rparr>"

definition Hello_at :: "bytes \<Rightarrow> Hello" where
  "Hello_at bs =
     \<lparr>hello_header = Header_at bs, protocolVersion = get_u64 16 bs,
      humanReadableName = get_chars 24 256 bs, humanReadableVersion = get_chars 280 256 bs,
      implementationID = get_chars 536 256 bs, compatibilityVersion = get_u8 792 bs\<rparr>"

definition wf_Hello :: "Hello \<Rightarrow> bool" where
  "wf_Hello h \<longleftrightarrow> length (humanReadableName h) = 256 \<and> length (humanReadableVersion h) = 256
     \<and> length (implementationID h) = 256"

text \<open>
  A debug message is a header followed by the text; \<^verbatim>\<open>message()\<close> is a view of the
  \<^verbatim>\<open>size - sizeof(Header)\<close> bytes from member \<^verbatim>\<open>data\<close> on, which is at offset 12.  The
  difference is computed in \<^verbatim>\<open>size_t\<close>, of \<open>ab\<close> bits.
\<close>

definition size_t_sub :: "nat \<Rightarrow> nat \<Rightarrow> nat \<Rightarrow> nat" where
  "size_t_sub ab a b = (if b \<le> a then a - b else 2 ^ ab - (b - a))"

definition DebugMessage_bytes :: "Header \<Rightarrow> bytes \<Rightarrow> bytes" where
  "DebugMessage_bytes h msg = concat (map fbytes (Header_fields h)) @ msg"

definition DebugMessage_message :: "nat \<Rightarrow> bytes \<Rightarrow> bytes" where
  "DebugMessage_message ab bs =
     mem_slice 12 (size_t_sub ab (unat (msg_size (Header_at bs))) sizeof_Header) bs"

section \<open>Sizes\<close>

text \<open>The constants are what the layout rules give.\<close>

lemmas field_defs =
  Header_fields_def DeviceInfo_fields_def State_fields_def Ping_fields_def Hello_fields_def
lemmas sizeof_consts =
  sizeof_Header_def sizeof_DeviceInfo_def sizeof_State_def sizeof_Ping_def sizeof_Hello_def
lemmas length_consts = PersistentIdMaxLength_def NameMaxLength_def
lemmas layout_eval = sizeof_def struct_align_def align_up_def Let_def

lemma sizeof_Header_fields [layout_simps]: "sizeof (Header_fields h) = sizeof_Header"
  by (simp add: field_defs sizeof_consts layout_eval)

lemma sizeof_DeviceInfo_fields [layout_simps]:
  "wf_DeviceInfo d \<Longrightarrow> sizeof (DeviceInfo_fields d) = sizeof_DeviceInfo"
  by (simp add: field_defs sizeof_consts layout_eval wf_DeviceInfo_def length_consts)

lemma sizeof_State_fields [layout_simps]: "sizeof (State_fields s) = sizeof_State"
  by (simp add: field_defs sizeof_consts layout_eval)

lemma sizeof_Ping_fields [layout_simps]: "sizeof (Ping_fields p) = sizeof_Ping"
  by (simp add: field_defs sizeof_consts layout_eval)

lemma sizeof_Hello_fields [layout_simps]: "wf_Hello h \<Longrightarrow> sizeof (Hello_fields h) = sizeof_Hello"
  by (simp add: field_defs sizeof_consts layout_eval wf_Hello_def)

section \<open>Reading a message back\<close>

lemma Header_at_append:
  "Header_at (struct_bytes pad (Header_fields h @ gs) @ rest) = Header.truncate h"
  unfolding Header_at_def Header.truncate_def Header_fields_def
  by (rule Header.equality) (simp_all, (rule get_at, simp add: layout_eval)+)

lemma State_at_bytes:
  "State_at (struct_bytes pad (State_fields s) @ rest) = s"
  unfolding State_at_def field_defs
  by (rule State.equality) (simp_all, (rule get_at, simp add: layout_eval)+)

lemma Ping_at_bytes:
  "Ping_at (struct_bytes pad (Ping_fields p) @ rest) = p"
  unfolding Ping_at_def field_defs
  by (rule Ping.equality) (simp_all, (rule get_at, simp add: layout_eval)+)

lemma DeviceInfo_at_bytes:
  assumes "wf_DeviceInfo d"
  shows "DeviceInfo_at (struct_bytes pad (DeviceInfo_fields d) @ rest) = d"
  using assms unfolding DeviceInfo_at_def field_defs wf_DeviceInfo_def
  by (intro DeviceInfo.equality) (simp_all, (rule get_at, simp_all add: layout_eval length_consts)+)

lemma Hello_at_bytes:
  assumes "wf_Hello h"
  shows "Hello_at (struct_bytes pad (Hello_fields h) @ rest) = h"
  using assms unfolding Hello_at_def wf_Hello_def Hello_fields_def
  by (intro Hello.equality)
    (simp_all add: Header_at_append Header.truncate_def,
      (rule get_at, simp_all add: layout_eval Header_fields_def)+)

lemma struct_bytes_Header:
  "struct_bytes pad (Header_fields h) = concat (map fbytes (Header_fields h))"
  by (simp add: struct_bytes_def field_defs layout_eval)

lemma DebugMessage_roundtrip:
  assumes "unat (msg_size h) = sizeof_Header + length msg"
  shows "DebugMessage_message ab (DebugMessage_bytes h msg @ rest) = msg"
    and "Header_at (DebugMessage_bytes h msg @ rest) = h"
proof -
  have bytes: "DebugMessage_bytes h msg = struct_bytes (\<lambda>_. 0) (Header_fields h) @ msg"
    by (simp only: DebugMessage_bytes_def struct_bytes_Header)
  show hd: "Header_at (DebugMessage_bytes h msg @ rest) = h"
    using Header_at_append [of "\<lambda>_. 0" h "[]" "msg @ rest"]
    by (simp add: bytes Header.truncate_def)
  have "length (struct_bytes (\<lambda>_. 0) (Header_fields h)) = 12"
    by (simp add: layout_simps sizeof_consts)
  then have "mem_slice 12 (length msg) (DebugMessage_bytes h msg @ rest) = msg"
    by (simp add: bytes mem_slice_def)
  then show "DebugMessage_message ab (DebugMessage_bytes h msg @ rest) = msg"
    using assms by (simp add: DebugMessage_message_def hd size_t_sub_def)
qed

section \<open>Valid bits\<close>

lemma to_underlying_inj: "to_underlying a = to_underlying b \<longleftrightarrow> a = b"
  by (cases a; cases b) simp_all

lemmas VM_defs =
  VM_None_def VM_PositionX_def VM_PositionY_def VM_Pressure_def VM_PenButtons_def VM_AuxButtons_def
  VM_PenIsNearSurface_def VM_HoverDistance_def VM_Position_def

lemma HasData_or:
  "HasData s (vm_or a b) \<longleftrightarrow> HasData s a \<and> HasData s b"
  unfolding HasData_def vm_or_def
  by (auto simp: bit_eq_iff bit_simps)

lemma HasData_or_assign:
  "HasData (s\<lparr>validBits := vm_or_assign (validBits s) m\<rparr>) n \<longleftrightarrow> n AND NOT m AND validBits s = n AND NOT m"
  unfolding HasData_def vm_or_assign_def vm_or_def
  by (auto simp: bit_eq_iff bit_simps)

lemma HasData_bits: "HasData st m \<longleftrightarrow> (\<forall>k. bit m k \<longrightarrow> bit (validBits st) k)"
  using bit_imp_le_length [of m] by (auto simp: HasData_def bit_eq_iff bit_and_iff)

end
