(* ===== verification/Handler.thy ===== *)
theory Handler
  imports OTDIPC_V2
begin

text \<open>
  The interface between the tablet and the servers (\<^verbatim>\<open>src/IHandler.hpp\<close>).  An object of a
  class derived from \<^verbatim>\<open>IHandler\<close> is a pair of operations on the state \<open>'h\<close> its methods
  read and write.

  The contract is what the tablet relies on: from a state that satisfies the handler's
  invariant, \<^verbatim>\<open>SetDevice\<close> with a well-formed device succeeds and makes the handler ready,
  and \<^verbatim>\<open>SetState\<close> succeeds once it is ready.
\<close>

record 'h IHandler =
  SetDevice :: "DeviceInfo \<Rightarrow> 'h \<Rightarrow> unit result \<times> 'h"
  SetState :: "State \<Rightarrow> 'h \<Rightarrow> unit result \<times> 'h"

text \<open>Calls of a client, one after the other, stopping at the first fault.\<close>

datatype handler_call = Call_SetDevice DeviceInfo | Call_SetState State

fun call_handler :: "'h IHandler \<Rightarrow> handler_call \<Rightarrow> 'h \<Rightarrow> unit result \<times> 'h" where
  "call_handler H (Call_SetDevice d) h = SetDevice H d h"
| "call_handler H (Call_SetState s) h = SetState H s h"

fun call_all :: "'h IHandler \<Rightarrow> handler_call list \<Rightarrow> 'h \<Rightarrow> unit result \<times> 'h" where
  "call_all H [] h = (Inr (), h)"
| "call_all H (c # cs) h =
     (case call_handler H c h of
        (Inl f, h') \<Rightarrow> (Inl f, h')
      | (Inr _, h') \<Rightarrow> call_all H cs h')"

fun wf_call :: "handler_call \<Rightarrow> bool" where
  "wf_call (Call_SetDevice d) = wf_DeviceInfo d"
| "wf_call (Call_SetState s) = True"

locale handler_contract =
  fixes H :: "'h IHandler"
    and invar :: "'h \<Rightarrow> bool"
    and ready :: "'h \<Rightarrow> bool"
  assumes device_ok: "invar h \<Longrightarrow> wf_DeviceInfo d \<Longrightarrow>
      fst (SetDevice H d h) = Inr () \<and> invar (snd (SetDevice H d h)) \<and> ready (snd (SetDevice H d h))"
    and state_ok: "invar h \<Longrightarrow> ready h \<Longrightarrow>
      fst (SetState H s h) = Inr () \<and> invar (snd (SetState H s h)) \<and> ready (snd (SetState H s h))"
begin

lemma call_ok:
  assumes "invar h" and "ready h" and "wf_call c"
  shows "\<exists>h'. call_handler H c h = (Inr (), h') \<and> invar h' \<and> ready h'"
  using assms device_ok [of h] state_ok [of h]
  by (cases c) (metis call_handler.simps wf_call.simps prod.collapse)+

lemma ready_calls_ok:
  assumes "invar h" and "ready h" and "list_all wf_call cs"
  shows "\<exists>h'. call_all H cs h = (Inr (), h') \<and> invar h' \<and> ready h'"
  using assms
proof (induction cs arbitrary: h)
  case Nil
  then show ?case by simp
next
  case (Cons c cs)
  then obtain h1 where "call_handler H c h = (Inr (), h1)" "invar h1" "ready h1"
    using call_ok by fastforce
  with Cons show ?case by simp
qed

text \<open>A client that announces a device before anything else never sees a fault.\<close>

lemma session_ok:
  assumes "invar h" and "wf_DeviceInfo d" and "list_all wf_call cs"
  shows "\<exists>h'. call_all H (Call_SetDevice d # cs) h = (Inr (), h') \<and> invar h' \<and> ready h'"
proof -
  obtain h1 where "SetDevice H d h = (Inr (), h1)" "invar h1" "ready h1"
    using device_ok [OF assms(1,2)] by (metis prod.collapse)
  then show ?thesis using ready_calls_ok [OF _ _ assms(3), of h1] by simp
qed

end

end
