(* ===== verification/Transport.thy ===== *)
theory Transport
  imports Adapter_Prelude
begin

text \<open>
  What both servers' \<^verbatim>\<open>SendRaw\<close> promise, as an interface: a frame whose header gives
  another size than the bytes handed over is refused with an exception; without a client
  nothing happens; otherwise exactly these bytes go to the client in one call, and if the
  transport reports a failure the client is dropped.

  The client of the interface is any code that sends several frames in a row.
\<close>

text \<open>The two threads of a server, each with a stop token of its own.\<close>

datatype server_thread = Accept_thread | Ping_thread

type_synonym 's sender = "u32 \<Rightarrow> bytes \<Rightarrow> 's \<Rightarrow> bool result \<times> 's"

text \<open>Sending frames one after the other, ignoring the results as the servers do.\<close>

fun send_all :: "'s sender \<Rightarrow> (u32 \<times> bytes) list \<Rightarrow> 's \<Rightarrow> unit result \<times> 's" where
  "send_all send [] s = (Inr (), s)"
| "send_all send ((h, d) # fs) s =
     (case send h d s of
        (Inl f, s') \<Rightarrow> (Inl f, s')
      | (Inr _, s') \<Rightarrow> send_all send fs s')"

definition frame_sized :: "u32 \<times> bytes \<Rightarrow> bool" where
  "frame_sized f \<longleftrightarrow> unat (fst f) = length (snd f)"

locale frame_sender =
  fixes send :: "'s sender"
    and peer :: "'s \<Rightarrow> nat option"
    and frames :: "'s \<Rightarrow> (nat \<times> bytes) list"
  assumes mismatch: "unat h \<noteq> length d \<Longrightarrow>
      \<exists>e. send h d s = (Inl (Throw e), s) \<and> is_std_exception e"
    and no_peer: "unat h = length d \<Longrightarrow> peer s = None \<Longrightarrow> send h d s = (Inr False, s)"
    and one_frame: "unat h = length d \<Longrightarrow> peer s = Some p \<Longrightarrow>
      \<exists>b s'. send h d s = (Inr b, s') \<and> frames s' = frames s @ [(p, d)] \<and>
        (peer s' = Some p \<or> peer s' = None \<and> \<not> b)"
begin

lemma send_no_fault:
  assumes "unat h = length d"
  shows "\<exists>b s'. send h d s = (Inr b, s')"
  using assms no_peer [of h d s] one_frame [of h d s] by (cases "peer s") auto

lemma send_all_no_peer:
  assumes "list_all frame_sized fs" and "peer s = None"
  shows "send_all send fs s = (Inr (), s)"
  using assms
  by (induction fs) (auto simp: frame_sized_def no_peer)

text \<open>
  The frames that reach the client are an initial part of the frames sent, in order and
  whole; all of them if the client is still there at the end.
\<close>

lemma send_all_prefix:
  assumes "list_all frame_sized fs" and "peer s = Some p"
  shows "\<exists>k s'. send_all send fs s = (Inr (), s') \<and>
    frames s' = frames s @ map (\<lambda>(h, d). (p, d)) (take k fs) \<and>
    (peer s' = Some p \<and> length fs \<le> k \<or> peer s' = None)"
  using assms
proof (induction fs arbitrary: s)
  case Nil
  then show ?case by (intro exI [of _ 0] exI [of _ s]) simp
next
  case (Cons f fs)
  obtain h d where f: "f = (h, d)" by (cases f)
  with Cons.prems have sz: "unat h = length d" by (simp add: frame_sized_def)
  obtain b s1 where s1: "send h d s = (Inr b, s1)" "frames s1 = frames s @ [(p, d)]"
    "peer s1 = Some p \<or> peer s1 = None \<and> \<not> b"
    using one_frame [OF sz Cons.prems(2)] by blast
  show ?case
  proof (cases "peer s1 = Some p")
    case True
    obtain k s2 where "send_all send fs s1 = (Inr (), s2)"
      "frames s2 = frames s1 @ map (\<lambda>(h, d). (p, d)) (take k fs)"
      "peer s2 = Some p \<and> length fs \<le> k \<or> peer s2 = None"
      using Cons.IH [OF _ True] Cons.prems(1) by auto
    then show ?thesis
      using s1(1,2) f by (intro exI [of _ "Suc k"] exI [of _ s2]) auto
  next
    case False
    with s1 have "peer s1 = None" by simp
    then have "send_all send fs s1 = (Inr (), s1)"
      using Cons.prems(1) by (intro send_all_no_peer) simp_all
    then show ?thesis
      using s1(1,2) f \<open>peer s1 = None\<close> by (intro exI [of _ "Suc 0"] exI [of _ s1]) simp
  qed
qed

end

end
