(* ===== verification/Utf8.thy ===== *)
theory Utf8
  imports Adapter_Prelude
begin

text \<open>
  String conversion (\<^verbatim>\<open>src/utf8.cpp\<close>).  The two Win32 functions are parameters: given the
  source text, its length argument and the room in the destination, they return a count
  and the units they store.  With no room they only return the count they would need.
  \<^verbatim>\<open>resize_and_overwrite\<close> keeps as many units of the buffer as the operation returns.
\<close>

type_synonym multi_to_wide = "bytes \<Rightarrow> u32 \<Rightarrow> nat \<Rightarrow> nat \<times> wchars"
type_synonym wide_to_multi = "wchars \<Rightarrow> u32 \<Rightarrow> nat \<Rightarrow> nat \<times> bytes"

definition resize_and_overwrite :: "nat \<Rightarrow> (nat \<Rightarrow> nat \<times> 'a list) \<Rightarrow> 'a list" where
  "resize_and_overwrite n convert = (let (r, buffer) = convert n in take r buffer)"

definition to_utf8 :: "wide_to_multi \<Rightarrow> wchars \<Rightarrow> bytes" where
  "to_utf8 WideCharToMultiByte w =
     (if w = [] then []
      else
        let convert = WideCharToMultiByte w (word_of_nat (length w));
            n = fst (convert 0)
        in resize_and_overwrite n convert)"

definition from_utf8 :: "multi_to_wide \<Rightarrow> bytes \<Rightarrow> wchars" where
  "from_utf8 MultiByteToWideChar utf8 =
     (if utf8 = [] then []
      else
        let convert = MultiByteToWideChar utf8 (word_of_nat (length utf8));
            n = fst (convert 0)
        in resize_and_overwrite n convert)"

text \<open>
  The documented behaviour of either function with an error flag
  (\<^verbatim>\<open>MB_ERR_INVALID_CHARS\<close>, \<^verbatim>\<open>WC_ERR_INVALID_CHARS\<close>), for the code page's conversion \<open>conv\<close>:
  invalid input gives a count of zero; valid input gives the needed count when there is
  no room, and is stored when the room suffices.
\<close>

definition two_phase :: "('a list \<Rightarrow> 'b list option) \<Rightarrow> ('a list \<Rightarrow> u32 \<Rightarrow> nat \<Rightarrow> nat \<times> 'b list) \<Rightarrow> bool" where
  "two_phase conv api \<longleftrightarrow>
     (\<forall>text. text \<noteq> [] \<and> length text < 2 ^ 31 \<longrightarrow>
       (case conv text of
          None \<Rightarrow> \<forall>room. fst (api text (word_of_nat (length text)) room) = 0
        | Some out \<Rightarrow> fst (api text (word_of_nat (length text)) 0) = length out \<and>
            (\<forall>room. 0 < room \<and> length out \<le> room \<longrightarrow>
               api text (word_of_nat (length text)) room = (length out, out))))"

text \<open>A conversion of the ASCII range with this behaviour, as an example of the parameter.\<close>

definition ascii_decode :: "bytes \<Rightarrow> wchars option" where
  "ascii_decode text = (if list_all (\<lambda>b. b < 128) text then Some (map ucast text) else None)"

definition ascii_multi_to_wide :: multi_to_wide where
  "ascii_multi_to_wide text cb room =
     (case ascii_decode text of
        None \<Rightarrow> (0, [])
      | Some out \<Rightarrow> if room = 0 then (length out, [])
                    else if length out \<le> room then (length out, out) else (0, []))"

definition ascii_encode :: "wchars \<Rightarrow> bytes option" where
  "ascii_encode text = (if list_all (\<lambda>c. c < 128) text then Some (map ucast text) else None)"

definition ascii_wide_to_multi :: wide_to_multi where
  "ascii_wide_to_multi text cch room =
     (case ascii_encode text of
        None \<Rightarrow> (0, [])
      | Some out \<Rightarrow> if room = 0 then (length out, [])
                    else if length out \<le> room then (length out, out) else (0, []))"

section \<open>Lemmas\<close>

lemma two_phaseD:
  assumes "two_phase conv api" and "text \<noteq> []" and "length text < 2 ^ 31"
  shows "resize_and_overwrite (fst (api text (word_of_nat (length text)) 0)) (api text (word_of_nat (length text)))
     = (case conv text of None \<Rightarrow> [] | Some out \<Rightarrow> out)"
proof (cases "conv text")
  case None
  then have "fst (api text (word_of_nat (length text)) room) = 0" for room
    using assms by (fastforce simp: two_phase_def)
  then show ?thesis using None by (simp add: resize_and_overwrite_def split_beta)
next
  case (Some out)
  then have n: "fst (api text (word_of_nat (length text)) 0) = length out"
    and st: "0 < room \<Longrightarrow> length out \<le> room \<Longrightarrow> api text (word_of_nat (length text)) room = (length out, out)" for room
    using assms by (fastforce simp: two_phase_def)+
  show ?thesis
    using Some n st [of "length out"] by (cases "out = []") (simp_all add: resize_and_overwrite_def split_beta)
qed

lemma from_utf8_two_phase:
  assumes "two_phase dec api" and "length utf8 < 2 ^ 31"
  shows "from_utf8 api utf8 = (if utf8 = [] then [] else case dec utf8 of None \<Rightarrow> [] | Some w \<Rightarrow> w)"
  using two_phaseD [OF assms(1) _ assms(2)] by (simp add: from_utf8_def Let_def)

lemma to_utf8_two_phase:
  assumes "two_phase enc api" and "length w < 2 ^ 31"
  shows "to_utf8 api w = (if w = [] then [] else case enc w of None \<Rightarrow> [] | Some s \<Rightarrow> s)"
  using two_phaseD [OF assms(1) _ assms(2)] by (simp add: to_utf8_def Let_def)

lemma ascii_two_phase: "two_phase ascii_decode ascii_multi_to_wide"
  by (auto simp: two_phase_def ascii_multi_to_wide_def split: option.splits)

lemma ascii_two_phase_wide: "two_phase ascii_encode ascii_wide_to_multi"
  by (auto simp: two_phase_def ascii_wide_to_multi_def split: option.splits)

end
