(* ===== verification/V1Server.thy ===== *)
theory V1Server
  imports OTDIPC_V1 Handler Transport Utf8
begin

text \<open>
  The OTD-IPC version 1 server (\<^verbatim>\<open>src/V1Server.cpp\<close>, \<^verbatim>\<open>src/V1Server.hpp\<close>): it forwards the
  tablet's device and state to one client of a named pipe, translated to version 1
  messages.

  The Win32 functions it calls, the passing of time and the stop tokens belong to a world
  of type \<open>'w\<close>; \<open>v1_api\<close> collects them as parameters.  A call that blocks returns \<open>None\<close>
  for as long as it does.  The server's members are the
  record \<open>V1Server\<close>; its last field is a ghost that lists the \<^verbatim>\<open>WriteFile\<close> calls, the
  only way the server has of telling its client anything.

  The accept thread is a step function on a program counter, cut at the calls where it
  blocks or sleeps; \<open>V1_step\<close> interleaves it with the ping thread, with the calls of the
  main thread and with arbitrary changes of the world.
\<close>

section \<open>Parameters: the operating system\<close>

datatype pipe_flag =
    PIPE_ACCESS_DUPLEX
  | FILE_FLAG_FIRST_PIPE_INSTANCE
  | PIPE_TYPE_MESSAGE
  | PIPE_READMODE_MESSAGE
  | PIPE_WAIT
  | PIPE_REJECT_REMOTE_CLIENTS

datatype win_error = ERROR_ACCESS_DENIED | ERROR_PIPE_BUSY | ERROR_PIPE_CONNECTED | Other_error int

record 'w v1_api =
  CreateNamedPipeW :: "wchars \<Rightarrow> pipe_flag list \<Rightarrow> pipe_flag list \<Rightarrow> nat \<Rightarrow> nat \<Rightarrow> nat \<Rightarrow> nat
    \<Rightarrow> 'w \<Rightarrow> HANDLE option \<times> 'w"
  ConnectNamedPipe :: "HANDLE \<Rightarrow> 'w \<Rightarrow> (bool \<times> 'w) option"
  PeekNamedPipe :: "HANDLE option \<Rightarrow> 'w \<Rightarrow> bool \<times> 'w"
  WriteFile :: "HANDLE \<Rightarrow> bytes \<Rightarrow> 'w \<Rightarrow> (bool \<times> nat) \<times> 'w"
  CloseHandle :: "HANDLE \<Rightarrow> 'w \<Rightarrow> 'w"
  GetLastError :: "'w \<Rightarrow> win_error"
  error_code :: "win_error \<Rightarrow> int"
  sleep_for_ms :: "nat \<Rightarrow> 'w \<Rightarrow> 'w"
  stop_requested :: "server_thread \<Rightarrow> 'w \<Rightarrow> bool"
  v1_MultiByteToWideChar :: multi_to_wide
  v1_padding :: "'w \<Rightarrow> nat \<Rightarrow> byte"
  v1_size_t_bits :: nat

section \<open>State\<close>

record V1Server =
  mPipe :: "HANDLE option"
  mV1Device :: V1_DeviceInfo
  mV1State :: V1_State
  mPingSequenceNumber :: nat
  v1_written :: "(HANDLE \<times> bytes) list"

definition V1Server_init :: V1Server where
  "V1Server_init =
     \<lparr>mPipe = None, mV1Device = V1_DeviceInfo_zero, mV1State = V1_State_zero,
      mPingSequenceNumber = 0, v1_written = []\<rparr>"

section \<open>Helpers of the anonymous namespace\<close>

definition CreateMessage ::
  "'a V1_Header_scheme \<Rightarrow> V1_MessageType \<Rightarrow> nat \<Rightarrow> u16 \<Rightarrow> u16 \<Rightarrow> 'a V1_Header_scheme" where
  "CreateMessage zero mt sz vid pid =
     zero\<lparr>v1_messageType := v1_to_underlying mt, v1_size := word_of_nat sz, v1_vid := vid, v1_pid := pid\<rparr>"

definition OffsetBasis :: u32 where
  "OffsetBasis = 0x811c9dc5"

definition Prime :: u32 where
  "Prime = 0x01000193"

fun fnv1a :: "u32 \<Rightarrow> bytes \<Rightarrow> u32" where
  "fnv1a hash [] = hash"
| "fnv1a hash (c # cs) = fnv1a ((hash XOR ucast c) * Prime) cs"

definition SynthesizeVidPid :: "bytes \<Rightarrow> u16 \<times> u16" where
  "SynthesizeVidPid persistent_id =
     (let hash = fnv1a OffsetBasis persistent_id
      in (ucast (hash AND 0xFFFF), ucast (drop_bit 16 hash AND 0xFFFF)))"

section \<open>Sending\<close>

definition V1_SendRaw ::
  "'w v1_api \<Rightarrow> u32 \<Rightarrow> bytes \<Rightarrow> V1Server \<Rightarrow> 'w \<Rightarrow> bool result \<times> V1Server \<times> 'w" where
  "V1_SendRaw api hsize data s w =
     (if unat hsize \<noteq> length data then (Inl (Throw (Logic_error (cstr ''header size mismatch''))), s, w)
      else
        case mPipe s of
          None \<Rightarrow> (Inr False, s, w)
        | Some p \<Rightarrow>
            let ((ok, written), w1) = WriteFile api p data w;
                s1 = s\<lparr>v1_written := v1_written s @ [(p, data)]\<rparr>
            in if \<not> ok then (Inr False, s1\<lparr>mPipe := None\<rparr>, CloseHandle api p w1)
               else (Inr (written = length data), s1, w1))"

definition V1_Send_DeviceInfo where
  "V1_Send_DeviceInfo api (d :: V1_DeviceInfo) s w =
     V1_SendRaw api (v1_size d) (struct_bytes (v1_padding api w) (V1_DeviceInfo_fields d)) s w"

definition V1_Send_State where
  "V1_Send_State api (st :: V1_State) s w =
     V1_SendRaw api (v1_size st) (struct_bytes (v1_padding api w) (V1_State_fields st)) s w"

definition V1_Send_Ping where
  "V1_Send_Ping api (p :: V1_Ping) s w =
     V1_SendRaw api (v1_size p) (struct_bytes (v1_padding api w) (V1_Ping_fields p)) s w"

section \<open>The handler interface\<close>

definition V1_device_of :: "'w v1_api \<Rightarrow> DeviceInfo \<Rightarrow> V1_DeviceInfo" where
  "V1_device_of api device =
     (let (vid, pid) = SynthesizeVidPid (GetPersistentId device);
          d = CreateMessage V1_DeviceInfo_zero V1_MT_DeviceInfo sizeof_V1_DeviceInfo vid pid;
          nm = from_utf8 (v1_MultiByteToWideChar api) (GetName device)
      in d\<lparr>v1_isValid := True, v1_maxX := maxX device, v1_maxY := maxY device,
           v1_maxPressure := maxPressure device, v1_name := fill_copy V1_NameLength nm\<rparr>)"

definition V1_SetDevice ::
  "'w v1_api \<Rightarrow> DeviceInfo \<Rightarrow> V1Server \<Rightarrow> 'w \<Rightarrow> unit result \<times> V1Server \<times> 'w" where
  "V1_SetDevice api device s w =
     (let s1 = s\<lparr>mV1Device := V1_device_of api device\<rparr>;
          (r, s2, w2) = V1_Send_DeviceInfo api (mV1Device s1) s1 w
      in (map_sum id (\<lambda>_. ()) r, s2, w2))"

definition V1_state_of :: "V1_DeviceInfo \<Rightarrow> State \<Rightarrow> V1_State" where
  "V1_state_of dev state =
     (let m0 = CreateMessage V1_State_zero V1_MT_State sizeof_V1_State (v1_vid dev) (v1_pid dev);
          m1 = m0\<lparr>v1_positionValid := HasData state VM_Position\<rparr>;
          m2 = (if v1_positionValid m1 then m1\<lparr>v1_x := pos_x state, v1_y := pos_y state\<rparr> else m1);
          m3 = m2\<lparr>v1_pressureValid := HasData state VM_Pressure\<rparr>;
          m4 = (if v1_pressureValid m3 then m3\<lparr>v1_pressure := pressure state\<rparr> else m3);
          m5 = m4\<lparr>v1_penButtonsValid := HasData state VM_PenButtons\<rparr>;
          m6 = (if v1_penButtonsValid m5
                then m5\<lparr>v1_penButtons := penButtons state AND NOT 1\<rparr> else m5);
          m7 = m6\<lparr>v1_auxButtonsValid := HasData state VM_AuxButtons\<rparr>;
          m8 = (if v1_auxButtonsValid m7 then m7\<lparr>v1_auxButtons := auxButtons state\<rparr> else m7);
          hasProximityData = (HasData state VM_PenIsNearSurface \<or> HasData state VM_HoverDistance);
          m9 = m8\<lparr>v1_proximityValid := hasProximityData\<rparr>
      in if hasProximityData
         then m9\<lparr>v1_nearProximity := penIsNearSurface state, v1_hoverDistance := hoverDistance state\<rparr>
         else m9)"

definition V1_SetState ::
  "'w v1_api \<Rightarrow> State \<Rightarrow> V1Server \<Rightarrow> 'w \<Rightarrow> unit result \<times> V1Server \<times> 'w" where
  "V1_SetState api state s w =
     (let s1 = s\<lparr>mV1State := V1_state_of (mV1Device s) state\<rparr>;
          (r, s2, w2) = V1_Send_State api (mV1State s1) s1 w
      in (map_sum id (\<lambda>_. ()) r, s2, w2))"

definition V1_handler :: "'w v1_api \<Rightarrow> (V1Server \<times> 'w) IHandler" where
  "V1_handler api =
     \<lparr>SetDevice = (\<lambda>d (s, w). V1_SetDevice api d s w),
      SetState = (\<lambda>st (s, w). V1_SetState api st s w)\<rparr>"

section \<open>The ping thread\<close>

text \<open>One iteration of the loop after its sleep, and the loop's exit.\<close>

definition V1_ping_message :: "'w v1_api \<Rightarrow> V1Server \<Rightarrow> V1_Ping" where
  "V1_ping_message api s =
     (CreateMessage V1_Ping_zero V1_MT_Ping sizeof_V1_Ping (v1_vid (mV1Device s)) (v1_pid (mV1Device s)))
       \<lparr>v1_sequenceNumber := word_of_nat ((mPingSequenceNumber s + 1) mod 2 ^ v1_size_t_bits api)\<rparr>"

definition V1_ping :: "'w v1_api \<Rightarrow> V1Server \<Rightarrow> 'w \<Rightarrow> bool result \<times> V1Server \<times> 'w" where
  "V1_ping api s w =
     (let msg = V1_ping_message api s;
          s1 = s\<lparr>mPingSequenceNumber := (mPingSequenceNumber s + 1) mod 2 ^ v1_size_t_bits api\<rparr>
      in V1_Send_Ping api msg s1 w)"

datatype V1_ping_pc = P_Loop | P_Sleep | P_Done

definition V1_PingLoop_step ::
  "'w v1_api \<Rightarrow> V1_ping_pc \<Rightarrow> V1Server \<Rightarrow> 'w \<Rightarrow> V1_ping_pc result \<times> V1Server \<times> 'w" where
  "V1_PingLoop_step api pc s w =
     (case pc of
        P_Loop \<Rightarrow> (Inr (if stop_requested api Ping_thread w then P_Done else P_Sleep), s, w)
      | P_Sleep \<Rightarrow>
          let (r, s1, w1) = V1_ping api s (sleep_for_ms api 1000 w)
          in (map_sum id (\<lambda>_. P_Loop) r, s1, w1)
      | P_Done \<Rightarrow> (Inr P_Done, s, w))"

section \<open>The accept thread\<close>

definition NamedPipePathW :: wchars where
  "NamedPipePathW =
     wstr (CHR 0x5C # CHR 0x5C # ''.'' @ CHR 0x5C # ''pipe'' @ CHR 0x5C
       # ''com.fredemmott.openkneeboard.OTDIPC/v0.1'')"

datatype V1_pc =
    A_Loop
  | A_Connect HANDLE
  | A_Greet
  | A_Wait
  | A_Peek
  | A_Done

text \<open>\<^verbatim>\<open>mPipe.reset()\<close>.\<close>

definition V1_reset_pipe :: "'w v1_api \<Rightarrow> V1Server \<Rightarrow> 'w \<Rightarrow> V1Server \<times> 'w" where
  "V1_reset_pipe api s w =
     (case mPipe s of None \<Rightarrow> (s, w) | Some p \<Rightarrow> (s\<lparr>mPipe := None\<rparr>, CloseHandle api p w))"

definition V1_AcceptLoop_step ::
  "'w v1_api \<Rightarrow> V1_pc \<Rightarrow> V1Server \<Rightarrow> 'w \<Rightarrow> V1_pc result \<times> V1Server \<times> 'w" where
  "V1_AcceptLoop_step api pc s w =
     (case pc of
        A_Loop \<Rightarrow>
          if stop_requested api Accept_thread w then (Inr A_Done, s, w)
          else
            (case CreateNamedPipeW api NamedPipePathW
                [PIPE_ACCESS_DUPLEX, FILE_FLAG_FIRST_PIPE_INSTANCE]
                [PIPE_TYPE_MESSAGE, PIPE_READMODE_MESSAGE, PIPE_WAIT, PIPE_REJECT_REMOTE_CLIENTS]
                1 8192 0 0 w of
               (None, w1) \<Rightarrow>
                 let err = GetLastError api w1
                 in if err = ERROR_ACCESS_DENIED \<or> err = ERROR_PIPE_BUSY
                    then (Inr A_Loop, s, sleep_for_ms api 1000 w1)
                    else (Inl (Throw (Result_exception (HRESULT_FROM_WIN32 (error_code api err)))), s, w1)
             | (Some p, w1) \<Rightarrow> (Inr (A_Connect p), s, w1))
      | A_Connect p \<Rightarrow>
          (case ConnectNamedPipe api p w of
             None \<Rightarrow> (Inr (A_Connect p), s, w)
           | Some (ok, w1) \<Rightarrow>
               if \<not> ok \<and> GetLastError api w1 \<noteq> ERROR_PIPE_CONNECTED
               then (Inr A_Loop, s, CloseHandle api p w1)
               else
                 let (s2, w2) = V1_reset_pipe api s w1
                 in (Inr A_Greet, s2\<lparr>mPipe := Some p\<rparr>, w2))
      | A_Greet \<Rightarrow>
          if v1_isValid (mV1Device s)
          then
            let (r, s1, w1) = V1_Send_DeviceInfo api (mV1Device s) s w
            in (map_sum id (\<lambda>_. A_Wait) r, s1, w1)
          else (Inr A_Wait, s, w)
      | A_Wait \<Rightarrow>
          if \<not> stop_requested api Accept_thread w \<and> mPipe s \<noteq> None then (Inr A_Peek, s, sleep_for_ms api 100 w)
          else let (s1, w1) = V1_reset_pipe api s w in (Inr A_Loop, s1, w1)
      | A_Peek \<Rightarrow>
          let (ok, w1) = PeekNamedPipe api (mPipe s) w
          in if \<not> ok then let (s2, w2) = V1_reset_pipe api s w1 in (Inr A_Loop, s2, w2)
             else (Inr A_Wait, s, w1)
      | A_Done \<Rightarrow> (Inr A_Done, s, w))"

section \<open>The running server\<close>

record 'w V1_sys =
  srv :: V1Server
  acc :: V1_pc
  png :: V1_ping_pc
  world :: 'w
  terminated :: bool

text \<open>\<^verbatim>\<open>Start()\<close> on a new server.\<close>

definition V1_Start :: "'w \<Rightarrow> 'w V1_sys" where
  "V1_Start w = \<lparr>srv = V1Server_init, acc = A_Loop, png = P_Loop, world = w, terminated = False\<rparr>"

text \<open>An exception that leaves a thread function ends the process.\<close>

definition V1_accept_thread :: "'w v1_api \<Rightarrow> 'w V1_sys \<Rightarrow> 'w V1_sys" where
  "V1_accept_thread api y =
     (case V1_AcceptLoop_step api (acc y) (srv y) (world y) of
        (Inl _, s, w) \<Rightarrow> y\<lparr>srv := s, world := w, terminated := True\<rparr>
      | (Inr pc, s, w) \<Rightarrow> y\<lparr>srv := s, world := w, acc := pc\<rparr>)"

definition V1_ping_thread :: "'w v1_api \<Rightarrow> 'w V1_sys \<Rightarrow> 'w V1_sys" where
  "V1_ping_thread api y =
     (case V1_PingLoop_step api (png y) (srv y) (world y) of
        (Inl _, s, w) \<Rightarrow> y\<lparr>srv := s, world := w, terminated := True\<rparr>
      | (Inr pc, s, w) \<Rightarrow> y\<lparr>srv := s, world := w, png := pc\<rparr>)"

definition V1_main_call :: "'w v1_api \<Rightarrow> handler_call \<Rightarrow> 'w V1_sys \<Rightarrow> 'w V1_sys" where
  "V1_main_call api c y =
     (case call_handler (V1_handler api) c (srv y, world y) of
        (Inl _, s, w) \<Rightarrow> y\<lparr>srv := s, world := w, terminated := True\<rparr>
      | (Inr _, s, w) \<Rightarrow> y\<lparr>srv := s, world := w\<rparr>)"

inductive V1_step :: "'w v1_api \<Rightarrow> 'w V1_sys \<Rightarrow> 'w V1_sys \<Rightarrow> bool" for api where
  accept: "\<not> terminated y \<Longrightarrow> V1_step api y (V1_accept_thread api y)"
| ping: "\<not> terminated y \<Longrightarrow> V1_step api y (V1_ping_thread api y)"
| call: "\<not> terminated y \<Longrightarrow> wf_call c \<Longrightarrow> V1_step api y (V1_main_call api c y)"
| environment: "\<not> terminated y \<Longrightarrow> V1_step api y (y\<lparr>world := w'\<rparr>)"

inductive V1_reachable :: "'w v1_api \<Rightarrow> nat \<Rightarrow> 'w V1_sys \<Rightarrow> bool" for api where
  start: "V1_reachable api 0 (V1_Start w)"
| step: "V1_reachable api n y \<Longrightarrow> V1_step api y z \<Longrightarrow> V1_reachable api (Suc n) z"

inductive_simps V1_step_iff: "V1_step api y z"

text \<open>
  \<^verbatim>\<open>Stop()\<close> asks both threads to stop, waits for them and closes the pipe.  It returns once
  both thread functions have returned.
\<close>

definition V1_Stop_returns :: "'w V1_sys \<Rightarrow> bool" where
  "V1_Stop_returns y \<longleftrightarrow> png y = P_Done \<and> acc y = A_Done"

definition V1_Stop_finish :: "'w v1_api \<Rightarrow> 'w V1_sys \<Rightarrow> 'w V1_sys" where
  "V1_Stop_finish api y = (let (s, w) = V1_reset_pipe api (srv y) (world y) in y\<lparr>srv := s, world := w\<rparr>)"

section \<open>What is promised\<close>

text \<open>A frame a client can read: the header's size is the frame's, and fits its type.\<close>

definition V1_frame_ok :: "bytes \<Rightarrow> bool" where
  "V1_frame_ok bs \<longleftrightarrow>
     unat (v1_size (V1_Header_at bs)) = length bs \<and>
     (v1_messageType (V1_Header_at bs), length bs) \<in>
       {(v1_to_underlying V1_MT_DeviceInfo, sizeof_V1_DeviceInfo),
        (v1_to_underlying V1_MT_State, sizeof_V1_State),
        (v1_to_underlying V1_MT_Ping, sizeof_V1_Ping)}"

definition V1_srv_inv :: "V1Server \<Rightarrow> bool" where
  "V1_srv_inv s \<longleftrightarrow>
     wf_V1_DeviceInfo (mV1Device s) \<and>
     (v1_isValid (mV1Device s) \<longrightarrow>
        v1_messageType (mV1Device s) = v1_to_underlying V1_MT_DeviceInfo \<and>
        v1_size (mV1Device s) = word_of_nat sizeof_V1_DeviceInfo) \<and>
     list_all (\<lambda>(p, bs). V1_frame_ok bs) (v1_written s)"

text \<open>The pipe is only held while a client is being served.\<close>

definition V1_serving :: "V1_pc \<Rightarrow> bool" where
  "V1_serving pc \<longleftrightarrow> pc = A_Greet \<or> pc = A_Wait \<or> pc = A_Peek"

definition V1_sys_inv :: "'w V1_sys \<Rightarrow> bool" where
  "V1_sys_inv y \<longleftrightarrow> V1_srv_inv (srv y) \<and> (mPipe (srv y) \<noteq> None \<longrightarrow> V1_serving (acc y))"

text \<open>The sequence numbers of the pings among the frames written.\<close>

definition V1_ping_numbers :: "(HANDLE \<times> bytes) list \<Rightarrow> nat list" where
  "V1_ping_numbers frames =
     map (\<lambda>(p, bs). unat (v1_sequenceNumber (V1_Ping_at bs)))
       (filter (\<lambda>(p, bs). v1_messageType (V1_Header_at bs) = v1_to_underlying V1_MT_Ping) frames)"

definition V1_numbers_inv :: "nat \<Rightarrow> V1Server \<Rightarrow> bool" where
  "V1_numbers_inv n s \<longleftrightarrow>
     mPingSequenceNumber s \<le> n \<and> sorted_wrt (<) (V1_ping_numbers (v1_written s)) \<and>
     (\<forall>k \<in> set (V1_ping_numbers (v1_written s)). k \<le> mPingSequenceNumber s)"

text \<open>One \<^verbatim>\<open>SendRaw\<close> of \<open>data\<close>: at most that frame is written, and the pipe may be dropped.\<close>

definition V1_sent :: "bytes \<Rightarrow> V1Server \<Rightarrow> V1Server \<Rightarrow> bool" where
  "V1_sent data s s' \<longleftrightarrow>
     mV1Device s' = mV1Device s \<and> mV1State s' = mV1State s \<and>
     mPingSequenceNumber s' = mPingSequenceNumber s \<and>
     (mPipe s' = mPipe s \<or> mPipe s' = None) \<and>
     (v1_written s' = v1_written s \<or> (\<exists>p. mPipe s = Some p \<and> v1_written s' = v1_written s @ [(p, data)]))"

text \<open>A system with one client, and the start of a run of the server on it.\<close>

definition sample_v1_api :: "unit v1_api" where
  "sample_v1_api =
     \<lparr>CreateNamedPipeW = (\<lambda>_ _ _ _ _ _ _ w. (Some 1, w)), ConnectNamedPipe = (\<lambda>_ w. Some (True, w)),
      PeekNamedPipe = (\<lambda>_ w. (True, w)), WriteFile = (\<lambda>_ d w. ((True, length d), w)),
      CloseHandle = (\<lambda>_ w. w), GetLastError = (\<lambda>_. ERROR_PIPE_BUSY), error_code = (\<lambda>_. 231),
      sleep_for_ms = (\<lambda>_ w. w), stop_requested = (\<lambda>_ _. False),
      v1_MultiByteToWideChar = ascii_multi_to_wide, v1_padding = (\<lambda>_ _. 0xCC), v1_size_t_bits = 64\<rparr>"

definition sample_v1_run :: "unit V1_sys" where
  "sample_v1_run =
     (let y1 = V1_ping_thread sample_v1_api (V1_Start ());
          y2 = V1_accept_thread sample_v1_api y1;
          y3 = V1_accept_thread sample_v1_api y2;
          y4 = V1_ping_thread sample_v1_api y3
      in y4)"

definition sample_v1_state :: State where
  "sample_v1_state = State_init\<lparr>validBits := VM_Position OR VM_PenButtons, pos_x := 0x42C80000,
     pos_y := 0x43480000, penButtons := 7\<rparr>"

definition full_v1_api :: "unit v1_api" where
  "full_v1_api = sample_v1_api\<lparr>CreateNamedPipeW := (\<lambda>_ _ _ _ _ _ _ w. (None, w)),
     GetLastError := (\<lambda>_. Other_error 8)\<rparr>"

definition long_name_device :: DeviceInfo where
  "long_name_device = DeviceInfo_init\<lparr>device_name := fill_copy NameMaxLength (replicate 70 65)\<rparr>"

section \<open>Sending\<close>

lemma V1_SendRaw_sent:
  assumes "unat hsize = length data"
  shows "\<exists>b s' w'. V1_SendRaw api hsize data s w = (Inr b, s', w') \<and> V1_sent data s s'"
  using assms
  by (auto simp: V1_SendRaw_def V1_sent_def Let_def split: option.splits prod.splits)

interpretation v1t: frame_sender "\<lambda>h d (s, w). V1_SendRaw api h d s w" "\<lambda>(s, w). mPipe s" "\<lambda>(s, w). v1_written s"
  for api :: "'w v1_api"
  by unfold_locales (auto simp: V1_SendRaw_def Let_def split: prod.splits)

lemma unat_sizeof_v1:
  shows "unat (word_of_nat sizeof_V1_DeviceInfo :: u32) = sizeof_V1_DeviceInfo"
    and "unat (word_of_nat sizeof_V1_State :: u32) = sizeof_V1_State"
    and "unat (word_of_nat sizeof_V1_Ping :: u32) = sizeof_V1_Ping"
  by (simp_all add: v1_sizeof_consts)

lemma CreateMessage_simps [simp]:
  "v1_messageType (CreateMessage z mt sz vid pid) = v1_to_underlying mt"
  "v1_size (CreateMessage z mt sz vid pid) = word_of_nat sz"
  "v1_vid (CreateMessage z mt sz vid pid) = vid"
  "v1_pid (CreateMessage z mt sz vid pid) = pid"
  by (simp_all add: CreateMessage_def)

lemma V1_frame_ok_DeviceInfo:
  assumes "wf_V1_DeviceInfo d" and "v1_messageType d = v1_to_underlying V1_MT_DeviceInfo"
    and "v1_size d = word_of_nat sizeof_V1_DeviceInfo"
  shows "V1_frame_ok (struct_bytes pad (V1_DeviceInfo_fields d))"
  using V1_Header_at_append [of pad d _ "[]"] assms
  by (simp add: V1_frame_ok_def V1_DeviceInfo_fields_def V1_Header.truncate_def unat_sizeof_v1)
    (simp add: layout_simps flip: V1_DeviceInfo_fields_def)

lemma V1_frame_ok_State:
  assumes "v1_messageType st = v1_to_underlying V1_MT_State"
    and "v1_size st = word_of_nat sizeof_V1_State"
  shows "V1_frame_ok (struct_bytes pad (V1_State_fields st))"
  using V1_Header_at_append [of pad st _ "[]"] assms
  by (simp add: V1_frame_ok_def V1_State_fields_def V1_Header.truncate_def unat_sizeof_v1)
    (simp add: layout_simps flip: V1_State_fields_def)

lemma V1_frame_ok_Ping:
  assumes "v1_messageType p = v1_to_underlying V1_MT_Ping"
    and "v1_size p = word_of_nat sizeof_V1_Ping"
  shows "V1_frame_ok (struct_bytes pad (V1_Ping_fields p))"
  using V1_Header_at_append [of pad p _ "[]"] assms
  by (simp add: V1_frame_ok_def V1_Ping_fields_def V1_Header.truncate_def unat_sizeof_v1)
    (simp add: layout_simps flip: V1_Ping_fields_def)

lemma V1_sent_inv:
  assumes "V1_sent data s s'" and "V1_srv_inv s" and "V1_frame_ok data"
  shows "V1_srv_inv s'"
  using assms by (auto simp: V1_sent_def V1_srv_inv_def)

lemma V1_device_of_simps [simp]:
  "wf_V1_DeviceInfo (V1_device_of api d)"
  "v1_isValid (V1_device_of api d)"
  "v1_messageType (V1_device_of api d) = v1_to_underlying V1_MT_DeviceInfo"
  "v1_size (V1_device_of api d) = word_of_nat sizeof_V1_DeviceInfo"
  by (simp_all add: V1_device_of_def wf_V1_DeviceInfo_def Let_def split_beta)

lemma V1_state_of_simps [simp]:
  "v1_messageType (V1_state_of dev st) = v1_to_underlying V1_MT_State"
  "v1_size (V1_state_of dev st) = word_of_nat sizeof_V1_State"
  "v1_vid (V1_state_of dev st) = v1_vid dev"
  "v1_pid (V1_state_of dev st) = v1_pid dev"
  by (simp_all add: V1_state_of_def Let_def)

lemma V1_Send_DeviceInfo_sent:
  assumes "wf_V1_DeviceInfo d" and "v1_size d = word_of_nat sizeof_V1_DeviceInfo"
  shows "\<exists>b s' w'. V1_Send_DeviceInfo api d s w = (Inr b, s', w') \<and>
    V1_sent (struct_bytes (v1_padding api w) (V1_DeviceInfo_fields d)) s s'"
  unfolding V1_Send_DeviceInfo_def
  by (rule V1_SendRaw_sent) (simp add: assms layout_simps unat_sizeof_v1)

lemma V1_Send_State_sent:
  assumes "v1_size st = word_of_nat sizeof_V1_State"
  shows "\<exists>b s' w'. V1_Send_State api st s w = (Inr b, s', w') \<and>
    V1_sent (struct_bytes (v1_padding api w) (V1_State_fields st)) s s'"
  unfolding V1_Send_State_def
  by (rule V1_SendRaw_sent) (simp add: assms layout_simps unat_sizeof_v1)

lemma V1_Send_Ping_sent:
  assumes "v1_size p = word_of_nat sizeof_V1_Ping"
  shows "\<exists>b s' w'. V1_Send_Ping api p s w = (Inr b, s', w') \<and>
    V1_sent (struct_bytes (v1_padding api w) (V1_Ping_fields p)) s s'"
  unfolding V1_Send_Ping_def
  by (rule V1_SendRaw_sent) (simp add: assms layout_simps unat_sizeof_v1)

section \<open>The operations keep the invariant\<close>

lemma V1_SetDevice_sent:
  "\<exists>s' w'. V1_SetDevice api d s w = (Inr (), s', w') \<and>
     V1_sent (struct_bytes (v1_padding api w) (V1_DeviceInfo_fields (V1_device_of api d)))
       (s\<lparr>mV1Device := V1_device_of api d\<rparr>) s'"
proof -
  obtain b s' w' where
    "V1_Send_DeviceInfo api (V1_device_of api d) (s\<lparr>mV1Device := V1_device_of api d\<rparr>) w = (Inr b, s', w')"
    "V1_sent (struct_bytes (v1_padding api w) (V1_DeviceInfo_fields (V1_device_of api d)))
       (s\<lparr>mV1Device := V1_device_of api d\<rparr>) s'"
    using V1_Send_DeviceInfo_sent [of "V1_device_of api d"] by (metis V1_device_of_simps(1,4))
  then show ?thesis by (simp add: V1_SetDevice_def)
qed

lemma V1_SetState_sent:
  "\<exists>s' w'. V1_SetState api st s w = (Inr (), s', w') \<and>
     V1_sent (struct_bytes (v1_padding api w) (V1_State_fields (V1_state_of (mV1Device s) st)))
       (s\<lparr>mV1State := V1_state_of (mV1Device s) st\<rparr>) s'"
proof -
  let ?m = "V1_state_of (mV1Device s) st"
  obtain b s' w' where
    "V1_Send_State api ?m (s\<lparr>mV1State := ?m\<rparr>) w = (Inr b, s', w')"
    "V1_sent (struct_bytes (v1_padding api w) (V1_State_fields ?m)) (s\<lparr>mV1State := ?m\<rparr>) s'"
    using V1_Send_State_sent [of ?m] by (metis V1_state_of_simps(2))
  then show ?thesis by (simp add: V1_SetState_def)
qed

lemma V1_ping_message_simps [simp]:
  "v1_messageType (V1_ping_message api s) = v1_to_underlying V1_MT_Ping"
  "v1_size (V1_ping_message api s) = word_of_nat sizeof_V1_Ping"
  by (simp_all add: V1_ping_message_def)

lemma V1_ping_sent:
  "\<exists>b s' w'. V1_ping api s w = (Inr b, s', w') \<and>
     V1_sent (struct_bytes (v1_padding api w) (V1_Ping_fields (V1_ping_message api s)))
       (s\<lparr>mPingSequenceNumber := (mPingSequenceNumber s + 1) mod 2 ^ v1_size_t_bits api\<rparr>) s'"
  using V1_Send_Ping_sent [of "V1_ping_message api s"]
  by (simp add: V1_ping_def)

lemma V1_SetDevice_inv:
  assumes "V1_srv_inv s"
  shows "\<exists>s' w'. V1_SetDevice api d s w = (Inr (), s', w') \<and> V1_srv_inv s' \<and> mV1Device s' = V1_device_of api d"
proof -
  let ?s1 = "s\<lparr>mV1Device := V1_device_of api d\<rparr>"
  obtain s' w' where r: "V1_SetDevice api d s w = (Inr (), s', w')"
    and t: "V1_sent (struct_bytes (v1_padding api w) (V1_DeviceInfo_fields (V1_device_of api d))) ?s1 s'"
    using V1_SetDevice_sent [of api d s w] by auto
  have "V1_srv_inv ?s1" using assms by (simp add: V1_srv_inv_def)
  with t have "V1_srv_inv s'" by (rule V1_sent_inv) (simp add: V1_frame_ok_DeviceInfo)
  with r t show ?thesis by (simp add: V1_sent_def)
qed

lemma V1_SetState_inv:
  assumes "V1_srv_inv s"
  shows "\<exists>s' w'. V1_SetState api st s w = (Inr (), s', w') \<and> V1_srv_inv s' \<and> mV1Device s' = mV1Device s"
proof -
  let ?s1 = "s\<lparr>mV1State := V1_state_of (mV1Device s) st\<rparr>"
  obtain s' w' where r: "V1_SetState api st s w = (Inr (), s', w')"
    and t: "V1_sent (struct_bytes (v1_padding api w) (V1_State_fields (V1_state_of (mV1Device s) st))) ?s1 s'"
    using V1_SetState_sent [of api st s w] by auto
  have "V1_srv_inv ?s1" using assms by (simp add: V1_srv_inv_def)
  with t have "V1_srv_inv s'" by (rule V1_sent_inv) (simp add: V1_frame_ok_State)
  with r t show ?thesis by (simp add: V1_sent_def)
qed

interpretation v1h: handler_contract "V1_handler api" "\<lambda>(s, w). V1_srv_inv s" "\<lambda>(s, w). v1_isValid (mV1Device s)"
  for api :: "'w v1_api"
proof unfold_locales
  fix h :: "V1Server \<times> 'w" and d
  assume "case h of (s, w) \<Rightarrow> V1_srv_inv s"
  then show "fst (SetDevice (V1_handler api) d h) = Inr () \<and>
      (case snd (SetDevice (V1_handler api) d h) of (s, w) \<Rightarrow> V1_srv_inv s) \<and>
      (case snd (SetDevice (V1_handler api) d h) of (s, w) \<Rightarrow> v1_isValid (mV1Device s))"
    using V1_SetDevice_inv [of "fst h" api d "snd h"] by (auto simp: V1_handler_def)
next
  fix h :: "V1Server \<times> 'w" and st
  assume "case h of (s, w) \<Rightarrow> V1_srv_inv s" and "case h of (s, w) \<Rightarrow> v1_isValid (mV1Device s)"
  then show "fst (SetState (V1_handler api) st h) = Inr () \<and>
      (case snd (SetState (V1_handler api) st h) of (s, w) \<Rightarrow> V1_srv_inv s) \<and>
      (case snd (SetState (V1_handler api) st h) of (s, w) \<Rightarrow> v1_isValid (mV1Device s))"
    using V1_SetState_inv [of "fst h" api st "snd h"] by (auto simp: V1_handler_def)
qed

section \<open>The threads keep the invariant\<close>

lemma V1_reset_pipe_simps [simp]:
  "mPipe (fst (V1_reset_pipe api s w)) = None"
  "mV1Device (fst (V1_reset_pipe api s w)) = mV1Device s"
  "mPingSequenceNumber (fst (V1_reset_pipe api s w)) = mPingSequenceNumber s"
  "v1_written (fst (V1_reset_pipe api s w)) = v1_written s"
  by (simp_all add: V1_reset_pipe_def split: option.split)

lemma V1_srv_inv_reset [simp]: "V1_srv_inv (fst (V1_reset_pipe api s w)) = V1_srv_inv s"
  by (simp add: V1_srv_inv_def)

lemma V1_srv_inv_pipe [simp]: "V1_srv_inv (s\<lparr>mPipe := p\<rparr>) = V1_srv_inv s"
  by (simp add: V1_srv_inv_def)

lemma V1_greet_inv:
  assumes "V1_srv_inv s" and "v1_isValid (mV1Device s)"
  shows "\<exists>b s' w'. V1_Send_DeviceInfo api (mV1Device s) s w = (Inr b, s', w') \<and> V1_srv_inv s' \<and>
    (v1_written s' = v1_written s \<or>
      (\<exists>p. v1_written s' = v1_written s @
        [(p, struct_bytes (v1_padding api w) (V1_DeviceInfo_fields (mV1Device s)))])) \<and>
    mPingSequenceNumber s' = mPingSequenceNumber s"
proof -
  have dev: "wf_V1_DeviceInfo (mV1Device s)" "v1_size (mV1Device s) = word_of_nat sizeof_V1_DeviceInfo"
    "v1_messageType (mV1Device s) = v1_to_underlying V1_MT_DeviceInfo"
    using assms by (simp_all add: V1_srv_inv_def)
  obtain b s' w' where r: "V1_Send_DeviceInfo api (mV1Device s) s w = (Inr b, s', w')"
    and t: "V1_sent (struct_bytes (v1_padding api w) (V1_DeviceInfo_fields (mV1Device s))) s s'"
    using V1_Send_DeviceInfo_sent [OF dev(1,2), of api s w] by auto
  have "V1_srv_inv s'" using t assms(1) by (rule V1_sent_inv) (simp add: V1_frame_ok_DeviceInfo dev)
  with r t show ?thesis by (auto simp: V1_sent_def)
qed

lemma V1_AcceptLoop_step_inv:
  assumes "V1_srv_inv s" and "mPipe s \<noteq> None \<longrightarrow> V1_serving pc"
  shows "case V1_AcceptLoop_step api pc s w of
      (Inl f, s', w') \<Rightarrow> V1_srv_inv s' \<and> (mPipe s' \<noteq> None \<longrightarrow> V1_serving pc)
    | (Inr pc', s', w') \<Rightarrow> V1_srv_inv s' \<and> (mPipe s' \<noteq> None \<longrightarrow> V1_serving pc')"
proof (cases pc)
  case A_Loop
  with assms show ?thesis
    by (auto simp: V1_AcceptLoop_step_def V1_serving_def Let_def split: prod.splits option.splits)
next
  case (A_Connect p)
  with assms show ?thesis
    by (auto simp: V1_AcceptLoop_step_def V1_serving_def Let_def split_beta split: option.splits)
next
  case A_Greet
  show ?thesis
  proof (cases "v1_isValid (mV1Device s)")
    case True
    then show ?thesis
      using A_Greet V1_greet_inv [OF assms(1), of api w]
      by (auto simp: V1_AcceptLoop_step_def V1_serving_def)
  next
    case False
    then show ?thesis using A_Greet assms by (simp add: V1_AcceptLoop_step_def V1_serving_def)
  qed
next
  case A_Wait
  with assms show ?thesis by (simp add: V1_AcceptLoop_step_def V1_serving_def split_beta)
next
  case A_Peek
  with assms show ?thesis by (simp add: V1_AcceptLoop_step_def V1_serving_def split_beta Let_def)
next
  case A_Done
  with assms show ?thesis by (simp add: V1_AcceptLoop_step_def V1_serving_def)
qed

lemma V1_ping_inv:
  assumes "V1_srv_inv s"
  shows "\<exists>b s' w'. V1_ping api s w = (Inr b, s', w') \<and> V1_srv_inv s' \<and> (mPipe s' = mPipe s \<or> mPipe s' = None)"
proof -
  let ?s1 = "s\<lparr>mPingSequenceNumber := (mPingSequenceNumber s + 1) mod 2 ^ v1_size_t_bits api\<rparr>"
  obtain b s' w' where r: "V1_ping api s w = (Inr b, s', w')"
    and t: "V1_sent (struct_bytes (v1_padding api w) (V1_Ping_fields (V1_ping_message api s))) ?s1 s'"
    using V1_ping_sent [of api s w] by auto
  have "V1_srv_inv ?s1" using assms by (simp add: V1_srv_inv_def)
  with t have "V1_srv_inv s'" by (rule V1_sent_inv) (simp add: V1_frame_ok_Ping)
  with r t show ?thesis by (auto simp: V1_sent_def)
qed

lemma V1_call_inv:
  assumes "V1_srv_inv s"
  shows "\<exists>s' w'. call_handler (V1_handler api) c (s, w) = (Inr (), s', w') \<and> V1_srv_inv s' \<and>
    (mPipe s' = mPipe s \<or> mPipe s' = None)"
proof (cases c)
  case (Call_SetDevice d)
  then show ?thesis
    using V1_SetDevice_inv [OF assms, of api d w] V1_SetDevice_sent [of api d s w]
    by (auto simp: V1_handler_def V1_sent_def)
next
  case (Call_SetState st)
  then show ?thesis
    using V1_SetState_inv [OF assms, of api st w] V1_SetState_sent [of api st s w]
    by (auto simp: V1_handler_def V1_sent_def)
qed

lemma V1_step_inv:
  assumes "V1_step api y z" and "V1_sys_inv y"
  shows "V1_sys_inv z"
  using assms
proof (induction rule: V1_step.induct)
  case (accept y)
  then show ?case
    using V1_AcceptLoop_step_inv [of "srv y" "acc y" api "world y"]
    by (auto simp: V1_accept_thread_def V1_sys_inv_def split: prod.splits sum.splits)
next
  case (ping y)
  then have inv: "V1_srv_inv (srv y)" by (simp add: V1_sys_inv_def)
  show ?case
    using ping V1_ping_inv [OF inv, of api "sleep_for_ms api 1000 (world y)"]
    by (cases "png y") (auto simp: V1_ping_thread_def V1_PingLoop_step_def V1_sys_inv_def)
next
  case (call y c)
  then have inv: "V1_srv_inv (srv y)" by (simp add: V1_sys_inv_def)
  show ?case
    using call V1_call_inv [OF inv, of api c "world y"] by (auto simp: V1_main_call_def V1_sys_inv_def)
next
  case (environment y w')
  then show ?case by (simp add: V1_sys_inv_def)
qed

lemma V1_sys_inv_Start: "V1_sys_inv (V1_Start w)"
  by (simp add: V1_sys_inv_def V1_Start_def V1Server_init_def V1_srv_inv_def V1_DeviceInfo_zero_def
      wf_V1_DeviceInfo_def)

lemma V1_reachable_inv: "V1_reachable api n y \<Longrightarrow> V1_sys_inv y"
  by (induction rule: V1_reachable.induct) (auto intro: V1_sys_inv_Start V1_step_inv)

section \<open>Ping numbers\<close>

lemma V1_frame_type:
  shows "v1_messageType (V1_Header_at (struct_bytes pad (V1_DeviceInfo_fields d))) = v1_messageType d"
    and "v1_messageType (V1_Header_at (struct_bytes pad (V1_State_fields st))) = v1_messageType st"
    and "v1_messageType (V1_Header_at (struct_bytes pad (V1_Ping_fields p))) = v1_messageType p"
  using V1_Header_at_append [of pad d _ "[]"] V1_Header_at_append [of pad st _ "[]"]
    V1_Header_at_append [of pad p _ "[]"]
  by (simp_all add: V1_DeviceInfo_fields_def V1_State_fields_def V1_Ping_fields_def V1_Header.truncate_def)

lemma V1_ping_numbers_append:
  "V1_ping_numbers (l @ [(p, bs)]) = V1_ping_numbers l @
     (if v1_messageType (V1_Header_at bs) = v1_to_underlying V1_MT_Ping
      then [unat (v1_sequenceNumber (V1_Ping_at bs))] else [])"
  by (simp add: V1_ping_numbers_def)

lemma V1_sent_numbers:
  assumes "V1_sent bs s s'" and "v1_messageType (V1_Header_at bs) \<noteq> v1_to_underlying V1_MT_Ping"
  shows "V1_ping_numbers (v1_written s') = V1_ping_numbers (v1_written s)
    \<and> mPingSequenceNumber s' = mPingSequenceNumber s"
  using assms by (auto simp: V1_sent_def V1_ping_numbers_append)

lemma V1_accept_numbers:
  assumes "V1_srv_inv s" and "V1_AcceptLoop_step api pc s w = (r, s', w')"
  shows "V1_ping_numbers (v1_written s') = V1_ping_numbers (v1_written s)
    \<and> mPingSequenceNumber s' = mPingSequenceNumber s"
proof (cases "pc = A_Greet \<and> v1_isValid (mV1Device s)")
  case True
  then show ?thesis
    using assms(2) V1_greet_inv [OF assms(1), of api w] assms(1)
    by (auto simp: V1_AcceptLoop_step_def V1_ping_numbers_append V1_frame_type V1_srv_inv_def)
next
  case False
  then show ?thesis
    using assms(2)
    by (cases pc)
      (auto simp: V1_AcceptLoop_step_def Let_def V1_reset_pipe_def
        split: prod.splits option.splits if_splits)
qed

lemma V1_call_numbers:
  assumes "call_handler (V1_handler api) c (s, w) = (r, s', w')"
  shows "V1_ping_numbers (v1_written s') = V1_ping_numbers (v1_written s)
    \<and> mPingSequenceNumber s' = mPingSequenceNumber s"
proof (cases c)
  case (Call_SetDevice d)
  obtain s2 w2 where "V1_SetDevice api d s w = (Inr (), s2, w2)"
    "V1_sent (struct_bytes (v1_padding api w) (V1_DeviceInfo_fields (V1_device_of api d)))
      (s\<lparr>mV1Device := V1_device_of api d\<rparr>) s2"
    using V1_SetDevice_sent [of api d s w] by auto
  then show ?thesis
    using assms Call_SetDevice V1_sent_numbers by (fastforce simp: V1_handler_def V1_frame_type)
next
  case (Call_SetState st)
  let ?m = "V1_state_of (mV1Device s) st"
  obtain s2 w2 where "V1_SetState api st s w = (Inr (), s2, w2)"
    "V1_sent (struct_bytes (v1_padding api w) (V1_State_fields ?m)) (s\<lparr>mV1State := ?m\<rparr>) s2"
    using V1_SetState_sent [of api st s w] by auto
  then show ?thesis
    using assms Call_SetState V1_sent_numbers by (fastforce simp: V1_handler_def V1_frame_type)
qed

lemma V1_ping_numbers_ping:
  assumes "V1_ping api s w = (r, s', w')" and "Suc (mPingSequenceNumber s) < 2 ^ v1_size_t_bits api"
    and "v1_size_t_bits api \<le> 64"
  shows "mPingSequenceNumber s' = Suc (mPingSequenceNumber s) \<and>
    V1_ping_numbers (v1_written s') \<in>
      {V1_ping_numbers (v1_written s), V1_ping_numbers (v1_written s) @ [Suc (mPingSequenceNumber s)]}"
proof -
  let ?n = "Suc (mPingSequenceNumber s)"
  let ?s1 = "s\<lparr>mPingSequenceNumber := ?n\<rparr>"
  have n: "?n mod 2 ^ v1_size_t_bits api = ?n" using assms(2) by simp
  have "?n < 2 ^ 64"
    by (rule less_le_trans [OF assms(2)]) (use assms(3) in \<open>simp add: power_increasing del: power_numeral\<close>)
  then have u: "unat (word_of_nat ?n :: u64) = ?n" by (simp add: unat_of_nat del: of_nat_Suc)
  obtain b s2 w2 where r: "V1_ping api s w = (Inr b, s2, w2)"
    and t: "V1_sent (struct_bytes (v1_padding api w) (V1_Ping_fields (V1_ping_message api s))) ?s1 s2"
    using V1_ping_sent [of api s w] n by auto
  have "unat (v1_sequenceNumber (V1_Ping_at (struct_bytes (v1_padding api w) (V1_Ping_fields (V1_ping_message api s))))) = ?n"
    using V1_Ping_at_bytes [of "v1_padding api w" "V1_ping_message api s" "[]"] n u
    by (simp add: V1_ping_message_def del: of_nat_Suc)
  then show ?thesis
    using t r assms(1) by (auto simp: V1_sent_def V1_ping_numbers_append V1_frame_type)
qed

lemma V1_numbers_inv_same:
  assumes "V1_numbers_inv n s" and "V1_ping_numbers (v1_written s') = V1_ping_numbers (v1_written s)"
    and "mPingSequenceNumber s' = mPingSequenceNumber s"
  shows "V1_numbers_inv (Suc n) s'"
  using assms by (auto simp: V1_numbers_inv_def)

lemma V1_step_numbers:
  assumes "V1_step api y z" and "V1_sys_inv y" and "V1_numbers_inv n (srv y)"
    and "Suc n < 2 ^ v1_size_t_bits api" and "v1_size_t_bits api \<le> 64"
  shows "V1_numbers_inv (Suc n) (srv z)"
  using assms
proof (induction rule: V1_step.induct)
  case (accept y)
  then show ?case
    using V1_accept_numbers [of "srv y" api "acc y" "world y"]
    by (auto simp: V1_accept_thread_def V1_sys_inv_def intro: V1_numbers_inv_same
        split: prod.splits sum.splits)
next
  case (ping y)
  have "Suc (mPingSequenceNumber (srv y)) < 2 ^ v1_size_t_bits api"
    using ping by (simp add: V1_numbers_inv_def)
  note num = V1_ping_numbers_ping [OF _ this ping(5), of "sleep_for_ms api 1000 (world y)"]
  obtain r s' w' where eq: "V1_ping api (srv y) (sleep_for_ms api 1000 (world y)) = (r, s', w')"
    using prod_cases3 by blast
  from num [OF eq] ping(3) have "V1_numbers_inv (Suc n) s'"
    by (auto simp: V1_numbers_inv_def sorted_wrt_append le_Suc_eq less_Suc_eq_le)
  then show ?case
    using ping(3) eq by (cases "png y")
      (auto simp: V1_ping_thread_def V1_PingLoop_step_def intro: V1_numbers_inv_same split: sum.splits)
next
  case (call y c)
  then show ?case
    using V1_call_numbers [of api c "srv y" "world y"]
    by (auto simp: V1_main_call_def intro: V1_numbers_inv_same split: prod.splits sum.splits)
next
  case (environment y w')
  then show ?case by (auto intro: V1_numbers_inv_same)
qed

lemma V1_reachable_numbers:
  "V1_reachable api n y \<Longrightarrow> n < 2 ^ v1_size_t_bits api \<Longrightarrow> v1_size_t_bits api \<le> 64 \<Longrightarrow> V1_numbers_inv n (srv y)"
proof (induction rule: V1_reachable.induct)
  case (start w)
  then show ?case by (simp add: V1_numbers_inv_def V1_Start_def V1Server_init_def V1_ping_numbers_def)
next
  case (step n y z)
  then show ?case by (auto intro: V1_step_numbers V1_reachable_inv)
qed

section \<open>Synthesised vendor and product numbers\<close>

lemma Prime_mult_inj: "x * Prime = y * Prime \<longleftrightarrow> x = y" for x y :: u32
proof
  have inv: "Prime * 0x359c449b = 1" by (simp add: Prime_def)
  assume "x * Prime = y * Prime"
  then have "x * (Prime * 0x359c449b) = y * (Prime * 0x359c449b)"
    by (simp only: mult.assoc [symmetric])
  then show "x = y" by (simp add: inv)
qed simp

lemma ucast_byte_inj: "(ucast c :: u32) = ucast d \<longleftrightarrow> c = d" for c d :: byte
proof -
  have "ucast (ucast e :: u32) = e" for e :: byte
    by (rule bit_word_eqI) (simp add: bit_simps)
  then show ?thesis by metis
qed

lemma fnv1a_append: "fnv1a h (xs @ ys) = fnv1a (fnv1a h xs) ys"
  by (induction xs arbitrary: h) auto

lemma xor_right_cancel: "a XOR c = b XOR c \<longleftrightarrow> a = b" for a b c :: u32
  by (auto simp: bit_eq_iff bit_simps)

lemma fnv1a_inj: "fnv1a h xs = fnv1a k xs \<longleftrightarrow> h = k"
  by (induction xs arbitrary: h k) (simp_all add: Prime_mult_inj xor_right_cancel)

lemma fnv1a_one_byte:
  assumes "c \<noteq> d"
  shows "fnv1a h (pre @ c # post) \<noteq> fnv1a h (pre @ d # post)"
proof -
  have "fnv1a h pre XOR ucast c \<noteq> fnv1a h pre XOR ucast d"
    using assms by (metis ucast_byte_inj xor_right_cancel xor.commute)
  then show ?thesis by (simp add: fnv1a_append fnv1a_inj Prime_mult_inj)
qed

lemma low_word_mask: "(0xFFFF :: u32) = mask 16"
  by (simp add: mask_eq_exp_minus_1)

lemma hash_of_halves:
  "push_bit 16 (ucast (ucast (drop_bit 16 h AND 0xFFFF) :: u16)) OR ucast (ucast (h AND 0xFFFF) :: u16) = (h :: u32)"
  unfolding low_word_mask by (rule bit_word_eqI) (auto simp: bit_simps)

lemma SynthesizeVidPid_inj:
  "SynthesizeVidPid a = SynthesizeVidPid b \<longleftrightarrow> fnv1a OffsetBasis a = fnv1a OffsetBasis b"
  by (auto simp: SynthesizeVidPid_def Let_def) (metis hash_of_halves)

section \<open>Translation of a state\<close>

lemma V1_state_of_fields:
  shows "v1_positionValid (V1_state_of dev st) = HasData st VM_Position"
    and "HasData st VM_Position \<Longrightarrow> v1_x (V1_state_of dev st) = pos_x st"
    and "HasData st VM_Position \<Longrightarrow> v1_y (V1_state_of dev st) = pos_y st"
    and "v1_pressureValid (V1_state_of dev st) = HasData st VM_Pressure"
    and "HasData st VM_Pressure \<Longrightarrow> v1_pressure (V1_state_of dev st) = pressure st"
    and "v1_penButtonsValid (V1_state_of dev st) = HasData st VM_PenButtons"
    and "HasData st VM_PenButtons \<Longrightarrow> v1_penButtons (V1_state_of dev st) = penButtons st AND NOT 1"
    and "v1_auxButtonsValid (V1_state_of dev st) = HasData st VM_AuxButtons"
    and "HasData st VM_AuxButtons \<Longrightarrow> v1_auxButtons (V1_state_of dev st) = auxButtons st"
    and "v1_proximityValid (V1_state_of dev st) = (HasData st VM_PenIsNearSurface \<or> HasData st VM_HoverDistance)"
  by (simp_all add: V1_state_of_def Let_def)

section \<open>Stopping\<close>

lemma V1_connect_blocks:
  assumes "\<forall>p w. ConnectNamedPipe api p w = None" and "V1_step api y z" and "acc y = A_Connect p"
  shows "acc z = A_Connect p"
  using assms(2,3,1)
  by (induction rule: V1_step.induct)
    (auto simp: V1_accept_thread_def V1_AcceptLoop_step_def V1_ping_thread_def V1_main_call_def
      split: prod.splits sum.splits)

lemma V1_accept_throws:
  assumes "V1_srv_inv s" and "V1_AcceptLoop_step api pc s w = (Inl f, s', w')"
  shows "pc = A_Loop \<and> \<not> stop_requested api Accept_thread w \<and>
    (\<exists>err. err \<noteq> ERROR_ACCESS_DENIED \<and> err \<noteq> ERROR_PIPE_BUSY \<and> GetLastError api w' = err \<and>
       f = Throw (Result_exception (HRESULT_FROM_WIN32 (error_code api err))))"
proof (cases pc)
  case A_Greet
  then show ?thesis
    using assms V1_greet_inv [OF assms(1), of api w]
    by (auto simp: V1_AcceptLoop_step_def split: if_splits)
qed (use assms(2) in
    \<open>auto simp: V1_AcceptLoop_step_def Let_def split: if_splits prod.splits option.splits\<close>)

section \<open>A run\<close>

lemma V1_reachable_thread:
  assumes "V1_reachable api n y" and "\<not> terminated y"
  shows "V1_reachable api (Suc n) (V1_accept_thread api y)"
    and "V1_reachable api (Suc n) (V1_ping_thread api y)"
    and "wf_call c \<Longrightarrow> V1_reachable api (Suc n) (V1_main_call api c y)"
  using assms V1_reachable.step V1_step.accept V1_step.ping V1_step.call by blast+

lemmas V1_run_defs =
  sample_v1_run_def V1_Start_def V1Server_init_def V1_ping_thread_def V1_accept_thread_def V1_PingLoop_step_def
  V1_AcceptLoop_step_def V1_reset_pipe_def V1_ping_def V1_Send_Ping_def V1_SendRaw_def

lemma sample_v1_frames:
  "v1_written (srv sample_v1_run) =
     [(1, struct_bytes (\<lambda>_. 0xCC) (V1_Ping_fields (V1_ping_message sample_v1_api V1Server_init)))]"
  by (simp add: V1_run_defs sample_v1_api_def layout_simps unat_sizeof_v1)
    (simp add: V1_ping_message_def)

lemma sample_v1_reachable: "V1_reachable sample_v1_api 4 sample_v1_run"
proof -
  have "V1_reachable sample_v1_api (Suc (Suc (Suc (Suc 0)))) sample_v1_run"
    unfolding sample_v1_run_def Let_def
    by (intro V1_reachable_thread V1_reachable.start)
      (simp_all add: V1_run_defs sample_v1_api_def layout_simps unat_sizeof_v1)
  then show ?thesis by (simp add: numeral_eq_Suc)
qed

lemma V1_SetState_writes:
  assumes "mPipe s = Some p" and "V1_SetState api st s w = (r, s', w')"
  shows "v1_written s' = v1_written s @
    [(p, struct_bytes (v1_padding api w) (V1_State_fields (V1_state_of (mV1Device s) st)))]"
  using assms
  by (auto simp: V1_SetState_def V1_Send_State_def V1_SendRaw_def Let_def layout_simps unat_sizeof_v1
      split: prod.splits if_splits)

lemma V1_step_terminates:
  assumes "V1_step api y z" and "V1_sys_inv y" and "terminated z"
  shows "acc y = A_Loop \<and> \<not> stop_requested api Accept_thread (world y) \<and>
    GetLastError api (world z) \<notin> {ERROR_ACCESS_DENIED, ERROR_PIPE_BUSY}"
  using assms
proof (induction rule: V1_step.induct)
  case (accept y)
  then have inv: "V1_srv_inv (srv y)" by (simp add: V1_sys_inv_def)
  show ?case
    using accept V1_accept_throws [OF inv, of api "acc y" "world y"]
    by (auto simp: V1_accept_thread_def split: prod.splits sum.splits)
next
  case (ping y)
  then have inv: "V1_srv_inv (srv y)" by (simp add: V1_sys_inv_def)
  show ?case
    using ping V1_ping_inv [OF inv, of api "sleep_for_ms api 1000 (world y)"]
    by (cases "png y") (auto simp: V1_ping_thread_def V1_PingLoop_step_def)
next
  case (call y c)
  then have inv: "V1_srv_inv (srv y)" by (simp add: V1_sys_inv_def)
  show ?case
    using call V1_call_inv [OF inv, of api c "world y"] by (auto simp: V1_main_call_def)
qed simp

section \<open>Properties\<close>

text \<open>C9: in every reachable state of the V1 server, under any interleaving of its two threads,
  the main thread's calls and the environment, every frame ever written to a client is
  well-formed (its header's size is the number of bytes written and fits its message type), the
  announced device is well-formed, and a pipe is only held while a client is being served.\<close>

theorem V1_reachable_safe:
  assumes "V1_reachable api n y"
  shows "V1_sys_inv y"
  using assms by (rule V1_reachable_inv)

theorem V1_reachable_safe_witness:
  "V1_sys_inv sample_v1_run \<and> length (v1_written (srv sample_v1_run)) = 1"
  using V1_reachable_safe [OF sample_v1_reachable] by (simp add: sample_v1_frames)



text \<open>Two persistent ids that differ in exactly one byte never get the same synthesised
  vendor and product numbers.\<close>

theorem SynthesizeVidPid_one_byte:
  assumes "c \<noteq> d"
  shows "SynthesizeVidPid (pre @ c # post) \<noteq> SynthesizeVidPid (pre @ d # post)"
  using fnv1a_one_byte [OF assms] by (simp add: SynthesizeVidPid_inj)

theorem SynthesizeVidPid_one_byte_witness:
  "SynthesizeVidPid (cstr ''wacom-'' @ 65 # cstr ''-1'') \<noteq> SynthesizeVidPid (cstr ''wacom-'' @ 66 # cstr ''-1'')"
  by (rule SynthesizeVidPid_one_byte) simp



text \<open>\<^verbatim>\<open>Stop()\<close> cannot return while the accept thread waits in \<^verbatim>\<open>ConnectNamedPipe\<close> and no client
  ever connects: whatever else happens, its thread never finishes, so joining it blocks.\<close>

theorem V1_Stop_hangs:
  assumes "\<forall>p w. ConnectNamedPipe api p w = None" and "acc y = A_Connect p"
    and "(V1_step api)\<^sup>*\<^sup>* y z"
  shows "\<not> V1_Stop_returns z"
proof -
  from assms(3) have "acc z = A_Connect p"
    by induction (use assms(2) V1_connect_blocks [OF assms(1)] in auto)
  then show ?thesis by (simp add: V1_Stop_returns_def)
qed

theorem V1_Stop_hangs_witness:
  "\<not> V1_Stop_returns (V1_ping_thread (sample_v1_api\<lparr>ConnectNamedPipe := (\<lambda>_ _. None)\<rparr>)
       ((V1_Start ())\<lparr>acc := A_Connect 1\<rparr>))"
  by (rule V1_Stop_hangs [of "sample_v1_api\<lparr>ConnectNamedPipe := (\<lambda>_ _. None)\<rparr>" "(V1_Start ())\<lparr>acc := A_Connect 1\<rparr>" 1])
    (auto simp: V1_Start_def intro!: r_into_rtranclp V1_step.ping)

text \<open>The process only ever dies from the V1 server when creating the named pipe fails with an
  error other than the two that mean another instance is running; no ping, handler call or
  later step of the accept thread throws.\<close>

theorem V1_terminates_only_on_pipe_error:
  assumes "V1_reachable api n y" and "V1_step api y z" and "terminated z"
  shows "acc y = A_Loop \<and> \<not> stop_requested api Accept_thread (world y) \<and>
    GetLastError api (world z) \<notin> {ERROR_ACCESS_DENIED, ERROR_PIPE_BUSY}"
  using assms(2) V1_reachable_inv [OF assms(1)] assms(3) by (rule V1_step_terminates)

theorem V1_terminates_only_on_pipe_error_witness:
  "terminated (V1_accept_thread full_v1_api (V1_Start ())) \<and>
   GetLastError full_v1_api () \<notin> {ERROR_ACCESS_DENIED, ERROR_PIPE_BUSY}"
proof -
  have t: "terminated (V1_accept_thread full_v1_api (V1_Start ()))"
    by (simp add: V1_run_defs full_v1_api_def sample_v1_api_def)
  show ?thesis
    using V1_terminates_only_on_pipe_error [OF V1_reachable.start V1_step.accept t] t by (simp add: V1_Start_def)
qed

text \<open>What a V1 client sees of a device name.  With an operating system that decodes UTF-8, the
  name on the wire is the decoded name cut to 64 units, and it is followed by a NUL exactly when the
  decoded name is shorter than 64 units: a longer name is not terminated.\<close>

theorem V1_device_name:
  assumes "wf_DeviceInfo d" and "two_phase decode (v1_MultiByteToWideChar api)" and "GetName d \<noteq> []"
    and "decode (GetName d) = Some nm" and "0 \<notin> set nm"
  shows "until_nul (v1_name (V1_device_of api d)) = take V1_NameLength nm \<and>
    (0 \<in> set (v1_name (V1_device_of api d)) \<longleftrightarrow> length nm < V1_NameLength)"
proof -
  have "length (GetName d) \<le> length (device_name d)"
    by (simp add: GetName_def until_nul_def length_takeWhile_le)
  then have "length (GetName d) < 2 ^ 31" using assms(1) by (simp add: wf_DeviceInfo_def NameMaxLength_def)
  then have "v1_name (V1_device_of api d) = fill_copy V1_NameLength nm"
    using from_utf8_two_phase [OF assms(2)] assms(3,4)
    by (simp add: V1_device_of_def Let_def split_beta)
  then show ?thesis using assms(5) by (simp add: until_nul_fill_copy until_nul_no_nul nul_in_fill_copy)
qed

theorem V1_device_name_witness:
  "until_nul (v1_name (V1_device_of sample_v1_api long_name_device)) = replicate 64 65 \<and>
   0 \<notin> set (v1_name (V1_device_of sample_v1_api long_name_device))"
proof -
  have nm: "GetName long_name_device = replicate 70 65"
    by (simp add: GetName_def long_name_device_def until_nul_fill_copy until_nul_no_nul NameMaxLength_def)
  have "wf_DeviceInfo long_name_device"
    by (simp add: wf_DeviceInfo_def long_name_device_def DeviceInfo_init_def)
  then show ?thesis
    using V1_device_name [of long_name_device ascii_decode sample_v1_api "replicate 70 65"]
      ascii_two_phase nm
    by (simp add: sample_v1_api_def ascii_decode_def V1_NameLength_def list_all_iff)
qed

end
