(* ===== verification/V2Server.thy ===== *)
theory V2Server
  imports Handler Transport
begin

text \<open>
  The OTD-IPC version 2 server (\<^verbatim>\<open>src/V2Server.cpp\<close>, \<^verbatim>\<open>src/V2Server.hpp\<close>) without its set-up
  and discovery files, which are in \<open>V2Discovery\<close>: accepting a client on a Unix socket,
  the handshake, reading what the client sends, pings, and forwarding the tablet's device
  and state.

  WinSock, time and the stop tokens belong to a world of type \<open>'w\<close> with the operations
  \<open>v2_api\<close>; a blocking call returns \<open>None\<close> while it blocks.  The members of the class are
  the record \<open>V2Server\<close>.  Two ghost fields record what leaves the process: the \<^verbatim>\<open>send\<close>
  calls and the lines printed.  The accept thread is a step function on a program counter
  and \<open>V2_step\<close> interleaves it with the ping thread, the main thread's calls and the world.
\<close>

section \<open>Parameters: the operating system\<close>

type_synonym SOCKET = nat

datatype recv_result = Received bytes | Recv_zero | Recv_error

record 'w v2_api =
  sock_accept :: "SOCKET option \<Rightarrow> 'w \<Rightarrow> (SOCKET option \<times> 'w) option"
  sock_send :: "SOCKET \<Rightarrow> bytes \<Rightarrow> 'w \<Rightarrow> int \<times> 'w"
  sock_recv :: "SOCKET option \<Rightarrow> int \<Rightarrow> 'w \<Rightarrow> (recv_result \<times> 'w) option"
  sock_error :: "'w \<Rightarrow> int"
  sock_close :: "SOCKET \<Rightarrow> 'w \<Rightarrow> 'w"
  v2_sleep_ms :: "nat \<Rightarrow> 'w \<Rightarrow> 'w"
  v2_stop_requested :: "server_thread \<Rightarrow> 'w \<Rightarrow> bool"
  v2_padding :: "'w \<Rightarrow> nat \<Rightarrow> byte"
  size_t_bits :: nat

definition SOCKET_ERROR :: int where
  "SOCKET_ERROR = - 1"

definition WSAECONNRESET :: int where
  "WSAECONNRESET = 10054"

section \<open>State\<close>

record Config =
  implementationId :: bytes
  humanName :: bytes
  humanVersion :: bytes
  homepageUrl :: bytes
  socketPath :: "bytes list"

datatype DefaultBehavior = SetIfUnset | DoNotSet | AlwaysSet

datatype console_line =
    Client_has_disconnected
  | Reading_failed int
  | Client_message bytes
  | Client_hello bytes bytes u64 bytes "8 word"
  | Unexpected_message_type u32

record V2Server =
  mConfig :: Config
  mDefaultBehavior :: DefaultBehavior
  mDevice :: "DeviceInfo option"
  mListenSocket :: "SOCKET option"
  mClientSocket :: "SOCKET option"
  ping_seq :: u64
  v2_sent :: "(SOCKET \<times> bytes) list"
  console :: "console_line list"

section \<open>Helpers of the anonymous namespace\<close>

definition ProtocolVersion :: u64 where
  "ProtocolVersion = 0x022026020501"

definition CompatibilityVersion :: "8 word" where
  "CompatibilityVersion = 1"

definition TruncateNulls :: "bytes \<Rightarrow> bytes" where
  "TruncateNulls arr = until_nul arr"

definition InitHeader :: "MessageType \<Rightarrow> nat \<Rightarrow> u32 \<Rightarrow> 'a Header_scheme \<Rightarrow> 'a Header_scheme" where
  "InitHeader mt sz tabletId msg =
     msg\<lparr>messageType := to_underlying mt, msg_size := word_of_nat sz, nonPersistentTabletId := tabletId\<rparr>"

definition CopyTo :: "nat \<Rightarrow> bytes \<Rightarrow> bytes" where
  "CopyTo N src = fill_copy N src"

datatype read_error = Socket_closed | Wsa_error int

text \<open>
  \<^verbatim>\<open>ReadNBytes\<close>: \<open>p\<close> is where in \<open>buf\<close> the destination starts; the source keeps passing
  that same address to \<^verbatim>\<open>recv\<close>.  The length argument is \<^verbatim>\<open>static_cast<int>(toRead)\<close>, and
  \<^verbatim>\<open>toRead -= result\<close> is \<^verbatim>\<open>size_t\<close> arithmetic.  \<open>None\<close>: it does not return.
\<close>

definition to_int32 :: "nat \<Rightarrow> int" where
  "to_int32 n = sint (word_of_nat n :: 32 word)"

partial_function (option) ReadNBytes ::
  "'w v2_api \<Rightarrow> SOCKET option \<Rightarrow> nat \<Rightarrow> nat \<Rightarrow> bytes \<Rightarrow> 'w \<Rightarrow> ((read_error + unit) \<times> bytes \<times> 'w) option" where
  "ReadNBytes api sock p toRead buf w =
     (if toRead = 0 then Some (Inr (), buf, w)
      else
        case sock_recv api sock (to_int32 toRead) w of
          None \<Rightarrow> None
        | Some (res, w1) \<Rightarrow>
            (case res of
               Recv_zero \<Rightarrow> Some (Inl Socket_closed, buf, w1)
             | Recv_error \<Rightarrow>
                 Some (Inl (if sock_error api w1 = WSAECONNRESET then Socket_closed
                            else Wsa_error (sock_error api w1)), buf, w1)
             | Received bs \<Rightarrow>
                 ReadNBytes api sock p (size_t_sub (size_t_bits api) toRead (length bs))
                   (write_at p bs buf) w1))"

section \<open>Sending\<close>

definition V2_SendRaw ::
  "'w v2_api \<Rightarrow> u32 \<Rightarrow> bytes \<Rightarrow> V2Server \<Rightarrow> 'w \<Rightarrow> bool result \<times> V2Server \<times> 'w" where
  "V2_SendRaw api hsize data s w =
     (if unat hsize \<noteq> length data then (Inl (Throw (Runtime_error (cstr ''Header size mismatch''))), s, w)
      else
        case mClientSocket s of
          None \<Rightarrow> (Inr False, s, w)
        | Some c \<Rightarrow>
            let (res, w1) = sock_send api c data w;
                s1 = s\<lparr>v2_sent := v2_sent s @ [(c, data)]\<rparr>
            in if res = SOCKET_ERROR then (Inr False, s1\<lparr>mClientSocket := None\<rparr>, sock_close api c w1)
               else (Inr True, s1, w1))"

definition V2_Send_DeviceInfo where
  "V2_Send_DeviceInfo api (d :: DeviceInfo) s w =
     V2_SendRaw api (msg_size d) (struct_bytes (v2_padding api w) (DeviceInfo_fields d)) s w"

definition V2_Send_State where
  "V2_Send_State api (st :: State) s w =
     V2_SendRaw api (msg_size st) (struct_bytes (v2_padding api w) (State_fields st)) s w"

definition V2_Send_Ping where
  "V2_Send_Ping api (p :: Ping) s w =
     V2_SendRaw api (msg_size p) (struct_bytes (v2_padding api w) (Ping_fields p)) s w"

definition V2_Send_Hello where
  "V2_Send_Hello api (h :: Hello) s w =
     V2_SendRaw api (msg_size (hello_header h)) (struct_bytes (v2_padding api w) (Hello_fields h)) s w"

section \<open>The handler interface\<close>

definition V2_SetDevice ::
  "'w v2_api \<Rightarrow> DeviceInfo \<Rightarrow> V2Server \<Rightarrow> 'w \<Rightarrow> unit result \<times> V2Server \<times> 'w" where
  "V2_SetDevice api device s w =
     (let d = InitHeader MT_DeviceInfo sizeof_DeviceInfo (nonPersistentTabletId device) device;
          (r, s2, w2) = V2_Send_DeviceInfo api d (s\<lparr>mDevice := Some d\<rparr>) w
      in (map_sum id (\<lambda>_. ()) r, s2, w2))"

definition V2_SetState ::
  "'w v2_api \<Rightarrow> State \<Rightarrow> V2Server \<Rightarrow> 'w \<Rightarrow> unit result \<times> V2Server \<times> 'w" where
  "V2_SetState api state s w =
     (case mDevice s of
        None \<Rightarrow> (Inl (UB Empty_optional), s, w)
      | Some d \<Rightarrow>
          let msg = InitHeader MT_State sizeof_State (nonPersistentTabletId d) state;
              (r, s2, w2) = V2_Send_State api msg s w
          in (map_sum id (\<lambda>_. ()) r, s2, w2))"

definition V2_handler :: "'w v2_api \<Rightarrow> (V2Server \<times> 'w) IHandler" where
  "V2_handler api =
     \<lparr>SetDevice = (\<lambda>d (s, w). V2_SetDevice api d s w),
      SetState = (\<lambda>st (s, w). V2_SetState api st s w)\<rparr>"

definition V2_SendDebugMessage ::
  "'w v2_api \<Rightarrow> bytes \<Rightarrow> V2Server \<Rightarrow> 'w \<Rightarrow> unit result \<times> V2Server \<times> 'w" where
  "V2_SendDebugMessage api message s w =
     (let totalSize = sizeof_Header + length message;
          h = InitHeader MT_DebugMessage totalSize 0
                \<lparr>messageType = 0, msg_size = 0, nonPersistentTabletId = 0\<rparr>;
          (r, s2, w2) = V2_SendRaw api (msg_size h) (DebugMessage_bytes h message) s w
      in (map_sum id (\<lambda>_. ()) r, s2, w2))"

section \<open>The ping thread\<close>

definition V2_ping_message :: "V2Server \<Rightarrow> Ping" where
  "V2_ping_message s =
     (InitHeader MT_Ping sizeof_Ping 0
        \<lparr>messageType = 0, msg_size = 0, nonPersistentTabletId = 0, sequenceNumber = 0\<rparr>)
       \<lparr>sequenceNumber := ping_seq s + 1\<rparr>"

datatype V2_ping_pc = Q_Loop | Q_Sleep | Q_Done

definition V2_PingLoop_step ::
  "'w v2_api \<Rightarrow> V2_ping_pc \<Rightarrow> V2Server \<Rightarrow> 'w \<Rightarrow> V2_ping_pc result \<times> V2Server \<times> 'w" where
  "V2_PingLoop_step api pc s w =
     (case pc of
        Q_Loop \<Rightarrow>
          if v2_stop_requested api Ping_thread w then (Inr Q_Done, s, w)
          else (Inr Q_Sleep, s, v2_sleep_ms api 1000 w)
      | Q_Sleep \<Rightarrow>
          if v2_stop_requested api Ping_thread w then (Inr Q_Done, s, w)
          else if mClientSocket s = None then (Inr Q_Loop, s, w)
          else
            let (r, s1, w1) = V2_Send_Ping api (V2_ping_message s) (s\<lparr>ping_seq := ping_seq s + 1\<rparr>) w
            in (map_sum id (\<lambda>_. Q_Loop) r, s1, w1)
      | Q_Done \<Rightarrow> (Inr Q_Done, s, w))"

section \<open>The accept thread\<close>

definition hello_message :: "Config \<Rightarrow> Hello" where
  "hello_message c =
     Hello_init\<lparr>protocolVersion := ProtocolVersion, compatibilityVersion := CompatibilityVersion,
       humanReadableName := CopyTo 256 (humanName c), humanReadableVersion := CopyTo 256 (humanVersion c),
       implementationID := CopyTo 256 (implementationId c)\<rparr>"

text \<open>One message of the client, read into the buffer; what is printed for it.\<close>

definition read_error_line :: "read_error \<Rightarrow> console_line" where
  "read_error_line e = (case e of Socket_closed \<Rightarrow> Client_has_disconnected | Wsa_error v \<Rightarrow> Reading_failed v)"

definition message_line :: "nat \<Rightarrow> bytes \<Rightarrow> console_line" where
  "message_line ab buf =
     (let h = Header_at buf
      in if messageType h = to_underlying MT_DebugMessage
         then Client_message (DebugMessage_message ab buf)
         else if messageType h = to_underlying MT_Hello
         then
           let hello = Hello_at buf
           in Client_hello (TruncateNulls (humanReadableName hello)) (TruncateNulls (humanReadableVersion hello))
                (protocolVersion hello) (TruncateNulls (implementationID hello)) (compatibilityVersion hello)
         else Unexpected_message_type (messageType h))"

definition read_message ::
  "'w v2_api \<Rightarrow> SOCKET option \<Rightarrow> bytes \<Rightarrow> 'w \<Rightarrow> ((read_error + console_line) \<times> bytes \<times> 'w) option" where
  "read_message api sock buf w =
     (case ReadNBytes api sock 0 sizeof_Header buf w of
        None \<Rightarrow> None
      | Some (Inl e, buf1, w1) \<Rightarrow> Some (Inl e, buf1, w1)
      | Some (Inr _, buf1, w1) \<Rightarrow>
          let n = unat (msg_size (Header_at buf1));
              buf2 = (if length buf1 < n then resize n buf1 else buf1)
          in case ReadNBytes api sock sizeof_Header (size_t_sub (size_t_bits api) n sizeof_Header) buf2 w1 of
               None \<Rightarrow> None
             | Some (Inl e, buf3, w3) \<Rightarrow> Some (Inl e, buf3, w3)
             | Some (Inr _, buf3, w3) \<Rightarrow> Some (Inr (message_line (size_t_bits api) buf3), buf3, w3))"

datatype V2_pc =
    B_Loop
  | B_Accept
  | B_Hello
  | B_Device
  | B_Serve bytes
  | B_Read bytes
  | B_Done

definition V2_reset_client :: "'w v2_api \<Rightarrow> V2Server \<Rightarrow> 'w \<Rightarrow> V2Server \<times> 'w" where
  "V2_reset_client api s w =
     (case mClientSocket s of None \<Rightarrow> (s, w) | Some c \<Rightarrow> (s\<lparr>mClientSocket := None\<rparr>, sock_close api c w))"

definition V2_reset_listen :: "'w v2_api \<Rightarrow> V2Server \<Rightarrow> 'w \<Rightarrow> V2Server \<times> 'w" where
  "V2_reset_listen api s w =
     (case mListenSocket s of None \<Rightarrow> (s, w) | Some c \<Rightarrow> (s\<lparr>mListenSocket := None\<rparr>, sock_close api c w))"

definition V2_AcceptLoop_step ::
  "'w v2_api \<Rightarrow> V2_pc \<Rightarrow> V2Server \<Rightarrow> 'w \<Rightarrow> V2_pc result \<times> V2Server \<times> 'w" where
  "V2_AcceptLoop_step api pc s w =
     (case pc of
        B_Loop \<Rightarrow>
          if v2_stop_requested api Accept_thread w
          then let (s1, w1) = V2_reset_listen api s w in (Inr B_Done, s1, w1)
          else (Inr B_Accept, s, w)
      | B_Accept \<Rightarrow>
          (case sock_accept api (mListenSocket s) w of
             None \<Rightarrow> (Inr B_Accept, s, w)
           | Some (None, w1) \<Rightarrow> (Inr B_Loop, s, w1)
           | Some (Some c, w1) \<Rightarrow>
               let (s2, w2) = V2_reset_client api s w1
               in (Inr B_Hello, s2\<lparr>mClientSocket := Some c\<rparr>, w2))
      | B_Hello \<Rightarrow>
          let (r, s1, w1) = V2_Send_Hello api (hello_message (mConfig s)) s w
          in (map_sum id (\<lambda>_. B_Device) r, s1, w1)
      | B_Device \<Rightarrow>
          (case mDevice s of
             None \<Rightarrow> (Inr (B_Serve (replicate 1024 0)), s, w)
           | Some d \<Rightarrow>
               let (r, s1, w1) = V2_Send_DeviceInfo api d s w
               in (map_sum id (\<lambda>_. B_Serve (replicate 1024 0)) r, s1, w1))
      | B_Serve buf \<Rightarrow>
          if v2_stop_requested api Accept_thread w
          then let (s1, w1) = V2_reset_client api s w in (Inr B_Loop, s1, w1)
          else (Inr (B_Read buf), s, w)
      | B_Read buf \<Rightarrow>
          (case read_message api (mClientSocket s) buf w of
             None \<Rightarrow> (Inr (B_Read buf), s, w)
           | Some (Inl e, _, w1) \<Rightarrow> (Inr B_Loop, s\<lparr>console := console s @ [read_error_line e]\<rparr>, w1)
           | Some (Inr l, buf1, w1) \<Rightarrow> (Inr (B_Serve buf1), s\<lparr>console := console s @ [l]\<rparr>, w1))
      | B_Done \<Rightarrow> (Inr B_Done, s, w))"

section \<open>The running server\<close>

record 'w V2_sys =
  v2_srv :: V2Server
  v2_acc :: V2_pc
  v2_png :: V2_ping_pc
  v2_world :: 'w
  v2_terminated :: bool

definition V2Server_init :: "Config \<Rightarrow> DefaultBehavior \<Rightarrow> V2Server" where
  "V2Server_init config db =
     \<lparr>mConfig = config, mDefaultBehavior = db, mDevice = None, mListenSocket = None, mClientSocket = None,
      ping_seq = 0, v2_sent = [], console = []\<rparr>"

text \<open>Both threads running on a server that listens on \<open>l\<close>.\<close>

definition V2_running :: "Config \<Rightarrow> DefaultBehavior \<Rightarrow> SOCKET \<Rightarrow> 'w \<Rightarrow> 'w V2_sys" where
  "V2_running config db l w =
     \<lparr>v2_srv = (V2Server_init config db)\<lparr>mListenSocket := Some l\<rparr>, v2_acc = B_Loop, v2_png = Q_Loop,
      v2_world = w, v2_terminated = False\<rparr>"

definition V2_accept_thread :: "'w v2_api \<Rightarrow> 'w V2_sys \<Rightarrow> 'w V2_sys" where
  "V2_accept_thread api y =
     (case V2_AcceptLoop_step api (v2_acc y) (v2_srv y) (v2_world y) of
        (Inl _, s, w) \<Rightarrow> y\<lparr>v2_srv := s, v2_world := w, v2_terminated := True\<rparr>
      | (Inr pc, s, w) \<Rightarrow> y\<lparr>v2_srv := s, v2_world := w, v2_acc := pc\<rparr>)"

definition V2_ping_thread :: "'w v2_api \<Rightarrow> 'w V2_sys \<Rightarrow> 'w V2_sys" where
  "V2_ping_thread api y =
     (case V2_PingLoop_step api (v2_png y) (v2_srv y) (v2_world y) of
        (Inl _, s, w) \<Rightarrow> y\<lparr>v2_srv := s, v2_world := w, v2_terminated := True\<rparr>
      | (Inr pc, s, w) \<Rightarrow> y\<lparr>v2_srv := s, v2_world := w, v2_png := pc\<rparr>)"

datatype V2_main_op = Main_call handler_call | Main_debug bytes | Main_stop_begin

definition V2_main :: "'w v2_api \<Rightarrow> V2_main_op \<Rightarrow> V2Server \<Rightarrow> 'w \<Rightarrow> unit result \<times> V2Server \<times> 'w" where
  "V2_main api m s w =
     (case m of
        Main_call c \<Rightarrow> call_handler (V2_handler api) c (s, w)
      | Main_debug text \<Rightarrow> V2_SendDebugMessage api text s w
      | Main_stop_begin \<Rightarrow> let (s1, w1) = V2_reset_listen api s w in (Inr (), s1, w1))"

definition V2_main_thread :: "'w v2_api \<Rightarrow> V2_main_op \<Rightarrow> 'w V2_sys \<Rightarrow> 'w V2_sys" where
  "V2_main_thread api m y =
     (case V2_main api m (v2_srv y) (v2_world y) of
        (Inl _, s, w) \<Rightarrow> y\<lparr>v2_srv := s, v2_world := w, v2_terminated := True\<rparr>
      | (Inr _, s, w) \<Rightarrow> y\<lparr>v2_srv := s, v2_world := w\<rparr>)"

text \<open>
  What the main thread may do: a state is only forwarded after a device
  (\<open>WintabTablet\<close> guarantees it), and a debug message fits its header's size field.
\<close>

fun main_op_ok :: "V2_main_op \<Rightarrow> V2Server \<Rightarrow> bool" where
  "main_op_ok (Main_call (Call_SetDevice d)) s = wf_DeviceInfo d"
| "main_op_ok (Main_call (Call_SetState st)) s = (mDevice s \<noteq> None)"
| "main_op_ok (Main_debug text) s = (sizeof_Header + length text < 2 ^ 32)"
| "main_op_ok Main_stop_begin s = True"

inductive V2_step :: "'w v2_api \<Rightarrow> 'w V2_sys \<Rightarrow> 'w V2_sys \<Rightarrow> bool" for api where
  accept: "\<not> v2_terminated y \<Longrightarrow> V2_step api y (V2_accept_thread api y)"
| ping: "\<not> v2_terminated y \<Longrightarrow> V2_step api y (V2_ping_thread api y)"
| main: "\<not> v2_terminated y \<Longrightarrow> main_op_ok m (v2_srv y) \<Longrightarrow> V2_step api y (V2_main_thread api m y)"
| environment: "\<not> v2_terminated y \<Longrightarrow> V2_step api y (y\<lparr>v2_world := w'\<rparr>)"

inductive V2_reachable ::
  "'w v2_api \<Rightarrow> Config \<Rightarrow> DefaultBehavior \<Rightarrow> SOCKET \<Rightarrow> nat \<Rightarrow> 'w V2_sys \<Rightarrow> bool" for api config db l where
  start: "V2_reachable api config db l 0 (V2_running config db l w)"
| step: "V2_reachable api config db l n y \<Longrightarrow> V2_step api y z \<Longrightarrow> V2_reachable api config db l (Suc n) z"

text \<open>\<^verbatim>\<open>Stop()\<close> returns once both thread functions have.\<close>

definition V2_Stop_returns :: "'w V2_sys \<Rightarrow> bool" where
  "V2_Stop_returns y \<longleftrightarrow> v2_png y = Q_Done \<and> v2_acc y = B_Done"

section \<open>What is promised\<close>

definition V2_frame_ok :: "bytes \<Rightarrow> bool" where
  "V2_frame_ok bs \<longleftrightarrow>
     unat (msg_size (Header_at bs)) = length bs \<and>
     (messageType (Header_at bs) = to_underlying MT_DebugMessage \<and> sizeof_Header \<le> length bs \<or>
      (messageType (Header_at bs), length bs) \<in>
       {(to_underlying MT_DeviceInfo, sizeof_DeviceInfo), (to_underlying MT_State, sizeof_State),
        (to_underlying MT_Ping, sizeof_Ping), (to_underlying MT_Hello, sizeof_Hello)})"

definition V2_device_ok :: "DeviceInfo \<Rightarrow> bool" where
  "V2_device_ok d \<longleftrightarrow> wf_DeviceInfo d \<and> messageType d = to_underlying MT_DeviceInfo \<and>
     msg_size d = word_of_nat sizeof_DeviceInfo"

definition V2_srv_inv :: "V2Server \<Rightarrow> bool" where
  "V2_srv_inv s \<longleftrightarrow> pred_option V2_device_ok (mDevice s) \<and> list_all (\<lambda>(c, bs). V2_frame_ok bs) (v2_sent s)"

text \<open>The receive buffer never shrinks below its initial size, which holds any \<^verbatim>\<open>Hello\<close>.\<close>

fun V2_buffer_ok :: "V2_pc \<Rightarrow> bool" where
  "V2_buffer_ok (B_Serve buf) = (1024 \<le> length buf)"
| "V2_buffer_ok (B_Read buf) = (1024 \<le> length buf)"
| "V2_buffer_ok _ = True"

definition V2_sys_inv :: "'w V2_sys \<Rightarrow> bool" where
  "V2_sys_inv y \<longleftrightarrow> V2_srv_inv (v2_srv y) \<and> V2_buffer_ok (v2_acc y) \<and> \<not> v2_terminated y"

definition V2_ping_numbers :: "(SOCKET \<times> bytes) list \<Rightarrow> nat list" where
  "V2_ping_numbers frames =
     map (\<lambda>(c, bs). unat (sequenceNumber (Ping_at bs)))
       (filter (\<lambda>(c, bs). messageType (Header_at bs) = to_underlying MT_Ping) frames)"

definition V2_numbers_inv :: "nat \<Rightarrow> V2Server \<Rightarrow> bool" where
  "V2_numbers_inv n s \<longleftrightarrow>
     unat (ping_seq s) \<le> n \<and> sorted_wrt (<) (V2_ping_numbers (v2_sent s)) \<and>
     (\<forall>k \<in> set (V2_ping_numbers (v2_sent s)). k \<le> unat (ping_seq s))"

definition V2_sent_one :: "bytes \<Rightarrow> V2Server \<Rightarrow> V2Server \<Rightarrow> bool" where
  "V2_sent_one data s s' \<longleftrightarrow>
     mConfig s' = mConfig s \<and> mDevice s' = mDevice s \<and> ping_seq s' = ping_seq s \<and>
     mListenSocket s' = mListenSocket s \<and> console s' = console s \<and>
     (mClientSocket s' = mClientSocket s \<or> mClientSocket s' = None) \<and>
     (v2_sent s' = v2_sent s \<or> (\<exists>c. mClientSocket s = Some c \<and> v2_sent s' = v2_sent s @ [(c, data)]))"

text \<open>The messages the handler interface sends for its arguments.\<close>

definition V2_device_of :: "DeviceInfo \<Rightarrow> DeviceInfo" where
  "V2_device_of d = InitHeader MT_DeviceInfo sizeof_DeviceInfo (nonPersistentTabletId d) d"

definition V2_state_of :: "DeviceInfo \<Rightarrow> State \<Rightarrow> State" where
  "V2_state_of d st = InitHeader MT_State sizeof_State (nonPersistentTabletId d) st"

text \<open>The documented behaviour of \<^verbatim>\<open>recv\<close> with a positive length.\<close>

definition recv_ok :: "'w v2_api \<Rightarrow> bool" where
  "recv_ok api \<longleftrightarrow>
     (\<forall>sock len w bs w1. 0 < len \<and> sock_recv api sock len w = Some (Received bs, w1)
        \<longrightarrow> 0 < length bs \<and> int (length bs) \<le> len)"

text \<open>\<open>delivers api sock w n cs w'\<close>: asked for \<open>n\<close> bytes in all, \<^verbatim>\<open>recv\<close> returns the pieces \<open>cs\<close>.\<close>

inductive delivers :: "'w v2_api \<Rightarrow> SOCKET option \<Rightarrow> 'w \<Rightarrow> nat \<Rightarrow> bytes list \<Rightarrow> 'w \<Rightarrow> bool"
  for api sock where
  none: "delivers api sock w 0 [] w"
| piece: "sock_recv api sock (int n) w = Some (Received c, w1) \<Longrightarrow> 0 < length c \<Longrightarrow> length c \<le> n \<Longrightarrow>
    delivers api sock w1 (n - length c) cs w2 \<Longrightarrow> delivers api sock w n (c # cs) w2"

text \<open>
  A system whose only client is socket 7 and sends the byte strings its world holds, one per
  \<^verbatim>\<open>recv\<close>; an empty one is the end of the connection.
\<close>

definition sample_recv :: "int \<Rightarrow> bytes list \<Rightarrow> (recv_result \<times> bytes list) option" where
  "sample_recv len ps =
     (case ps of
        [] \<Rightarrow> None
      | q # qs \<Rightarrow>
          Some (if q = [] then (Recv_zero, qs)
                else if len \<le> 0 then (Recv_error, ps)
                else (Received (take (nat len) q), if length q \<le> nat len then qs else drop (nat len) q # qs)))"

definition sample_v2_api :: "bytes list v2_api" where
  "sample_v2_api =
     \<lparr>sock_accept = (\<lambda>_ w. Some (Some 7, w)), sock_send = (\<lambda>_ d w. (int (length d), w)),
      sock_recv = (\<lambda>_. sample_recv), sock_error = (\<lambda>_. 10014), sock_close = (\<lambda>_ w. w),
      v2_sleep_ms = (\<lambda>_ w. w), v2_stop_requested = (\<lambda>_ _. False), v2_padding = (\<lambda>_ _. 0xCC),
      size_t_bits = 64\<rparr>"

definition sample_config :: Config where
  "sample_config =
     \<lparr>implementationId = cstr ''sample'', humanName = cstr ''Sample'', humanVersion = cstr ''1'',
      homepageUrl = [], socketPath = []\<rparr>"

definition sample_v2_ready :: "bytes list V2_sys" where
  "sample_v2_ready =
     \<lparr>v2_srv = (V2Server_init sample_config AlwaysSet)\<lparr>mListenSocket := Some 3, mDevice := Some DeviceInfo_init\<rparr>,
      v2_acc = B_Accept, v2_png = Q_Loop, v2_world = [], v2_terminated = False\<rparr>"

definition sample_debug_header :: Header where
  "sample_debug_header =
     \<lparr>messageType = to_underlying MT_DebugMessage, msg_size = 14, nonPersistentTabletId = 0\<rparr>"

text \<open>
  What a step of the system can do to the server: nothing that matters here, one well-formed
  frame that is no ping, a new device and its frame, or the next ping.
\<close>

inductive V2_effect :: "V2Server \<Rightarrow> V2Server \<Rightarrow> bool" where
  quiet: "mDevice s' = mDevice s \<Longrightarrow> v2_sent s' = v2_sent s \<Longrightarrow> ping_seq s' = ping_seq s \<Longrightarrow> V2_effect s s'"
| frame: "V2_frame_ok data \<Longrightarrow> messageType (Header_at data) \<noteq> to_underlying MT_Ping \<Longrightarrow>
    V2_sent_one data s s' \<Longrightarrow> V2_effect s s'"
| device: "V2_device_ok d \<Longrightarrow>
    V2_sent_one (struct_bytes pad (DeviceInfo_fields d)) (s\<lparr>mDevice := Some d\<rparr>) s' \<Longrightarrow> V2_effect s s'"
| ping: "V2_sent_one (struct_bytes pad (Ping_fields (V2_ping_message s))) (s\<lparr>ping_seq := ping_seq s + 1\<rparr>) s' \<Longrightarrow>
    V2_effect s s'"

section \<open>Sending\<close>

interpretation v2t: frame_sender "\<lambda>h d (s, w). V2_SendRaw api h d s w" "\<lambda>(s, w). mClientSocket s" "\<lambda>(s, w). v2_sent s"
  for api :: "'w v2_api"
  by unfold_locales (auto simp: V2_SendRaw_def Let_def split: prod.splits)

lemma V2_SendRaw_sent:
  assumes "unat hsize = length data"
  shows "\<exists>b s' w'. V2_SendRaw api hsize data s w = (Inr b, s', w') \<and> V2_sent_one data s s'"
  using assms
  by (auto simp: V2_SendRaw_def V2_sent_one_def Let_def split: option.splits prod.splits)

lemma V2_sent_one_inv:
  assumes "V2_sent_one data s s'" and "V2_srv_inv s" and "V2_frame_ok data"
  shows "V2_srv_inv s'"
  using assms by (auto simp: V2_sent_one_def V2_srv_inv_def)

lemma InitHeader_simps [simp]:
  "messageType (InitHeader mt sz t m) = to_underlying mt"
  "msg_size (InitHeader mt sz t m) = word_of_nat sz"
  "nonPersistentTabletId (InitHeader mt sz t m) = t"
  by (simp_all add: InitHeader_def)

lemma unat_sizeof_v2:
  shows "unat (word_of_nat sizeof_DeviceInfo :: u32) = sizeof_DeviceInfo"
    and "unat (word_of_nat sizeof_State :: u32) = sizeof_State"
    and "unat (word_of_nat sizeof_Ping :: u32) = sizeof_Ping"
    and "unat (word_of_nat sizeof_Hello :: u32) = sizeof_Hello"
  by (simp_all add: sizeof_consts)

lemma V2_frame_header:
  shows "Header_at (struct_bytes pad (DeviceInfo_fields d)) = Header.truncate d"
    and "Header_at (struct_bytes pad (State_fields st)) = Header.truncate st"
    and "Header_at (struct_bytes pad (Ping_fields p)) = Header.truncate p"
    and "Header_at (struct_bytes pad (Hello_fields h)) = Header.truncate (hello_header h)"
  using Header_at_append [of pad d _ "[]"] Header_at_append [of pad st _ "[]"]
    Header_at_append [of pad p _ "[]"] Header_at_append [of pad "hello_header h" _ "[]"]
  by (simp_all add: DeviceInfo_fields_def State_fields_def Ping_fields_def Hello_fields_def)

lemma truncate_simps [simp]:
  "messageType (Header.truncate h) = messageType h"
  "msg_size (Header.truncate h) = msg_size h"
  by (simp_all add: Header.truncate_def)

lemma V2_frame_ok_DeviceInfo: "V2_device_ok d \<Longrightarrow> V2_frame_ok (struct_bytes pad (DeviceInfo_fields d))"
  by (simp add: V2_frame_ok_def V2_device_ok_def V2_frame_header unat_sizeof_v2 layout_simps)

lemma V2_frame_ok_State:
  "messageType st = to_underlying MT_State \<Longrightarrow> msg_size st = word_of_nat sizeof_State \<Longrightarrow>
     V2_frame_ok (struct_bytes pad (State_fields st))"
  by (simp add: V2_frame_ok_def V2_frame_header unat_sizeof_v2 layout_simps)

lemma V2_frame_ok_Ping:
  "messageType p = to_underlying MT_Ping \<Longrightarrow> msg_size p = word_of_nat sizeof_Ping \<Longrightarrow>
     V2_frame_ok (struct_bytes pad (Ping_fields p))"
  by (simp add: V2_frame_ok_def V2_frame_header unat_sizeof_v2 layout_simps)

lemma hello_message_simps [simp]:
  "wf_Hello (hello_message c)"
  "messageType (hello_header (hello_message c)) = to_underlying MT_Hello"
  "msg_size (hello_header (hello_message c)) = word_of_nat sizeof_Hello"
  by (simp_all add: hello_message_def Hello_init_def wf_Hello_def CopyTo_def)

lemma V2_frame_ok_Hello: "V2_frame_ok (struct_bytes pad (Hello_fields (hello_message c)))"
  by (simp add: V2_frame_ok_def V2_frame_header unat_sizeof_v2 layout_simps)

section \<open>The operations keep the invariant\<close>

lemma V2_device_ok_init: "wf_DeviceInfo d \<Longrightarrow> V2_device_ok (InitHeader MT_DeviceInfo sizeof_DeviceInfo t d)"
  by (simp add: V2_device_ok_def wf_DeviceInfo_def) (simp add: InitHeader_def)

lemma V2_Send_DeviceInfo_sent:
  assumes "V2_device_ok d"
  shows "\<exists>b s' w'. V2_Send_DeviceInfo api d s w = (Inr b, s', w') \<and>
    V2_sent_one (struct_bytes (v2_padding api w) (DeviceInfo_fields d)) s s'"
  unfolding V2_Send_DeviceInfo_def
  by (rule V2_SendRaw_sent) (use assms in \<open>simp add: V2_device_ok_def layout_simps unat_sizeof_v2\<close>)

lemma V2_Send_Hello_sent:
  "\<exists>b s' w'. V2_Send_Hello api (hello_message c) s w = (Inr b, s', w') \<and>
    V2_sent_one (struct_bytes (v2_padding api w) (Hello_fields (hello_message c))) s s'"
  unfolding V2_Send_Hello_def
  by (rule V2_SendRaw_sent) (simp add: layout_simps unat_sizeof_v2)

lemma V2_Send_State_sent:
  assumes "msg_size st = word_of_nat sizeof_State"
  shows "\<exists>b s' w'. V2_Send_State api st s w = (Inr b, s', w') \<and>
    V2_sent_one (struct_bytes (v2_padding api w) (State_fields st)) s s'"
  unfolding V2_Send_State_def
  by (rule V2_SendRaw_sent) (simp add: assms layout_simps unat_sizeof_v2)

lemma V2_Send_Ping_sent:
  assumes "msg_size p = word_of_nat sizeof_Ping"
  shows "\<exists>b s' w'. V2_Send_Ping api p s w = (Inr b, s', w') \<and>
    V2_sent_one (struct_bytes (v2_padding api w) (Ping_fields p)) s s'"
  unfolding V2_Send_Ping_def
  by (rule V2_SendRaw_sent) (simp add: assms layout_simps unat_sizeof_v2)

lemma V2_state_of_simps [simp]:
  "messageType (V2_state_of d st) = to_underlying MT_State"
  "msg_size (V2_state_of d st) = word_of_nat sizeof_State"
  by (simp_all add: V2_state_of_def)

lemma V2_SetDevice_sent:
  assumes "wf_DeviceInfo d"
  shows "\<exists>s' w'. V2_SetDevice api d s w = (Inr (), s', w') \<and>
     V2_sent_one (struct_bytes (v2_padding api w) (DeviceInfo_fields (V2_device_of d)))
       (s\<lparr>mDevice := Some (V2_device_of d)\<rparr>) s'"
  using V2_Send_DeviceInfo_sent [OF V2_device_ok_init [OF assms, of "nonPersistentTabletId d"],
      of api "s\<lparr>mDevice := Some (V2_device_of d)\<rparr>" w]
  by (auto simp: V2_SetDevice_def V2_device_of_def Let_def)

lemma V2_SetState_sent:
  assumes "mDevice s = Some d"
  shows "\<exists>s' w'. V2_SetState api st s w = (Inr (), s', w') \<and>
     V2_sent_one (struct_bytes (v2_padding api w) (State_fields (V2_state_of d st))) s s'"
  using V2_Send_State_sent [of "V2_state_of d st" api s w] assms
  by (auto simp: V2_SetState_def V2_state_of_def Let_def)

lemma V2_SetDevice_inv:
  assumes "V2_srv_inv s" and "wf_DeviceInfo d"
  shows "\<exists>s' w'. V2_SetDevice api d s w = (Inr (), s', w') \<and> V2_srv_inv s' \<and> mDevice s' = Some (V2_device_of d)"
proof -
  let ?s1 = "s\<lparr>mDevice := Some (V2_device_of d)\<rparr>"
  have ok: "V2_device_ok (V2_device_of d)" using assms(2) by (simp add: V2_device_of_def V2_device_ok_init)
  obtain s' w' where r: "V2_SetDevice api d s w = (Inr (), s', w')"
    and t: "V2_sent_one (struct_bytes (v2_padding api w) (DeviceInfo_fields (V2_device_of d))) ?s1 s'"
    using V2_SetDevice_sent [OF assms(2), of api s w] by auto
  have "V2_srv_inv ?s1" using assms(1) ok by (simp add: V2_srv_inv_def)
  with t have "V2_srv_inv s'" by (rule V2_sent_one_inv) (simp add: V2_frame_ok_DeviceInfo ok)
  with r t show ?thesis by (simp add: V2_sent_one_def)
qed

lemma V2_SetState_inv:
  assumes "V2_srv_inv s" and "mDevice s = Some d"
  shows "\<exists>s' w'. V2_SetState api st s w = (Inr (), s', w') \<and> V2_srv_inv s' \<and> mDevice s' = Some d"
proof -
  obtain s' w' where r: "V2_SetState api st s w = (Inr (), s', w')"
    and t: "V2_sent_one (struct_bytes (v2_padding api w) (State_fields (V2_state_of d st))) s s'"
    using V2_SetState_sent [OF assms(2), of api st w] by auto
  have "V2_srv_inv s'" using t assms(1) by (rule V2_sent_one_inv) (simp add: V2_frame_ok_State)
  with r t assms(2) show ?thesis by (simp add: V2_sent_one_def)
qed

interpretation v2h: handler_contract "V2_handler api" "\<lambda>(s, w). V2_srv_inv s" "\<lambda>(s, w). mDevice s \<noteq> None"
  for api :: "'w v2_api"
proof unfold_locales
  fix h :: "V2Server \<times> 'w" and d
  assume "case h of (s, w) \<Rightarrow> V2_srv_inv s" and "wf_DeviceInfo d"
  then show "fst (SetDevice (V2_handler api) d h) = Inr () \<and>
      (case snd (SetDevice (V2_handler api) d h) of (s, w) \<Rightarrow> V2_srv_inv s) \<and>
      (case snd (SetDevice (V2_handler api) d h) of (s, w) \<Rightarrow> mDevice s \<noteq> None)"
    using V2_SetDevice_inv [of "fst h" d api "snd h"] by (auto simp: V2_handler_def)
next
  fix h :: "V2Server \<times> 'w" and st
  assume "case h of (s, w) \<Rightarrow> V2_srv_inv s" and "case h of (s, w) \<Rightarrow> mDevice s \<noteq> None"
  then show "fst (SetState (V2_handler api) st h) = Inr () \<and>
      (case snd (SetState (V2_handler api) st h) of (s, w) \<Rightarrow> V2_srv_inv s) \<and>
      (case snd (SetState (V2_handler api) st h) of (s, w) \<Rightarrow> mDevice s \<noteq> None)"
    using V2_SetState_inv [of "fst h" "the (mDevice (fst h))" api st "snd h"]
    by (cases h) (auto simp: V2_handler_def)
qed

section \<open>Reading\<close>

lemma to_int32_small: "n < 2 ^ 31 \<Longrightarrow> to_int32 n = int n"
  by (simp add: to_int32_def sint_uint uint_nat signed_take_bit_int_eq_self_iff unat_of_nat)

lemma length_write_at_ge: "length buf \<le> length (write_at p bs buf)"
  by (simp add: write_at_def)

declare ReadNBytes.simps [simp del]

lemma ReadNBytes_0 [simp]: "ReadNBytes api sock p 0 buf w = Some (Inr (), buf, w)"
  by (simp add: ReadNBytes.simps)

lemma ReadNBytes_length_ge:
  assumes "ReadNBytes api sock p n buf w = Some (r, buf', w')"
  shows "length buf \<le> length buf'"
proof -
  have "length buf \<le> length (fst (snd res))"
    if "ReadNBytes api sock p n buf w = Some res" for res
    using that
  proof (induction rule: ReadNBytes.raw_induct [rotated, consumes 1, case_names step])
    case (step f api sock p n buf w res)
    show ?case
    proof (cases "\<exists>bs w1. n \<noteq> 0 \<and> sock_recv api sock (to_int32 n) w = Some (Received bs, w1)")
      case True
      then obtain bs w1 where "n \<noteq> 0" "sock_recv api sock (to_int32 n) w = Some (Received bs, w1)" by blast
      then have "length (write_at p bs buf) \<le> length (fst (snd res))" using step by simp
      then show ?thesis using length_write_at_ge le_trans by blast
    next
      case False
      then show ?thesis
        using step(2) by (auto split: if_splits option.splits recv_result.splits)
    qed
  qed
  from this [OF assms] show ?thesis by simp
qed

lemma read_message_length_ge:
  assumes "read_message api sock buf w = Some (r, buf', w')"
  shows "length buf \<le> length buf'"
proof -
  obtain r1 buf1 w1 where 1: "ReadNBytes api sock 0 sizeof_Header buf w = Some (r1, buf1, w1)"
    using assms by (auto simp: read_message_def split: option.splits)
  then have le: "length buf \<le> length buf1" by (rule ReadNBytes_length_ge)
  show ?thesis
  proof (cases r1)
    case (Inl e)
    then show ?thesis using assms 1 le by (simp add: read_message_def)
  next
    case (Inr u)
    let ?n = "unat (msg_size (Header_at buf1))"
    let ?buf2 = "if length buf1 < ?n then resize ?n buf1 else buf1"
    obtain r3 where "ReadNBytes api sock sizeof_Header (size_t_sub (size_t_bits api) ?n sizeof_Header) ?buf2 w1
        = Some (r3, buf', w')"
      using assms 1 Inr by (auto simp: read_message_def Let_def split: option.splits sum.splits)
    then have "length ?buf2 \<le> length buf'" by (rule ReadNBytes_length_ge)
    then show ?thesis using le by (auto split: if_splits)
  qed
qed

lemma ReadNBytes_piece:
  assumes "0 < n" and "n < 2 ^ 31" and "sock_recv api sock (int n) w = Some (Received c, w1)" and "length c \<le> n"
  shows "ReadNBytes api sock p n buf w = ReadNBytes api sock p (n - length c) (write_at p c buf) w1"
  using assms by (subst ReadNBytes.simps) (simp add: to_int32_small size_t_sub_def)

lemma ReadNBytes_delivers:
  assumes "delivers api sock w n cs w'" and "n < 2 ^ 31"
  shows "ReadNBytes api sock p n buf w = Some (Inr (), foldl (\<lambda>b c. write_at p c b) buf cs, w')"
  using assms
proof (induction arbitrary: buf rule: delivers.induct)
  case (none w)
  then show ?case by simp
next
  case (piece n w c w1 cs w2)
  then have "ReadNBytes api sock p n buf w = ReadNBytes api sock p (n - length c) (write_at p c buf) w1"
    by (intro ReadNBytes_piece) (auto intro: Nat.gr0I)
  then show ?case using piece by simp
qed

lemma ReadNBytes_returns:
  assumes "recv_ok api" and "\<forall>len w. sock_recv api sock len w \<noteq> None" and "n < 2 ^ 31"
  shows "\<exists>r. ReadNBytes api sock p n buf w = Some r"
  using assms(3)
proof (induction n arbitrary: buf w rule: less_induct)
  case (less n)
  show ?case
  proof (cases "\<exists>bs w1. 0 < n \<and> sock_recv api sock (int n) w = Some (Received bs, w1)")
    case True
    then obtain bs w1 where r: "0 < n" "sock_recv api sock (int n) w = Some (Received bs, w1)" by blast
    with assms(1) have bs: "0 < length bs" "length bs \<le> n" by (force simp: recv_ok_def)+
    then have "\<exists>r. ReadNBytes api sock p (n - length bs) (write_at p bs buf) w1 = Some r"
      using r less by (intro less.IH) auto
    with r bs less.prems show ?thesis by (simp only: ReadNBytes_piece)
  next
    case False
    moreover have "sock_recv api sock (int n) w \<noteq> None" using assms(2) by blast
    ultimately show ?thesis
      using less.prems
      by (subst ReadNBytes.simps) (auto simp: to_int32_small split: recv_result.splits)
  qed
qed

lemma Header_at_cong:
  assumes "take sizeof_Header bs = take sizeof_Header bs'"
  shows "Header_at bs = Header_at bs'"
proof -
  have "mem_slice off 4 bs = mem_slice off 4 bs'" if "off + 4 \<le> sizeof_Header" for off
  proof -
    have "mem_slice off 4 xs = take 4 (drop off (take sizeof_Header xs))" for xs :: bytes
      using that by (simp add: mem_slice_def take_drop min_def)
    with assms show ?thesis by simp
  qed
  then show ?thesis by (simp add: Header_at_def get_u32_def sizeof_Header_def)
qed

lemma read_message_frame:
  assumes "unat (msg_size (Header_at bs)) = length bs" and "sizeof_Header \<le> length bs" and "length bs < 2 ^ 31"
    and "1024 \<le> length buf"
    and "delivers api sock w sizeof_Header [take sizeof_Header bs] w1"
    and "delivers api sock w1 (length bs - sizeof_Header) cs w2" and "concat cs = drop sizeof_Header bs"
    and "length cs \<le> 1"
  shows "\<exists>rest. read_message api sock buf w = Some (Inr (message_line (size_t_bits api) (bs @ rest)), bs @ rest, w2)"
proof -
  let ?h = "take sizeof_Header bs"
  let ?buf1 = "?h @ drop sizeof_Header buf"
  let ?buf2 = "if length ?buf1 < length bs then resize (length bs) ?buf1 else ?buf1"
  have len: "length ?h = sizeof_Header" using assms(2) by simp
  have 1: "ReadNBytes api sock 0 sizeof_Header buf w = Some (Inr (), ?buf1, w1)"
    using ReadNBytes_delivers [OF assms(5), of 0 buf] len by (simp add: write_at_def sizeof_Header_def)
  have n: "unat (msg_size (Header_at ?buf1)) = length bs"
    using Header_at_cong [of ?buf1 bs] assms(1,2) by simp
  have l1: "length ?buf1 = length buf" using assms(4) len by (simp add: sizeof_Header_def)
  have b2: "take sizeof_Header ?buf2 = ?h"
    using len assms(2) by (auto simp: take_resize)
  have cs: "cs = [] \<and> drop sizeof_Header bs = [] \<or> cs = [drop sizeof_Header bs]"
    using assms(7,8) by (cases cs) auto
  have "foldl (\<lambda>b c. write_at sizeof_Header c b) ?buf2 cs = bs @ drop (length bs) ?buf2"
    using cs
  proof
    assume "cs = [] \<and> drop sizeof_Header bs = []"
    then have "cs = []" "length bs = sizeof_Header" using assms(2) by auto
    then show ?thesis using b2 by (metis append_take_drop_id foldl_Nil order_refl take_all)
  next
    assume "cs = [drop sizeof_Header bs]"
    then have "foldl (\<lambda>b c. write_at sizeof_Header c b) ?buf2 cs =
        take sizeof_Header ?buf2 @ drop sizeof_Header bs @ drop (length bs) ?buf2"
      using assms(2) by (simp only: foldl.simps write_at_def length_drop) simp
    then show ?thesis by (simp only: b2 append_assoc [symmetric] append_take_drop_id)
  qed
  then have "ReadNBytes api sock sizeof_Header (length bs - sizeof_Header) ?buf2 w1
      = Some (Inr (), bs @ drop (length bs) ?buf2, w2)"
    using ReadNBytes_delivers [OF assms(6), of sizeof_Header ?buf2] assms(3) by simp
  then show ?thesis
    using assms(2) by (simp only: read_message_def 1 n Let_def size_t_sub_def if_True option.case prod.case sum.case) blast
qed

lemma message_line_debug:
  assumes "unat (msg_size h) = sizeof_Header + length msg" and "messageType h = to_underlying MT_DebugMessage"
  shows "message_line ab (DebugMessage_bytes h msg @ rest) = Client_message msg"
  using DebugMessage_roundtrip [OF assms(1)] assms(2) by (simp add: message_line_def)

lemma message_line_hello:
  assumes "wf_Hello h" and "messageType (hello_header h) = to_underlying MT_Hello"
  shows "message_line ab (struct_bytes pad (Hello_fields h) @ rest) =
    Client_hello (until_nul (humanReadableName h)) (until_nul (humanReadableVersion h))
      (protocolVersion h) (until_nul (implementationID h)) (compatibilityVersion h)"
proof -
  have "messageType (Header_at (struct_bytes pad (Hello_fields h) @ rest)) = to_underlying MT_Hello"
    using Header_at_append [of pad "hello_header h" _ rest] assms(2) by (simp add: Hello_fields_def)
  then show ?thesis by (simp add: message_line_def Hello_at_bytes [OF assms(1)] TruncateNulls_def)
qed

lemma to_int32_underflow:
  assumes "n < sizeof_Header" and "32 \<le> ab"
  shows "to_int32 (size_t_sub ab n sizeof_Header) = int n - int sizeof_Header"
proof -
  have "12 \<le> (2::nat) ^ 32" by simp
  also have "\<dots> \<le> 2 ^ ab" using assms(2) by (rule power_increasing) simp
  finally have le: "12 \<le> (2::nat) ^ ab" .
  obtain k where "ab = 32 + k" using assms(2) by (auto simp: le_iff_add)
  moreover have "(2::32 word) ^ 32 = 0" by simp
  ultimately have "(2::32 word) ^ ab = 0" by (simp only: power_add mult_zero_left)
  then have "(word_of_nat (size_t_sub ab n sizeof_Header) :: 32 word) = word_of_int (int n - 12)"
    using assms le by (simp add: size_t_sub_def sizeof_Header_def of_nat_diff)
  moreover have "sint (word_of_int (int n - 12) :: 32 word) = int n - 12"
    using assms(1) by (subst sint_sbintrunc') (simp add: sizeof_Header_def signed_take_bit_int_eq_self_iff)
  ultimately show ?thesis by (simp add: to_int32_def sizeof_Header_def)
qed

section \<open>Every step keeps the invariant\<close>

lemma V2_ping_message_simps [simp]:
  "messageType (V2_ping_message s) = to_underlying MT_Ping"
  "msg_size (V2_ping_message s) = word_of_nat sizeof_Ping"
  "sequenceNumber (V2_ping_message s) = ping_seq s + 1"
  by (simp_all add: V2_ping_message_def InitHeader_def)

lemma V2_effect_inv: "V2_effect s s' \<Longrightarrow> V2_srv_inv s \<Longrightarrow> V2_srv_inv s'"
proof (induction rule: V2_effect.induct)
  case (quiet s' s)
  then show ?case by (simp add: V2_srv_inv_def)
next
  case (frame data s s')
  then show ?case by (auto intro: V2_sent_one_inv)
next
  case (device d pad s s')
  then have "V2_srv_inv (s\<lparr>mDevice := Some d\<rparr>)" by (simp add: V2_srv_inv_def)
  with device(2) show ?case by (rule V2_sent_one_inv) (simp add: V2_frame_ok_DeviceInfo device(1))
next
  case (ping pad s s')
  then have "V2_srv_inv (s\<lparr>ping_seq := ping_seq s + 1\<rparr>)" by (simp add: V2_srv_inv_def)
  with ping(1) show ?case by (rule V2_sent_one_inv) (simp add: V2_frame_ok_Ping)
qed

lemma V2_frame_DebugMessage:
  assumes "sizeof_Header + length msg < 2 ^ 32"
    and "messageType h = to_underlying MT_DebugMessage" and "msg_size h = word_of_nat (sizeof_Header + length msg)"
  shows "V2_frame_ok (DebugMessage_bytes h msg)"
    and "unat (msg_size h) = length (DebugMessage_bytes h msg)"
    and "messageType (Header_at (DebugMessage_bytes h msg)) \<noteq> to_underlying MT_Ping"
proof -
  have sz: "unat (msg_size h) = sizeof_Header + length msg"
    using assms(1,3) by (simp add: unat_of_nat take_bit_nat_eq_self del: of_nat_add)
  moreover have len: "length (DebugMessage_bytes h msg) = sizeof_Header + length msg"
    by (simp add: DebugMessage_bytes_def Header_fields_def sizeof_Header_def)
  moreover have hd: "Header_at (DebugMessage_bytes h msg) = h"
    using DebugMessage_roundtrip(2) [of h msg "[]"] sz by simp
  ultimately show "V2_frame_ok (DebugMessage_bytes h msg)"
    and "unat (msg_size h) = length (DebugMessage_bytes h msg)"
    and "messageType (Header_at (DebugMessage_bytes h msg)) \<noteq> to_underlying MT_Ping"
    using assms(2) by (simp_all add: V2_frame_ok_def)
qed

lemma V2_SendDebugMessage_effect:
  assumes "sizeof_Header + length msg < 2 ^ 32"
  shows "\<exists>s' w'. V2_SendDebugMessage api msg s w = (Inr (), s', w') \<and> V2_effect s s'"
proof -
  define h where "h = InitHeader MT_DebugMessage (sizeof_Header + length msg) 0
                \<lparr>messageType = 0, msg_size = 0, nonPersistentTabletId = 0\<rparr>"
  note f = V2_frame_DebugMessage [OF assms, of h]
  obtain b s' w' where "V2_SendRaw api (msg_size h) (DebugMessage_bytes h msg) s w = (Inr b, s', w')"
    "V2_sent_one (DebugMessage_bytes h msg) s s'"
    using V2_SendRaw_sent [OF f(2), of api s w] by (auto simp: h_def)
  then show ?thesis
    using V2_effect.frame [OF f(1) f(3)]
    by (auto simp: V2_SendDebugMessage_def Let_def h_def [symmetric]) (simp_all add: h_def)
qed

lemma V2_effect_same [simp]: "V2_effect s s"
  by (simp add: V2_effect.quiet)

lemma V2_reset_effect:
  "V2_reset_listen api s w = (s', w') \<Longrightarrow> V2_effect s s'"
  "V2_reset_client api s w = (s', w') \<Longrightarrow> V2_effect s (s'\<lparr>mClientSocket := c\<rparr>)"
  "V2_reset_client api s w = (s', w') \<Longrightarrow> V2_effect s s'"
  by (auto simp: V2_reset_listen_def V2_reset_client_def V2_effect.quiet split: option.splits)

lemma V2_main_effect:
  assumes "V2_srv_inv s" and "main_op_ok m s"
  shows "\<exists>s' w'. V2_main api m s w = (Inr (), s', w') \<and> V2_effect s s'"
proof (cases m)
  case (Main_call c)
  show ?thesis
  proof (cases c)
    case (Call_SetDevice d)
    with assms Main_call have wf: "wf_DeviceInfo d" by simp
    then have "V2_device_ok (V2_device_of d)" by (simp add: V2_device_of_def V2_device_ok_init)
    then show ?thesis
      using V2_SetDevice_sent [OF wf, of api s w] Main_call Call_SetDevice
      by (auto simp: V2_main_def V2_handler_def intro: V2_effect.device)
  next
    case (Call_SetState st)
    with assms Main_call obtain d where d: "mDevice s = Some d" by auto
    obtain s' w' where r: "V2_SetState api st s w = (Inr (), s', w')"
      and t: "V2_sent_one (struct_bytes (v2_padding api w) (State_fields (V2_state_of d st))) s s'"
      using V2_SetState_sent [OF d, of api st w] by auto
    have "V2_effect s s'"
      by (rule V2_effect.frame [OF _ _ t]) (simp_all add: V2_frame_ok_State V2_frame_header)
    then show ?thesis using r Main_call Call_SetState by (simp add: V2_main_def V2_handler_def)
  qed
next
  case (Main_debug msg)
  then show ?thesis using assms V2_SendDebugMessage_effect [of msg api s w] by (simp add: V2_main_def)
next
  case Main_stop_begin
  then show ?thesis
    by (cases "V2_reset_listen api s w") (simp add: V2_main_def V2_reset_effect)
qed


lemma V2_ping_effect:
  "\<exists>pc' s' w'. V2_PingLoop_step api pc s w = (Inr pc', s', w') \<and> V2_effect s s'"
proof (cases "pc = Q_Sleep \<and> \<not> v2_stop_requested api Ping_thread w \<and> mClientSocket s \<noteq> None")
  case True
  obtain b s' w' where r: "V2_Send_Ping api (V2_ping_message s) (s\<lparr>ping_seq := ping_seq s + 1\<rparr>) w = (Inr b, s', w')"
    and t: "V2_sent_one (struct_bytes (v2_padding api w) (Ping_fields (V2_ping_message s)))
      (s\<lparr>ping_seq := ping_seq s + 1\<rparr>) s'"
    using V2_Send_Ping_sent [of "V2_ping_message s" api "s\<lparr>ping_seq := ping_seq s + 1\<rparr>" w] by auto
  from V2_effect.ping [OF t] show ?thesis using True r by (auto simp: V2_PingLoop_step_def)
next
  case False
  then show ?thesis
    by (cases pc) (auto simp: V2_PingLoop_step_def)
qed

lemma V2_hello_effect:
  "\<exists>b s' w'. V2_Send_Hello api (hello_message c) s w = (Inr b, s', w') \<and> V2_effect s s'"
proof -
  obtain b s' w' where r: "V2_Send_Hello api (hello_message c) s w = (Inr b, s', w')"
    and t: "V2_sent_one (struct_bytes (v2_padding api w) (Hello_fields (hello_message c))) s s'"
    using V2_Send_Hello_sent [of api c s w] by auto
  have "V2_effect s s'"
    by (rule V2_effect.frame [OF _ _ t]) (simp_all add: V2_frame_ok_Hello V2_frame_header)
  with r show ?thesis by simp
qed

lemma V2_device_effect:
  assumes "V2_device_ok d"
  shows "\<exists>b s' w'. V2_Send_DeviceInfo api d s w = (Inr b, s', w') \<and> V2_effect s s'"
proof -
  obtain b s' w' where r: "V2_Send_DeviceInfo api d s w = (Inr b, s', w')"
    and t: "V2_sent_one (struct_bytes (v2_padding api w) (DeviceInfo_fields d)) s s'"
    using V2_Send_DeviceInfo_sent [OF assms, of api s w] by auto
  have "V2_effect s s'"
    by (rule V2_effect.frame [OF _ _ t])
      (use assms in \<open>simp_all add: V2_frame_ok_DeviceInfo V2_frame_header V2_device_ok_def\<close>)
  with r show ?thesis by simp
qed

lemma V2_accept_effect:
  assumes "V2_srv_inv s" and "V2_buffer_ok pc"
  shows "\<exists>pc' s' w'. V2_AcceptLoop_step api pc s w = (Inr pc', s', w') \<and> V2_effect s s' \<and> V2_buffer_ok pc'"
proof (cases pc)
  case B_Loop
  then show ?thesis
    by (cases "V2_reset_listen api s w") (auto simp: V2_AcceptLoop_step_def V2_reset_effect)
next
  case B_Accept
  then show ?thesis
    by (auto simp: V2_AcceptLoop_step_def V2_reset_effect split: option.split prod.split)
next
  case B_Hello
  then show ?thesis
    using V2_hello_effect [of api "mConfig s" s w] by (auto simp: V2_AcceptLoop_step_def)
next
  case B_Device
  show ?thesis
  proof (cases "mDevice s")
    case None
    then show ?thesis using B_Device by (simp add: V2_AcceptLoop_step_def V2_effect.quiet)
  next
    case (Some d)
    with assms(1) have "V2_device_ok d" by (simp add: V2_srv_inv_def)
    from V2_device_effect [OF this, of api s w] show ?thesis
      using B_Device Some by (auto simp: V2_AcceptLoop_step_def)
  qed
next
  case (B_Serve buf)
  then show ?thesis
    using assms by (cases "V2_reset_client api s w") (auto simp: V2_AcceptLoop_step_def V2_reset_effect)
next
  case (B_Read buf)
  show ?thesis
  proof (cases "read_message api (mClientSocket s) buf w")
    case None
    then show ?thesis using B_Read assms by (simp add: V2_AcceptLoop_step_def)
  next
    case (Some x)
    obtain r buf1 w1 where x: "x = (r, buf1, w1)" by (cases x)
    with Some have "length buf \<le> length buf1" by (simp add: read_message_length_ge)
    then show ?thesis
      using B_Read assms Some x
      by (auto simp: V2_AcceptLoop_step_def V2_effect.quiet split: sum.split)
  qed
next
  case B_Done
  then show ?thesis by (simp add: V2_AcceptLoop_step_def V2_effect.quiet)
qed

lemma V2_step_effect:
  assumes "V2_step api y z" and "V2_sys_inv y"
  shows "V2_effect (v2_srv y) (v2_srv z)" and "V2_buffer_ok (v2_acc z)" and "\<not> v2_terminated z"
  using assms
proof (atomize (full), induction rule: V2_step.induct)
  case (accept y)
  then show ?case
    using V2_accept_effect [of "v2_srv y" "v2_acc y" api "v2_world y"]
    by (auto simp: V2_accept_thread_def V2_sys_inv_def)
next
  case (ping y)
  then show ?case
    using V2_ping_effect [of api "v2_png y" "v2_srv y" "v2_world y"]
    by (auto simp: V2_ping_thread_def V2_sys_inv_def)
next
  case (main y m)
  then show ?case
    using V2_main_effect [of "v2_srv y" m api "v2_world y"] by (auto simp: V2_main_thread_def V2_sys_inv_def)
next
  case (environment y w')
  then show ?case by (simp add: V2_sys_inv_def V2_effect.quiet)
qed

lemma V2_reachable_inv: "V2_reachable api config db l n y \<Longrightarrow> V2_sys_inv y"
proof (induction rule: V2_reachable.induct)
  case (start w)
  then show ?case by (simp add: V2_sys_inv_def V2_running_def V2Server_init_def V2_srv_inv_def)
next
  case (step n y z)
  then show ?case
    using V2_step_effect [OF step(2) step(3)] V2_effect_inv by (auto simp: V2_sys_inv_def)
qed

lemma V2_ping_numbers_append:
  "V2_ping_numbers (xs @ ys) = V2_ping_numbers xs @ V2_ping_numbers ys"
  by (simp add: V2_ping_numbers_def)

lemma V2_ping_numbers_other:
  "messageType (Header_at bs) \<noteq> to_underlying MT_Ping \<Longrightarrow> V2_ping_numbers [(c, bs)] = []"
  "V2_ping_numbers [(c, struct_bytes pad (Ping_fields (V2_ping_message s)))] = [unat (ping_seq s + 1)]"
  using Ping_at_bytes [of pad "V2_ping_message s" "[]"]
  by (simp_all add: V2_ping_numbers_def V2_frame_header)

lemma V2_effect_numbers:
  assumes "V2_effect s s'" and "V2_numbers_inv n s" and "Suc n < 2 ^ 64"
  shows "V2_numbers_inv (Suc n) s'"
  using assms
proof (induction rule: V2_effect.induct)
  case (quiet s' s)
  then show ?case by (auto simp: V2_numbers_inv_def)
next
  case (frame data s s')
  then show ?case
    by (auto simp: V2_numbers_inv_def V2_sent_one_def V2_ping_numbers_append V2_ping_numbers_other)
next
  case (device d pad s s')
  then have "messageType (Header_at (struct_bytes pad (DeviceInfo_fields d))) \<noteq> to_underlying MT_Ping"
    by (simp add: V2_frame_header V2_device_ok_def)
  with device show ?case
    by (auto simp: V2_numbers_inv_def V2_sent_one_def V2_ping_numbers_append V2_ping_numbers_other)
next
  case (ping pad s s')
  then have "unat (ping_seq s + 1) = Suc (unat (ping_seq s))"
    by (simp add: V2_numbers_inv_def unat_word_ariths)
  with ping show ?case
    by (auto simp: V2_numbers_inv_def V2_sent_one_def V2_ping_numbers_append V2_ping_numbers_other
        sorted_wrt_append less_Suc_eq_le intro: le_SucI)
qed

lemma V2_reachable_numbers:
  "V2_reachable api config db l n y \<Longrightarrow> n < 2 ^ 64 \<Longrightarrow> V2_numbers_inv n (v2_srv y)"
proof (induction rule: V2_reachable.induct)
  case (start w)
  then show ?case
    by (simp add: V2_numbers_inv_def V2_running_def V2Server_init_def V2_ping_numbers_def)
next
  case (step n y z)
  then show ?case
    using V2_step_effect(1) [OF step(2) V2_reachable_inv [OF step(1)]] V2_effect_numbers by simp
qed

section \<open>Threads\<close>

lemma read_message_blocks:
  assumes "\<forall>sock len w. sock_recv api sock len w = None"
  shows "read_message api sock buf w = None"
proof -
  have "ReadNBytes api sock 0 sizeof_Header buf w = None"
    using assms by (subst ReadNBytes.simps) (simp add: sizeof_Header_def)
  then show ?thesis by (simp add: read_message_def)
qed

lemma V2_recv_blocks:
  assumes "\<forall>sock len w. sock_recv api sock len w = None" and "V2_step api y z" and "v2_acc y = B_Read buf"
  shows "v2_acc z = B_Read buf"
  using assms(2,3) read_message_blocks [OF assms(1)]
  by (induction rule: V2_step.induct)
    (auto simp: V2_accept_thread_def V2_AcceptLoop_step_def V2_ping_thread_def V2_main_thread_def
      split: prod.splits sum.splits)

lemma V2_SendRaw_ok:
  assumes "unat hsize = length data" and "mClientSocket s = Some c"
    and "\<And>w. fst (sock_send api c data w) \<noteq> SOCKET_ERROR"
  shows "\<exists>w'. V2_SendRaw api hsize data s w = (Inr True, s\<lparr>v2_sent := v2_sent s @ [(c, data)]\<rparr>, w')"
  using assms by (auto simp: V2_SendRaw_def Let_def split_beta)

lemma V2_ping_first:
  assumes "sock_accept api (Some l) w = Some (Some c, w1)"
    and "\<And>t. \<not> v2_stop_requested api t w" and "\<not> v2_stop_requested api Ping_thread w1"
  shows "\<exists>y pad. V2_reachable api config db l 6 y \<and> v2_acc y = B_Hello \<and>
    v2_sent (v2_srv y) = [(c, struct_bytes pad (Ping_fields (V2_ping_message (V2Server_init config db))))]"
proof -
  let ?y0 = "V2_running config db l w"
  let ?y1 = "V2_ping_thread api ?y0"
  let ?y2 = "?y1\<lparr>v2_world := w\<rparr>"
  let ?y3 = "V2_accept_thread api ?y2"
  let ?y4 = "V2_accept_thread api ?y3"
  let ?y5 = "?y4\<lparr>v2_world := w1\<rparr>"
  let ?y6 = "V2_ping_thread api ?y5"
  note defs = V2_ping_thread_def V2_accept_thread_def V2_running_def V2Server_init_def V2_PingLoop_step_def
    V2_AcceptLoop_step_def V2_reset_client_def V2_Send_Ping_def V2_SendRaw_def layout_simps unat_sizeof_v2
  have sz: "length (struct_bytes pad (Ping_fields p)) = sizeof_Ping" for pad p by (simp add: layout_simps)
  have live: "\<not> v2_terminated ?y0" "\<not> v2_terminated ?y1" "\<not> v2_terminated ?y2" "\<not> v2_terminated ?y3"
    "\<not> v2_terminated ?y4" "\<not> v2_terminated ?y5"
    using assms by (simp_all add: defs)
  have "V2_reachable api config db l 6 ?y6"
    using V2_reachable.step [OF V2_reachable.step [OF V2_reachable.step [OF V2_reachable.step [OF V2_reachable.step
        [OF V2_reachable.step [OF V2_reachable.start V2_step.ping [OF live(1)]] V2_step.environment [OF live(2)]]
        V2_step.accept [OF live(3)]] V2_step.accept [OF live(4)]] V2_step.environment [OF live(5)]]
        V2_step.ping [OF live(6)]]
    by (simp add: numeral_eq_Suc)
  moreover have "v2_acc ?y6 = B_Hello"
    using assms by (simp add: defs sz split_beta Let_def)
  moreover have "v2_sent (v2_srv ?y6) =
      [(c, struct_bytes (v2_padding api w1) (Ping_fields (V2_ping_message (V2Server_init config db))))]"
    using assms by (simp add: defs sz split_beta Let_def V2_ping_message_def)
  ultimately show ?thesis by blast
qed

lemma V2_SetState_writes:
  assumes "mDevice s = Some d" and "mClientSocket s = Some c" and "V2_SetState api st s w = (r, s', w')"
  shows "v2_sent s' = v2_sent s @ [(c, struct_bytes (v2_padding api w) (State_fields (V2_state_of d st)))]"
  using assms
  by (auto simp: V2_SetState_def V2_state_of_def V2_Send_State_def V2_SendRaw_def Let_def layout_simps unat_sizeof_v2
      split: prod.splits if_splits)

lemma V2_SendDebugMessage_writes:
  assumes "sizeof_Header + length msg < 2 ^ 32" and "mClientSocket s = Some c"
    and "V2_SendDebugMessage api msg s w = (r, s', w')"
  shows "\<exists>h. v2_sent s' = v2_sent s @ [(c, DebugMessage_bytes h msg)] \<and>
    unat (msg_size h) = sizeof_Header + length msg \<and> messageType h = to_underlying MT_DebugMessage"
proof -
  define h where "h = InitHeader MT_DebugMessage (sizeof_Header + length msg) 0
                \<lparr>messageType = 0, msg_size = 0, nonPersistentTabletId = 0\<rparr>"
  have "messageType h = to_underlying MT_DebugMessage" "msg_size h = word_of_nat (sizeof_Header + length msg)"
    by (simp_all add: h_def)
  note f = V2_frame_DebugMessage [OF assms(1) this]
  have "length (DebugMessage_bytes h msg) = sizeof_Header + length msg"
    by (simp add: DebugMessage_bytes_def Header_fields_def sizeof_Header_def)
  then show ?thesis
    using assms(2,3) f by (intro exI [of _ h])
      (auto simp: V2_SendDebugMessage_def h_def [symmetric] V2_SendRaw_def Let_def split: prod.splits if_splits,
       simp_all add: h_def)
qed

lemma V2_greeting_steps:
  assumes "\<not> v2_terminated y" and "v2_acc y = B_Accept" and "mDevice (v2_srv y) = Some d" and "V2_device_ok d"
    and "sock_accept api (mListenSocket (v2_srv y)) (v2_world y) = Some (Some c, w1)"
    and "\<And>data w. fst (sock_send api c data w) \<noteq> SOCKET_ERROR"
  shows "\<exists>pad1 pad2.
    v2_sent (v2_srv ((V2_accept_thread api ^^ 3) y)) = v2_sent (v2_srv y) @
      [(c, struct_bytes pad1 (Hello_fields (hello_message (mConfig (v2_srv y))))),
       (c, struct_bytes pad2 (DeviceInfo_fields d))] \<and>
    v2_acc ((V2_accept_thread api ^^ 3) y) = B_Serve (replicate 1024 0)"
proof -
  obtain s0 w0 where r0: "V2_reset_client api (v2_srv y) w1 = (s0, w0)" by fastforce
  then have s0: "mConfig s0 = mConfig (v2_srv y)" "mDevice s0 = Some d" "v2_sent s0 = v2_sent (v2_srv y)"
    using assms(3) by (auto simp: V2_reset_client_def split: option.splits)
  let ?s = "s0\<lparr>mClientSocket := Some c\<rparr>"
  let ?hello = "struct_bytes (v2_padding api w0) (Hello_fields (hello_message (mConfig (v2_srv y))))"
  let ?s1 = "?s\<lparr>v2_sent := v2_sent ?s @ [(c, ?hello)]\<rparr>"
  obtain w2 where w2: "V2_Send_Hello api (hello_message (mConfig (v2_srv y))) ?s w0 = (Inr True, ?s1, w2)"
    using V2_SendRaw_ok [of "msg_size (hello_header (hello_message (mConfig (v2_srv y))))" ?hello ?s c api w0]
      assms(6) unfolding V2_Send_Hello_def by (auto simp: layout_simps unat_sizeof_v2)
  let ?dev = "struct_bytes (v2_padding api w2) (DeviceInfo_fields d)"
  obtain w3 where w3: "V2_Send_DeviceInfo api d ?s1 w2
      = (Inr True, ?s1\<lparr>v2_sent := v2_sent ?s1 @ [(c, ?dev)]\<rparr>, w3)"
    using V2_SendRaw_ok [of "msg_size d" ?dev ?s1 c api w2] assms(4,6)
    unfolding V2_Send_DeviceInfo_def V2_device_ok_def by (auto simp: layout_simps unat_sizeof_v2)
  have 1: "V2_accept_thread api y = y\<lparr>v2_srv := ?s, v2_world := w0, v2_acc := B_Hello\<rparr>"
    using assms r0 by (simp add: V2_accept_thread_def V2_AcceptLoop_step_def)
  have 2: "V2_accept_thread api (V2_accept_thread api y) = y\<lparr>v2_srv := ?s1, v2_world := w2, v2_acc := B_Device\<rparr>"
    unfolding 1 using w2 by (simp add: V2_accept_thread_def V2_AcceptLoop_step_def s0)
  have "V2_accept_thread api (V2_accept_thread api (V2_accept_thread api y)) =
      y\<lparr>v2_srv := ?s1\<lparr>v2_sent := v2_sent ?s1 @ [(c, ?dev)]\<rparr>, v2_world := w3, v2_acc := B_Serve (replicate 1024 0)\<rparr>"
    unfolding 2 using w3 by (simp add: V2_accept_thread_def V2_AcceptLoop_step_def s0)
  then show ?thesis
    by (intro exI [of _ "v2_padding api w0"] exI [of _ "v2_padding api w2"])
      (simp add: numeral_eq_Suc s0)
qed

lemma V2_reachable_thread:
  assumes "V2_reachable api config db l n y" and "\<not> v2_terminated y"
  shows "V2_reachable api config db l (Suc n) (V2_accept_thread api y)"
    and "V2_reachable api config db l (Suc n) (V2_ping_thread api y)"
    and "main_op_ok m (v2_srv y) \<Longrightarrow> V2_reachable api config db l (Suc n) (V2_main_thread api m y)"
  using assms V2_reachable.step V2_step.accept V2_step.ping V2_step.main by blast+

lemma sample_v2_start:
  "V2_reachable sample_v2_api sample_config AlwaysSet 3 0 (V2_running sample_config AlwaysSet 3 [])"
  "\<not> v2_terminated (V2_running sample_config AlwaysSet 3 [])"
  by (rule V2_reachable.start) (simp add: V2_running_def)

lemma DeviceInfo_init_ok [simp]: "wf_DeviceInfo DeviceInfo_init" "V2_device_ok DeviceInfo_init"
  by (simp_all add: V2_device_ok_def wf_DeviceInfo_def) (simp_all add: DeviceInfo_init_def)

lemma write_at_props:
  assumes "p + length c \<le> length buf"
  shows "length (write_at p c buf) = length buf" and "take p (write_at p c buf) = take p buf"
    and "mem_slice p (length c) (write_at p c buf) = c"
  using assms by (simp_all add: write_at_def mem_slice_def)

lemma foldl_write_at:
  assumes "list_all (\<lambda>c. p + length c \<le> length buf) cs"
  shows "length (foldl (\<lambda>b c. write_at p c b) buf cs) = length buf"
    and "take p (foldl (\<lambda>b c. write_at p c b) buf cs) = take p buf"
  using assms
proof (induction cs rule: rev_induct)
  case (snoc c cs)
  { case 1 then show ?case using snoc by (simp add: write_at_props) }
  { case 2 then show ?case using snoc by (simp add: write_at_props) }
qed simp_all

lemma delivers_bounded: "delivers api sock w n cs w' \<Longrightarrow> list_all (\<lambda>c. length c \<le> n) cs"
proof (induction rule: delivers.induct)
  case (piece n w c w1 cs w2)
  then show ?case by (auto simp: list_all_iff)
qed simp

lemma delivers_pieces_in_bounds:
  assumes "delivers api sock w n (cs @ [c]) w'" and "p + n \<le> length buf"
  shows "length (foldl (\<lambda>b c. write_at p c b) buf (cs @ [c])) = length buf"
    and "take p (foldl (\<lambda>b c. write_at p c b) buf (cs @ [c])) = take p buf"
    and "mem_slice p (length c) (foldl (\<lambda>b c. write_at p c b) buf (cs @ [c])) = c"
proof -
  have "list_all (\<lambda>c. p + length c \<le> length buf) (cs @ [c])"
    using delivers_bounded [OF assms(1)] assms(2) by (auto simp: list_all_iff)
  from foldl_write_at [OF this] foldl_write_at(1) [of p buf cs] this
  show "length (foldl (\<lambda>b c. write_at p c b) buf (cs @ [c])) = length buf"
    and "take p (foldl (\<lambda>b c. write_at p c b) buf (cs @ [c])) = take p buf"
    and "mem_slice p (length c) (foldl (\<lambda>b c. write_at p c b) buf (cs @ [c])) = c"
    by (simp_all add: write_at_props)
qed

section \<open>Properties\<close>





text \<open>C20: with a device announced and a client connected, \<^verbatim>\<open>SetState\<close> sends exactly one frame, from
  which the client reads the tablet's state unchanged, with the header of a state message that
  carries the device's tablet id.\<close>

theorem V2_SetState_client:
  assumes "mDevice s = Some d" and "mClientSocket s = Some c" and "V2_SetState api st s w = (r, s', w')"
  shows "\<exists>bs. v2_sent s' = v2_sent s @ [(c, bs)] \<and> length bs = sizeof_State \<and>
    State_at bs = st\<lparr>messageType := to_underlying MT_State, msg_size := word_of_nat sizeof_State,
      nonPersistentTabletId := nonPersistentTabletId d\<rparr>"
proof -
  let ?bs = "struct_bytes (v2_padding api w) (State_fields (V2_state_of d st))"
  have "State_at ?bs = V2_state_of d st" using State_at_bytes [of _ _ "[]"] by simp
  then show ?thesis
    using V2_SetState_writes [OF assms]
    by (intro exI [of _ ?bs]) (simp add: layout_simps V2_state_of_def InitHeader_def)
qed

theorem V2_SetState_client_witness:
  "\<exists>bs. v2_sent (fst (snd (V2_SetState sample_v2_api (State_init\<lparr>pressure := 512\<rparr>)
      ((V2Server_init sample_config AlwaysSet)\<lparr>mDevice := Some DeviceInfo_init, mClientSocket := Some 7\<rparr>) []))) = [(7, bs)] \<and>
      pressure (State_at bs) = 512"
proof -
  let ?s = "(V2Server_init sample_config AlwaysSet)\<lparr>mDevice := Some DeviceInfo_init, mClientSocket := Some 7\<rparr>"
  let ?st = "State_init\<lparr>pressure := 512\<rparr>"
  obtain r s' w' where r: "V2_SetState sample_v2_api ?st ?s [] = (r, s', w')"
    by (cases "V2_SetState sample_v2_api ?st ?s []")
  have f: "\<exists>bs. v2_sent s' = v2_sent ?s @ [(7, bs)] \<and> length bs = sizeof_State \<and>
    State_at bs = ?st\<lparr>messageType := to_underlying MT_State, msg_size := word_of_nat sizeof_State,
      nonPersistentTabletId := nonPersistentTabletId DeviceInfo_init\<rparr>"
    by (rule V2_SetState_client [OF _ _ r]) simp_all
  show ?thesis unfolding r using f by (auto simp: V2Server_init_def)
qed

text \<open>The greeting.  When a client connects while a device is known and sending works, the
  accept thread's next three steps send exactly two frames: the hello message built from the
  configuration, then the device; the thread then waits for messages of the client.\<close>

theorem V2_greeting:
  assumes "\<not> v2_terminated y" and "v2_acc y = B_Accept" and "mDevice (v2_srv y) = Some d" and "V2_device_ok d"
    and "sock_accept api (mListenSocket (v2_srv y)) (v2_world y) = Some (Some c, w1)"
    and "\<And>data w. fst (sock_send api c data w) \<noteq> SOCKET_ERROR"
  shows "\<exists>hello dev.
    v2_sent (v2_srv ((V2_accept_thread api ^^ 3) y)) = v2_sent (v2_srv y) @ [(c, hello), (c, dev)] \<and>
    Hello_at hello = hello_message (mConfig (v2_srv y)) \<and> DeviceInfo_at dev = d \<and>
    v2_acc ((V2_accept_thread api ^^ 3) y) = B_Serve (replicate 1024 0)"
proof -
  have "Hello_at (struct_bytes pad (Hello_fields (hello_message k))) = hello_message k" for pad k
    using Hello_at_bytes [of "hello_message k" pad "[]"] by simp
  moreover have "DeviceInfo_at (struct_bytes pad (DeviceInfo_fields d)) = d" for pad
    using DeviceInfo_at_bytes [of d pad "[]"] assms(4) by (simp add: V2_device_ok_def)
  ultimately show ?thesis using V2_greeting_steps [OF assms] by metis
qed

theorem V2_greeting_witness:
  "\<exists>hello dev.
    v2_sent (v2_srv ((V2_accept_thread sample_v2_api ^^ 3) sample_v2_ready)) = [(7, hello), (7, dev)] \<and>
    humanReadableName (Hello_at hello) = fill_copy 256 (cstr ''Sample'') \<and> DeviceInfo_at dev = DeviceInfo_init"
  using V2_greeting [of sample_v2_ready DeviceInfo_init sample_v2_api 7 "[]"]
  by (auto simp: sample_v2_ready_def V2_running_def V2Server_init_def sample_v2_api_def SOCKET_ERROR_def
      hello_message_def sample_config_def CopyTo_def)



text \<open>A client's debug message whose header and text each arrive in one piece is printed
  exactly, whatever the receive buffer held before.\<close>

theorem V2_reads_debug_message:
  assumes "messageType h = to_underlying MT_DebugMessage" and "unat (msg_size h) = sizeof_Header + length msg"
    and "sizeof_Header + length msg < 2 ^ 31" and "1024 \<le> length buf" and "msg \<noteq> []"
    and "delivers api sock w sizeof_Header [take sizeof_Header (DebugMessage_bytes h msg)] w1"
    and "delivers api sock w1 (length msg) [msg] w2"
  shows "\<exists>buf'. read_message api sock buf w = Some (Inr (Client_message msg), buf', w2)"
proof -
  let ?bs = "DebugMessage_bytes h msg"
  have len: "length ?bs = sizeof_Header + length msg" and tail: "drop sizeof_Header ?bs = msg"
    by (simp_all add: DebugMessage_bytes_def Header_fields_def sizeof_Header_def)
  have hd: "Header_at ?bs = h" using DebugMessage_roundtrip(2) [OF assms(2), of "[]"] by simp
  obtain rest where "read_message api sock buf w = Some (Inr (message_line (size_t_bits api) (?bs @ rest)), ?bs @ rest, w2)"
    using read_message_frame [of ?bs buf api sock w w1 "[msg]" w2] assms len tail hd by auto
  then show ?thesis using message_line_debug [OF assms(2,1)] by simp
qed

theorem V2_reads_debug_message_witness:
  "\<exists>buf'. read_message sample_v2_api (Some 7) (replicate 1024 0)
     [take 12 (DebugMessage_bytes sample_debug_header (cstr ''hi'')), cstr ''hi''] =
     Some (Inr (Client_message (cstr ''hi'')), buf', [])"
proof (rule V2_reads_debug_message)
  let ?h = "take 12 (DebugMessage_bytes sample_debug_header (cstr ''hi''))"
  have len: "length ?h = 12" by (simp add: DebugMessage_bytes_def Header_fields_def)
  show "delivers sample_v2_api (Some 7) [?h, cstr ''hi''] sizeof_Header [take sizeof_Header (DebugMessage_bytes sample_debug_header (cstr ''hi''))] [cstr ''hi'']"
    using len by (intro delivers.intros) (auto simp: sample_v2_api_def sample_recv_def sizeof_Header_def delivers.none)
  show "delivers sample_v2_api (Some 7) [cstr ''hi''] (length (cstr ''hi'')) [cstr ''hi''] []"
    by (intro delivers.intros) (auto simp: sample_v2_api_def sample_recv_def cstr_def delivers.none)
qed (simp_all add: sample_debug_header_def sizeof_Header_def cstr_def)

text \<open>A client's hello message whose header and body each arrive in one piece is printed with
  its fields cut at the first NUL.\<close>

theorem V2_reads_hello:
  assumes "wf_Hello h" and "messageType (hello_header h) = to_underlying MT_Hello"
    and "msg_size (hello_header h) = word_of_nat sizeof_Hello" and "1024 \<le> length buf"
    and "bs = struct_bytes pad (Hello_fields h)"
    and "delivers api sock w sizeof_Header [take sizeof_Header bs] w1"
    and "delivers api sock w1 (sizeof_Hello - sizeof_Header) [drop sizeof_Header bs] w2"
  shows "\<exists>buf'. read_message api sock buf w =
    Some (Inr (Client_hello (until_nul (humanReadableName h)) (until_nul (humanReadableVersion h))
      (protocolVersion h) (until_nul (implementationID h)) (compatibilityVersion h)), buf', w2)"
proof -
  have len: "length bs = sizeof_Hello" using assms(1,5) by (simp add: layout_simps)
  have hd: "Header_at bs = Header.truncate (hello_header h)" by (simp add: assms(5) V2_frame_header)
  obtain rest where "read_message api sock buf w = Some (Inr (message_line (size_t_bits api) (bs @ rest)), bs @ rest, w2)"
    using read_message_frame [of bs buf api sock w w1 "[drop sizeof_Header bs]" w2] assms(3,4,6,7) len hd
    by (auto simp: unat_sizeof_v2 sizeof_Hello_def sizeof_Header_def)
  then show ?thesis using message_line_hello [OF assms(1,2)] assms(5) by simp
qed

theorem V2_reads_hello_witness:
  "\<exists>buf'. read_message sample_v2_api (Some 7) (replicate 1024 0)
     [take 12 (struct_bytes (\<lambda>_. 0) (Hello_fields (hello_message sample_config))),
      drop 12 (struct_bytes (\<lambda>_. 0) (Hello_fields (hello_message sample_config)))] =
     Some (Inr (Client_hello (cstr ''Sample'') (cstr ''1'') ProtocolVersion (cstr ''sample'') 1), buf', [])"
proof -
  define bs where bs: "bs = struct_bytes (\<lambda>_. 0) (Hello_fields (hello_message sample_config))"
  have len: "length bs = 800" by (simp add: bs layout_simps sizeof_Hello_def)
  have 1: "delivers sample_v2_api (Some 7) [take 12 bs, drop 12 bs] sizeof_Header [take sizeof_Header bs] [drop 12 bs]"
    using len by (intro delivers.intros) (auto simp: sample_v2_api_def sample_recv_def sizeof_Header_def delivers.none)
  have 2: "delivers sample_v2_api (Some 7) [drop 12 bs] (sizeof_Hello - sizeof_Header) [drop sizeof_Header bs] []"
    using len by (intro delivers.intros)
      (auto simp: sample_v2_api_def sample_recv_def sizeof_Header_def sizeof_Hello_def delivers.none)
  have "until_nul (fill_copy 256 (cstr ''Sample'')) = cstr ''Sample''" "until_nul (fill_copy 256 (cstr ''1'')) = cstr ''1''"
    "until_nul (fill_copy 256 (cstr ''sample'')) = cstr ''sample''"
    unfolding until_nul_fill_copy by (simp_all add: cstr_def until_nul_def)
  then show ?thesis
    using V2_reads_hello [OF _ _ _ _ bs 1 2, of "replicate 1024 0"]
    by (simp add: bs [symmetric])
      (simp add: hello_message_def sample_config_def CopyTo_def CompatibilityVersion_def)
qed

text \<open>C31: \<^verbatim>\<open>ReadNBytes\<close> stores every piece at the start of its destination.  When the requested bytes
  arrive in several pieces the call succeeds, but the destination begins with the last piece, so
  what arrived before is overwritten.\<close>

theorem ReadNBytes_split_read:
  assumes "delivers api sock w n (cs @ [c]) w'" and "n < 2 ^ 31" and "p + n \<le> length buf"
  shows "\<exists>buf'. ReadNBytes api sock p n buf w = Some (Inr (), buf', w') \<and>
    length buf' = length buf \<and> take p buf' = take p buf \<and> mem_slice p (length c) buf' = c"
  using ReadNBytes_delivers [OF assms(1,2), of p buf] delivers_pieces_in_bounds [OF assms(1,3)]
  by simp

theorem ReadNBytes_split_read_witness:
  "\<exists>buf'. ReadNBytes sample_v2_api (Some 7) 0 4 (replicate 1024 0) [[1, 2], [3, 4]] = Some (Inr (), buf', []) \<and>
     mem_slice 0 2 buf' = [3, 4]"
proof -
  have "delivers sample_v2_api (Some 7) [[1, 2], [3, 4]] 4 ([[1, 2]] @ [[3, 4]]) []"
    by (simp, (rule delivers.piece, simp add: sample_v2_api_def sample_recv_def, simp, simp)+)
      (simp add: delivers.none)
  from ReadNBytes_split_read [OF this, of 0 "replicate 1024 0"] show ?thesis
    by auto (metis numeral_2_eq_2)
qed

text \<open>A client header that announces fewer bytes than a header has makes the server ask
  \<^verbatim>\<open>recv\<close> for a negative number of bytes.  If \<^verbatim>\<open>recv\<close> refuses that, the message is reported as a read
  error and nothing is written to the buffer by the second read.\<close>

theorem V2_undersized_header:
  assumes "unat (msg_size (Header_at hdr)) < sizeof_Header" and "length hdr = sizeof_Header"
    and "32 \<le> size_t_bits api" and "1024 \<le> length buf"
    and "delivers api sock w sizeof_Header [hdr] w1"
    and "sock_recv api sock (int (unat (msg_size (Header_at hdr))) - int sizeof_Header) w1 = Some (Recv_error, w2)"
  shows "\<exists>e. read_message api sock buf w = Some (Inl e, hdr @ drop sizeof_Header buf, w2)"
proof -
  let ?n = "unat (msg_size (Header_at hdr))"
  let ?buf1 = "hdr @ drop sizeof_Header buf"
  have 1: "ReadNBytes api sock 0 sizeof_Header buf w = Some (Inr (), ?buf1, w1)"
    using ReadNBytes_delivers [OF assms(5), of 0 buf] assms(2) by (simp add: write_at_def sizeof_Header_def)
  have n: "unat (msg_size (Header_at ?buf1)) = ?n"
    using Header_at_cong [of ?buf1 hdr] assms(2) by simp
  have len: "\<not> length ?buf1 < ?n" using assms(1,2) by simp
  have "size_t_sub (size_t_bits api) ?n sizeof_Header \<noteq> 0"
  proof
    assume "size_t_sub (size_t_bits api) ?n sizeof_Header = 0"
    then have "to_int32 (size_t_sub (size_t_bits api) ?n sizeof_Header) = 0" by (simp add: to_int32_def)
    moreover have "int ?n < int sizeof_Header" using assms(1) by (simp only: of_nat_less_iff)
    ultimately show False using to_int32_underflow [OF assms(1,3)] by linarith
  qed
  then have "\<exists>e. ReadNBytes api sock sizeof_Header (size_t_sub (size_t_bits api) ?n sizeof_Header) ?buf1 w1
      = Some (Inl e, ?buf1, w2)"
    using to_int32_underflow [OF assms(1,3)] assms(6) by (subst ReadNBytes.simps) simp
  then show ?thesis
    using len by (auto simp: read_message_def 1 n Let_def)
qed

theorem V2_undersized_header_witness:
  "\<exists>e. read_message sample_v2_api (Some 7) (replicate 1024 0) [replicate 12 0, [1]] =
     Some (Inl e, replicate 12 0 @ drop 12 (replicate 1024 0), [[1]])"
proof -
  have "delivers sample_v2_api (Some 7) [replicate 12 0, [1]] sizeof_Header [replicate 12 0] [[1]]"
    by (rule delivers.piece, simp add: sample_v2_api_def sample_recv_def sizeof_Header_def)
      (simp_all add: sizeof_Header_def delivers.none)
  moreover have "msg_size (Header_at (replicate 12 0)) = 0"
    by (simp add: Header_at_def get_u32_def mem_slice_def numeral_eq_Suc)
  ultimately show ?thesis
    using V2_undersized_header [of "replicate 12 0" sample_v2_api "replicate 1024 0" "Some 7" "[replicate 12 0, [1]]" "[[1]]" "[[1]]"]
    by (simp add: sample_v2_api_def sample_recv_def sizeof_Header_def)
qed

text \<open>The hello message is not always the first message a client gets: the ping thread can run
  between the moment the client becomes visible and the greeting, so that a reachable state of the
  server has sent nothing but a ping.\<close>

theorem V2_ping_before_hello:
  assumes "sock_accept api (Some l) w = Some (Some c, w1)"
    and "\<And>t. \<not> v2_stop_requested api t w" and "\<not> v2_stop_requested api Ping_thread w1"
  shows "\<exists>n y bs. V2_reachable api config db l n y \<and> v2_acc y = B_Hello \<and> v2_sent (v2_srv y) = [(c, bs)] \<and>
    messageType (Header_at bs) = to_underlying MT_Ping"
proof -
  have "messageType (Header_at (struct_bytes pad (Ping_fields (V2_ping_message s)))) = to_underlying MT_Ping" for pad s
    by (simp add: V2_frame_header)
  then show ?thesis using V2_ping_first [OF assms, of config db] by metis
qed

theorem V2_ping_before_hello_witness:
  "\<exists>n y bs. V2_reachable sample_v2_api sample_config AlwaysSet 3 n y \<and> v2_acc y = B_Hello \<and>
    v2_sent (v2_srv y) = [(7, bs)] \<and> messageType (Header_at bs) = to_underlying MT_Ping"
  by (rule V2_ping_before_hello [of _ _ "[]" _ "[]"]) (simp_all add: sample_v2_api_def)

text \<open>\<^verbatim>\<open>Stop()\<close> cannot return while the accept thread is reading from a client that stays
  connected and silent: closing the listening socket does not end that read.\<close>

theorem V2_Stop_hangs:
  assumes "\<forall>sock len w. sock_recv api sock len w = None" and "v2_acc y = B_Read buf"
    and "(V2_step api)\<^sup>*\<^sup>* y z"
  shows "\<not> V2_Stop_returns z"
proof -
  from assms(3) have "v2_acc z = B_Read buf"
    by induction (use assms(2) V2_recv_blocks [OF assms(1)] in auto)
  then show ?thesis by (simp add: V2_Stop_returns_def)
qed

theorem V2_Stop_hangs_witness:
  "\<not> V2_Stop_returns (V2_main_thread (sample_v2_api\<lparr>sock_recv := (\<lambda>_ _ _. None)\<rparr>) Main_stop_begin
       (sample_v2_ready\<lparr>v2_acc := B_Read (replicate 1024 0)\<rparr>))"
  by (rule V2_Stop_hangs [of "sample_v2_api\<lparr>sock_recv := (\<lambda>_ _ _. None)\<rparr>"
        "sample_v2_ready\<lparr>v2_acc := B_Read (replicate 1024 0)\<rparr>" "replicate 1024 0"])
    (auto simp: sample_v2_ready_def intro!: r_into_rtranclp V2_step.main)

text \<open>\<^verbatim>\<open>SendDebugMessage\<close> with a client connected sends exactly one frame, from which the client
  reads the text back.\<close>

theorem V2_SendDebugMessage_client:
  assumes "sizeof_Header + length msg < 2 ^ 32" and "mClientSocket s = Some c"
    and "V2_SendDebugMessage api msg s w = (r, s', w')"
  shows "\<exists>bs. v2_sent s' = v2_sent s @ [(c, bs)] \<and> V2_frame_ok bs \<and> DebugMessage_message ab bs = msg"
proof -
  obtain h where "v2_sent s' = v2_sent s @ [(c, DebugMessage_bytes h msg)]"
    and sz: "unat (msg_size h) = sizeof_Header + length msg" and "messageType h = to_underlying MT_DebugMessage"
    using V2_SendDebugMessage_writes [OF assms] by blast
  moreover have "msg_size h = word_of_nat (sizeof_Header + length msg)" using sz by (metis of_nat_unat ucast_id)
  ultimately show ?thesis
    using V2_frame_DebugMessage(1) [OF assms(1)] DebugMessage_roundtrip(1) [OF sz, of ab "[]"] by auto
qed

theorem V2_SendDebugMessage_client_witness:
  "\<exists>bs. v2_sent (fst (snd (V2_SendDebugMessage sample_v2_api (cstr ''hi'')
      (v2_srv (sample_v2_ready\<lparr>v2_srv := (v2_srv sample_v2_ready)\<lparr>mClientSocket := Some 7\<rparr>\<rparr>)) []))) = [(7, bs)] \<and>
      DebugMessage_message 64 bs = cstr ''hi''"
proof -
  let ?s = "v2_srv (sample_v2_ready\<lparr>v2_srv := (v2_srv sample_v2_ready)\<lparr>mClientSocket := Some 7\<rparr>\<rparr>)"
  obtain r s' w' where r: "V2_SendDebugMessage sample_v2_api (cstr ''hi'') ?s [] = (r, s', w')"
    by (cases "V2_SendDebugMessage sample_v2_api (cstr ''hi'') ?s []")
  have f: "\<exists>bs. v2_sent s' = v2_sent ?s @ [(7, bs)] \<and> V2_frame_ok bs \<and> DebugMessage_message 64 bs = cstr ''hi''"
    by (rule V2_SendDebugMessage_client [OF _ _ r]) (simp_all add: sizeof_Header_def)
  show ?thesis unfolding r using f by (auto simp: sample_v2_ready_def V2Server_init_def)
qed

end
