(* ===== verification/WinTab.thy ===== *)
theory WinTab
  imports Wire_Layout
begin

text \<open>
  The part of the WinTab interface the adapter uses: the message numbers, packet bits and
  information categories of \<^verbatim>\<open>include/wintab/WINTAB.H\<close>, its structs \<^verbatim>\<open>AXIS\<close> and \<^verbatim>\<open>LOGCONTEXTW\<close>, and
  the packet structs that \<^verbatim>\<open>include/wintab/PKTDEF.H\<close> declares for the adapter's \<^verbatim>\<open>PACKETDATA\<close> and
  \<^verbatim>\<open>PACKETEXPKEYS\<close>.  \<^verbatim>\<open>LONG\<close> members are kept as their 32 bits and read with \<open>sint\<close>.
\<close>

section \<open>Constants\<close>

definition WT_DEFBASE :: u32 where "WT_DEFBASE = 0x7FF0"

definition WT_PACKET :: u32 where "WT_PACKET = WT_DEFBASE + 0"

definition WT_CTXOVERLAP :: u32 where "WT_CTXOVERLAP = WT_DEFBASE + 4"

definition WT_PROXIMITY :: u32 where "WT_PROXIMITY = WT_DEFBASE + 5"

definition WT_PACKETEXT :: u32 where "WT_PACKETEXT = WT_DEFBASE + 8"

definition PK_CHANGED :: u32 where "PK_CHANGED = 0x0008"

definition PK_BUTTONS :: u32 where "PK_BUTTONS = 0x0040"

definition PK_X :: u32 where "PK_X = 0x0080"

definition PK_Y :: u32 where "PK_Y = 0x0100"

definition PK_Z :: u32 where "PK_Z = 0x0200"

definition PK_NORMAL_PRESSURE :: u32 where "PK_NORMAL_PRESSURE = 0x0400"

definition WTI_INTERFACE :: u32 where "WTI_INTERFACE = 1"

definition IFC_WINTABID :: u32 where "IFC_WINTABID = 1"

definition WTI_DEFCONTEXT :: u32 where "WTI_DEFCONTEXT = 3"

definition WTI_DEVICES :: u32 where "WTI_DEVICES = 100"

definition DVC_NAME :: u32 where "DVC_NAME = 1"

definition DVC_X :: u32 where "DVC_X = 12"

definition DVC_Y :: u32 where "DVC_Y = 13"

definition DVC_NPRESSURE :: u32 where "DVC_NPRESSURE = 15"

definition DVC_PNPID :: u32 where "DVC_PNPID = 19"

definition WTI_EXTENSIONS :: u32 where "WTI_EXTENSIONS = 300"

definition EXT_TAG :: u32 where "EXT_TAG = 2"

definition EXT_MASK :: u32 where "EXT_MASK = 3"

definition CXO_MESSAGES :: u32 where "CXO_MESSAGES = 0x0004"

definition CXS_ONTOP :: u32 where "CXS_ONTOP = 0x0004"

definition WTX_OBT :: u32 where "WTX_OBT = 0"

definition WTX_EXPKEYS2 :: u32 where "WTX_EXPKEYS2 = 8"

text \<open>The packet data the adapter asks for.\<close>

definition PACKETDATA :: u32 where
  "PACKETDATA = PK_X OR PK_Y OR PK_Z OR PK_BUTTONS OR PK_NORMAL_PRESSURE OR PK_CHANGED"

definition PACKETMODE :: u32 where "PACKETMODE = 0"

section \<open>Memory of a local variable without initialiser\<close>

text \<open>A byte nobody has stored is \<open>None\<close>; reading it is reading an indeterminate value.\<close>

type_synonym memory = "byte option list"

definition mem_store :: "bytes \<Rightarrow> memory \<Rightarrow> memory" where
  "mem_store bs mem = write_at 0 (map Some bs) mem"

definition mem_bytes :: "nat \<Rightarrow> nat \<Rightarrow> memory \<Rightarrow> bytes option" where
  "mem_bytes off n mem =
     (let bs = mem_slice off n mem
      in if length bs = n \<and> list_all (\<lambda>b. b \<noteq> None) bs then Some (map the bs) else None)"

definition mem_u8 :: "nat \<Rightarrow> memory \<Rightarrow> 8 word option" where
  "mem_u8 off mem = map_option (\<lambda>bs. word_of_nat (le_nat bs)) (mem_bytes off 1 mem)"

definition mem_u32 :: "nat \<Rightarrow> memory \<Rightarrow> u32 option" where
  "mem_u32 off mem = map_option (\<lambda>bs. word_of_nat (le_nat bs)) (mem_bytes off 4 mem)"

section \<open>Structs\<close>

record AXIS =
  axMin :: u32
  axMax :: u32
  axUnits :: u32
  axResolution :: u32

definition AXIS_fields :: "AXIS \<Rightarrow> cfield list" where
  "AXIS_fields a = [U32 (axMin a), U32 (axMax a), U32 (axUnits a), U32 (axResolution a)]"

definition sizeof_AXIS :: nat where "sizeof_AXIS = 16"

definition LCNAMELEN :: nat where "LCNAMELEN = 40"

record LOGCONTEXTW =
  lcName :: wchars
  lcOptions :: u32
  lcStatus :: u32
  lcLocks :: u32
  lcMsgBase :: u32
  lcDevice :: u32
  lcPktRate :: u32
  lcPktData :: u32
  lcPktMode :: u32
  lcMoveMask :: u32
  lcBtnDnMask :: u32
  lcBtnUpMask :: u32
  lcInOrgX :: u32
  lcInOrgY :: u32
  lcInOrgZ :: u32
  lcInExtX :: u32
  lcInExtY :: u32
  lcInExtZ :: u32
  lcOutOrgX :: u32
  lcOutOrgY :: u32
  lcOutOrgZ :: u32
  lcOutExtX :: u32
  lcOutExtY :: u32
  lcOutExtZ :: u32
  lcSensX :: u32
  lcSensY :: u32
  lcSensZ :: u32
  lcSysMode :: u32
  lcSysOrgX :: u32
  lcSysOrgY :: u32
  lcSysExtX :: u32
  lcSysExtY :: u32
  lcSysSensX :: u32
  lcSysSensY :: u32

definition LOGCONTEXTW_fields :: "LOGCONTEXTW \<Rightarrow> cfield list" where
  "LOGCONTEXTW_fields c =
     [WCharArray (lcName c), U32 (lcOptions c), U32 (lcStatus c), U32 (lcLocks c), U32 (lcMsgBase c),
      U32 (lcDevice c), U32 (lcPktRate c), U32 (lcPktData c), U32 (lcPktMode c),
      U32 (lcMoveMask c), U32 (lcBtnDnMask c), U32 (lcBtnUpMask c), U32 (lcInOrgX c),
      U32 (lcInOrgY c), U32 (lcInOrgZ c), U32 (lcInExtX c), U32 (lcInExtY c),
      U32 (lcInExtZ c), U32 (lcOutOrgX c), U32 (lcOutOrgY c), U32 (lcOutOrgZ c),
      U32 (lcOutExtX c), U32 (lcOutExtY c), U32 (lcOutExtZ c), U32 (lcSensX c),
      U32 (lcSensY c), U32 (lcSensZ c), U32 (lcSysMode c), U32 (lcSysOrgX c),
      U32 (lcSysOrgY c), U32 (lcSysExtX c), U32 (lcSysExtY c), U32 (lcSysSensX c),
      U32 (lcSysSensY c)]"

definition sizeof_LOGCONTEXTW :: nat where "sizeof_LOGCONTEXTW = 212"

definition LOGCONTEXTW_at :: "bytes \<Rightarrow> LOGCONTEXTW" where
  "LOGCONTEXTW_at bs =
     \<lparr>lcName = get_wchars 0 LCNAMELEN bs,
      lcOptions = get_u32 80 bs, lcStatus = get_u32 84 bs, lcLocks = get_u32 88 bs,
      lcMsgBase = get_u32 92 bs, lcDevice = get_u32 96 bs, lcPktRate = get_u32 100 bs,
      lcPktData = get_u32 104 bs, lcPktMode = get_u32 108 bs, lcMoveMask = get_u32 112 bs,
      lcBtnDnMask = get_u32 116 bs, lcBtnUpMask = get_u32 120 bs, lcInOrgX = get_u32 124 bs,
      lcInOrgY = get_u32 128 bs, lcInOrgZ = get_u32 132 bs, lcInExtX = get_u32 136 bs,
      lcInExtY = get_u32 140 bs, lcInExtZ = get_u32 144 bs, lcOutOrgX = get_u32 148 bs,
      lcOutOrgY = get_u32 152 bs, lcOutOrgZ = get_u32 156 bs, lcOutExtX = get_u32 160 bs,
      lcOutExtY = get_u32 164 bs, lcOutExtZ = get_u32 168 bs, lcSensX = get_u32 172 bs,
      lcSensY = get_u32 176 bs, lcSensZ = get_u32 180 bs, lcSysMode = get_u32 184 bs,
      lcSysOrgX = get_u32 188 bs, lcSysOrgY = get_u32 192 bs, lcSysExtX = get_u32 196 bs,
      lcSysExtY = get_u32 200 bs, lcSysSensX = get_u32 204 bs, lcSysSensY = get_u32 208 bs\<rparr>"

record PACKET =
  pkChanged :: u32
  pkButtons :: u32
  pkX :: u32
  pkY :: u32
  pkZ :: u32
  pkNormalPressure :: u32

definition PACKET_fields :: "PACKET \<Rightarrow> cfield list" where
  "PACKET_fields p =
     [U32 (pkChanged p), U32 (pkButtons p), U32 (pkX p), U32 (pkY p), U32 (pkZ p), U32 (pkNormalPressure p)]"

definition sizeof_PACKET :: nat where "sizeof_PACKET = 24"

definition PACKET_at :: "bytes \<Rightarrow> PACKET" where
  "PACKET_at bs =
     \<lparr>pkChanged = get_u32 0 bs, pkButtons = get_u32 4 bs, pkX = get_u32 8 bs, pkY = get_u32 12 bs,
      pkZ = get_u32 16 bs, pkNormalPressure = get_u32 20 bs\<rparr>"

text \<open>
  \<^verbatim>\<open>PACKETEXT\<close> is an \<^verbatim>\<open>EXTENSIONBASE\<close> and an \<^verbatim>\<open>EXPKEYSDATA\<close>; its first member is a context handle, of
  pointer size.
\<close>

record EXPKEYSDATA =
  nTablet :: "8 word"
  nControl :: "8 word"
  nLocation :: "8 word"
  nReserved :: "8 word"
  nState :: u32

record EXTENSIONBASE =
  nContext :: u64
  nStatus :: u32
  nTime :: u32
  nSerialNumber :: u32

record PACKETEXT =
  pkBase :: EXTENSIONBASE
  pkExpKeys :: EXPKEYSDATA

definition handle_field :: "nat \<Rightarrow> u64 \<Rightarrow> cfield" where
  "handle_field arch h = (if arch = 64 then U64 h else U32 (ucast h))"

text \<open>On 64-bit the base is padded to a multiple of 8 before the next struct starts.\<close>

definition EXTENSIONBASE_fields :: "nat \<Rightarrow> EXTENSIONBASE \<Rightarrow> cfield list" where
  "EXTENSIONBASE_fields arch b = [handle_field arch (nContext b), U32 (nStatus b), U32 (nTime b), U32 (nSerialNumber b)]"

definition EXPKEYSDATA_fields :: "EXPKEYSDATA \<Rightarrow> cfield list" where
  "EXPKEYSDATA_fields k = [U8 (nTablet k), U8 (nControl k), U8 (nLocation k), U8 (nReserved k), U32 (nState k)]"

definition PACKETEXT_bytes :: "(nat \<Rightarrow> byte) \<Rightarrow> nat \<Rightarrow> PACKETEXT \<Rightarrow> bytes" where
  "PACKETEXT_bytes pad arch p =
     struct_bytes pad (EXTENSIONBASE_fields arch (pkBase p)) @ struct_bytes pad (EXPKEYSDATA_fields (pkExpKeys p))"

definition offsetof_pkExpKeys :: "nat \<Rightarrow> nat" where
  "offsetof_pkExpKeys arch = (if arch = 64 then 24 else 16)"

definition sizeof_PACKETEXT :: "nat \<Rightarrow> nat" where
  "sizeof_PACKETEXT arch = offsetof_pkExpKeys arch + 8"

section \<open>Sizes and round trips\<close>

lemmas wt_field_defs =
  AXIS_fields_def LOGCONTEXTW_fields_def PACKET_fields_def EXTENSIONBASE_fields_def EXPKEYSDATA_fields_def
lemmas wt_sizeof_consts =
  sizeof_AXIS_def sizeof_LOGCONTEXTW_def sizeof_PACKET_def sizeof_PACKETEXT_def offsetof_pkExpKeys_def LCNAMELEN_def

lemma sizeof_AXIS_fields [layout_simps]: "sizeof (AXIS_fields a) = sizeof_AXIS"
  by (simp add: wt_field_defs wt_sizeof_consts sizeof_def struct_align_def align_up_def)

lemma sizeof_LOGCONTEXTW_fields [layout_simps]:
  "length (lcName c) = LCNAMELEN \<Longrightarrow> sizeof (LOGCONTEXTW_fields c) = sizeof_LOGCONTEXTW"
  by (simp add: wt_field_defs wt_sizeof_consts sizeof_def struct_align_def align_up_def)

lemma sizeof_PACKET_fields [layout_simps]: "sizeof (PACKET_fields p) = sizeof_PACKET"
  by (simp add: wt_field_defs wt_sizeof_consts sizeof_def struct_align_def align_up_def)

lemma PACKET_at_bytes: "PACKET_at (struct_bytes pad (PACKET_fields p) @ rest) = p"
  unfolding PACKET_at_def PACKET_fields_def
  by (rule PACKET.equality) (simp_all, (rule get_at, simp add: align_up_def Let_def)+)

lemma LOGCONTEXTW_at_bytes:
  assumes "length (lcName c) = LCNAMELEN"
  shows "LOGCONTEXTW_at (struct_bytes pad (LOGCONTEXTW_fields c) @ rest) = c"
  using assms unfolding LOGCONTEXTW_at_def LOGCONTEXTW_fields_def
  by (intro LOGCONTEXTW.equality) (simp_all, (rule get_at; simp add: align_up_def Let_def LCNAMELEN_def)+)

end
