(* ===== verification/InjectDll.thy ===== *)
theory InjectDll
  imports Adapter_Prelude "HOL-Library.Sublist"
begin

text \<open>
  Loading the hook library into a driver process (\<^verbatim>\<open>src/InjectDll.cpp\<close>).  The Win32 functions are
  parameters on a world.  Every call that acquires or releases a resource of the system, and
  every line printed, is recorded as an event, so that the order of the destructors' calls is part
  of the result.  \<open>None\<close>: the call does not return (\<^verbatim>\<open>WaitForSingleObject\<close> with \<^verbatim>\<open>INFINITE\<close>, or a
  query that keeps asking for a larger buffer).
\<close>

section \<open>Parameters: the operating system\<close>

type_synonym path = "wchars list"
type_synonym HMODULE = nat

text \<open>
  An entry of the process list at its offset in the buffer.  \<open>ImageName\<close> is \<open>None\<close> for a null
  buffer pointer.
\<close>

record process_entry =
  NextEntryOffset :: nat
  ImageName :: "wchars option"
  UniqueProcessId :: u64

record 'w inject_api =
  fs_exists :: "path \<Rightarrow> 'w \<Rightarrow> bool"
  fs_absolute :: "path \<Rightarrow> 'w \<Rightarrow> wchars"
  OpenProcess :: "u32 \<Rightarrow> 'w \<Rightarrow> HANDLE option \<times> 'w"
  inj_last_error :: "'w \<Rightarrow> int"
  EnumProcessModules :: "HANDLE \<Rightarrow> nat \<Rightarrow> 'w \<Rightarrow> (HMODULE list \<times> nat) option"
  GetModuleBaseNameW :: "HANDLE \<Rightarrow> HMODULE \<Rightarrow> 'w \<Rightarrow> wchars option"
  VirtualAllocEx :: "HANDLE \<Rightarrow> nat \<Rightarrow> 'w \<Rightarrow> nat option \<times> 'w"
  VirtualFreeEx :: "HANDLE \<Rightarrow> nat \<Rightarrow> 'w \<Rightarrow> 'w"
  WriteProcessMemory :: "HANDLE \<Rightarrow> nat \<Rightarrow> wchars \<Rightarrow> 'w \<Rightarrow> bool \<times> 'w"
  LoadLibraryW_address :: "'w \<Rightarrow> nat option"
  CreateRemoteThread :: "HANDLE \<Rightarrow> nat \<Rightarrow> nat \<Rightarrow> 'w \<Rightarrow> HANDLE option \<times> 'w"
  WaitForSingleObject :: "HANDLE \<Rightarrow> 'w \<Rightarrow> 'w option"
  inj_CloseHandle :: "HANDLE \<Rightarrow> 'w \<Rightarrow> 'w"
  NtQuerySystemInformation :: "u32 \<Rightarrow> 'w \<Rightarrow> (bool \<times> u32 \<times> (nat \<Rightarrow> process_entry)) \<times> 'w"
  sizeof_SYSTEM_PROCESS_INFORMATION :: nat

datatype inject_event =
    Ev_open HANDLE
  | Ev_close HANDLE
  | Ev_alloc HANDLE nat
  | Ev_free HANDLE nat
  | Ev_write nat wchars
  | Ev_start HANDLE nat nat
  | Ev_already_loaded u32
  | Ev_injected wchars u32

definition E_INVALIDARG :: int where
  "E_INVALIDARG = - 2147024809"

definition ERROR_ACCESS_DENIED_code :: int where
  "ERROR_ACCESS_DENIED_code = 5"

text \<open>\<^verbatim>\<open>THROW_LAST_ERROR\<close> and its variants.\<close>

definition throw_last_error :: "'w inject_api \<Rightarrow> 'w \<Rightarrow> 'a result" where
  "throw_last_error api w = Inl (Throw (Result_exception (HRESULT_FROM_WIN32 (inj_last_error api w))))"

section \<open>InjectDll\<close>

text \<open>\<^verbatim>\<open>_wcsicmp(a, b) == 0\<close> in the C locale.\<close>

definition wlower :: "wchar \<Rightarrow> wchar" where
  "wlower c = (if 65 \<le> c \<and> c \<le> 90 then c + 32 else c)"

definition wcsicmp_eq :: "wchars \<Rightarrow> wchars \<Rightarrow> bool" where
  "wcsicmp_eq a b \<longleftrightarrow> map wlower (until_nul a) = map wlower (until_nul b)"

definition module_capacity :: nat where
  "module_capacity = 1024"

text \<open>The loop over the modules, from index \<open>i\<close> on, \<open>n\<close> of them left.\<close>

fun module_loop :: "'w inject_api \<Rightarrow> HANDLE \<Rightarrow> wchars \<Rightarrow> HMODULE list \<Rightarrow> nat \<Rightarrow> nat \<Rightarrow> 'w \<Rightarrow> bool result" where
  "module_loop api process dllName modules i 0 w = Inr False"
| "module_loop api process dllName modules i (Suc n) w =
     (if length modules \<le> i then Inl (UB Out_of_bounds_read)
      else
        case GetModuleBaseNameW api process (modules ! i) w of
          None \<Rightarrow> module_loop api process dllName modules (Suc i) n w
        | Some szModName \<Rightarrow>
            if wcsicmp_eq szModName dllName then Inr True
            else module_loop api process dllName modules (Suc i) n w)"

definition already_loaded :: "'w inject_api \<Rightarrow> HANDLE \<Rightarrow> wchars \<Rightarrow> 'w \<Rightarrow> bool result" where
  "already_loaded api process dllName w =
     (case EnumProcessModules api process module_capacity w of
        None \<Rightarrow> Inr False
      | Some (ms, n) \<Rightarrow>
          let modules = take module_capacity ms @ replicate (module_capacity - length ms) 0
          in module_loop api process dllName modules 0 n w)"

text \<open>From the write of the path to the end, with \<open>remoteMemory\<close> held by the caller's scope guard.\<close>

definition run_LoadLibrary ::
  "'w inject_api \<Rightarrow> HANDLE \<Rightarrow> nat \<Rightarrow> wchars \<Rightarrow> wchars \<Rightarrow> u32 \<Rightarrow> 'w \<Rightarrow> (unit result \<times> inject_event list \<times> 'w) option" where
  "run_LoadLibrary api process remoteMemory fullPath dllName processId w =
     (let (ok, w1) = WriteProcessMemory api process remoteMemory (fullPath @ [0]) w;
          wr = Ev_write remoteMemory (fullPath @ [0])
      in if \<not> ok then Some (throw_last_error api w1, [wr], w1)
         else
           case LoadLibraryW_address api w1 of
             None \<Rightarrow> Some (throw_last_error api w1, [wr], w1)
           | Some loadLibrary \<Rightarrow>
               (case CreateRemoteThread api process loadLibrary remoteMemory w1 of
                  (None, w2) \<Rightarrow> Some (throw_last_error api w2, [wr], w2)
                | (Some remoteThread, w2) \<Rightarrow>
                    (case WaitForSingleObject api remoteThread w2 of
                       None \<Rightarrow> None
                     | Some w3 \<Rightarrow>
                         Some (Inr (),
                           [wr, Ev_start remoteThread loadLibrary remoteMemory, Ev_injected dllName processId,
                            Ev_close remoteThread],
                           inj_CloseHandle api remoteThread w3))))"

definition inject_into ::
  "'w inject_api \<Rightarrow> HANDLE \<Rightarrow> wchars \<Rightarrow> wchars \<Rightarrow> u32 \<Rightarrow> 'w \<Rightarrow> (unit result \<times> inject_event list \<times> 'w) option" where
  "inject_into api process fullPath dllName processId w =
     (case already_loaded api process dllName w of
        Inl f \<Rightarrow> Some (Inl f, [], w)
      | Inr True \<Rightarrow> Some (Inr (), [Ev_already_loaded processId], w)
      | Inr False \<Rightarrow>
          (case VirtualAllocEx api process ((length fullPath + 1) * 2) w of
             (None, w1) \<Rightarrow> Some (throw_last_error api w1, [], w1)
           | (Some remoteMemory, w1) \<Rightarrow>
               (case run_LoadLibrary api process remoteMemory fullPath dllName processId w1 of
                  None \<Rightarrow> None
                | Some (r, ev, w2) \<Rightarrow>
                    Some (r, Ev_alloc process remoteMemory # ev @ [Ev_free process remoteMemory],
                      VirtualFreeEx api process remoteMemory w2))))"

definition filename :: "path \<Rightarrow> wchars" where
  "filename p = (if p = [] then [] else last p)"

definition InjectDll ::
  "'w inject_api \<Rightarrow> u32 \<Rightarrow> path \<Rightarrow> 'w \<Rightarrow> (unit result \<times> inject_event list \<times> 'w) option" where
  "InjectDll api processId dllPath w =
     (if \<not> fs_exists api dllPath w then Some (Inl (Throw (Result_exception E_INVALIDARG)), [], w)
      else
        let dllName = filename dllPath;
            fullPath = fs_absolute api dllPath w
        in case OpenProcess api processId w of
             (None, w1) \<Rightarrow>
               if inj_last_error api w1 = ERROR_ACCESS_DENIED_code
               then Some (Inl (Throw (Runtime_error (cstr
                 ''Windows says you don't have permission to hijack the driver process; try restarting the driver, or running wintab-adapter as administrator.''))), [], w1)
               else Some (throw_last_error api w1, [], w1)
           | (Some process, w1) \<Rightarrow>
               (case inject_into api process fullPath dllName processId w1 of
                  None \<Rightarrow> None
                | Some (r, ev, w2) \<Rightarrow>
                    Some (r, Ev_open process # ev @ [Ev_close process], inj_CloseHandle api process w2)))"

section \<open>InjectDllByExecutableFileName\<close>

text \<open>The query loop; the length is a 32-bit \<^verbatim>\<open>ULONG\<close> the call writes back.\<close>

partial_function (option) query_processes ::
  "'w inject_api \<Rightarrow> u32 \<Rightarrow> 'w \<Rightarrow> ((nat \<Rightarrow> process_entry) \<times> nat \<times> 'w) option" where
  "query_processes api infoByteCount w =
     (case NtQuerySystemInformation api infoByteCount w of
        ((mismatch, needed, buffer), w1) \<Rightarrow>
          if mismatch
          then query_processes api (needed + word_of_nat (sizeof_SYSTEM_PROCESS_INFORMATION api * 32)) w1
          else Some (buffer, unat infoByteCount, w1))"

definition entry_is :: "wchars \<Rightarrow> process_entry \<Rightarrow> bool" where
  "entry_is exe e = (case ImageName e of None \<Rightarrow> False | Some nm \<Rightarrow> nm \<noteq> [] \<and> nm = exe)"

text \<open>The walk along the entries of a buffer of \<open>len\<close> bytes; it stops at an entry without successor.\<close>

function find_process :: "(nat \<Rightarrow> process_entry) \<Rightarrow> nat \<Rightarrow> wchars \<Rightarrow> nat \<Rightarrow> u64 option result" where
  "find_process buffer len exe off =
     (if len \<le> off then Inl (UB Out_of_bounds_read)
      else if NextEntryOffset (buffer off) = 0 then Inr None
      else if entry_is exe (buffer off) then Inr (Some (UniqueProcessId (buffer off)))
      else find_process buffer len exe (off + NextEntryOffset (buffer off)))"
  by pat_completeness auto

termination find_process
  by (relation "measure (\<lambda>(buffer, len, exe, off). len - off)") auto

declare find_process.simps [simp del]

definition InjectDllByExecutableFileName ::
  "'w inject_api \<Rightarrow> wchars \<Rightarrow> path \<Rightarrow> 'w \<Rightarrow> (unit result \<times> inject_event list \<times> 'w) option" where
  "InjectDllByExecutableFileName api executableFileName dllPath w =
     (case query_processes api (word_of_nat (sizeof_SYSTEM_PROCESS_INFORMATION api * 1024)) w of
        None \<Rightarrow> None
      | Some (buffer, len, w1) \<Rightarrow>
          (case find_process buffer len executableFileName 0 of
             Inl f \<Rightarrow> Some (Inl f, [], w1)
           | Inr (Some pid) \<Rightarrow> InjectDll api (ucast pid) dllPath w1
           | Inr None \<Rightarrow>
               Some (Inl (Throw (Runtime_error (cstr ''Could not find target driver process to inject''))), [], w1)))"

section \<open>What is promised\<close>

text \<open>
  The resources held, innermost first: every release must be of the innermost one, and
  nothing may be held at the end.
\<close>

datatype held = Held_handle HANDLE | Held_memory HANDLE nat

fun scoped :: "held list \<Rightarrow> inject_event list \<Rightarrow> bool" where
  "scoped st [] = (st = [])"
| "scoped st (Ev_open h # es) = scoped (Held_handle h # st) es"
| "scoped st (Ev_start h a p # es) = scoped (Held_handle h # st) es"
| "scoped st (Ev_alloc h p # es) = scoped (Held_memory h p # st) es"
| "scoped st (Ev_close h # es) = (case st of Held_handle k # st' \<Rightarrow> k = h \<and> scoped st' es | _ \<Rightarrow> False)"
| "scoped st (Ev_free h p # es) = (case st of Held_memory k q # st' \<Rightarrow> k = h \<and> q = p \<and> scoped st' es | _ \<Rightarrow> False)"
| "scoped st (_ # es) = scoped st es"

text \<open>A process list as the system lays it out: each entry says where the next one starts, the last says 0.\<close>

fun process_list_at :: "(nat \<Rightarrow> process_entry) \<Rightarrow> nat \<Rightarrow> nat \<Rightarrow> process_entry list \<Rightarrow> bool" where
  "process_list_at buffer len off [] = False"
| "process_list_at buffer len off [e] = (off < len \<and> buffer off = e \<and> NextEntryOffset e = 0)"
| "process_list_at buffer len off (e # es) =
     (off < len \<and> buffer off = e \<and> 0 < NextEntryOffset e \<and>
      process_list_at buffer len (off + NextEntryOffset e) es)"

text \<open>A system with one process, whose modules and process list are given.\<close>

definition sample_inject_api :: "wchars list \<Rightarrow> nat \<Rightarrow> (nat \<Rightarrow> process_entry) \<Rightarrow> 'w inject_api" where
  "sample_inject_api names count buffer =
     \<lparr>fs_exists = (\<lambda>_ _. True), fs_absolute = (\<lambda>p _. concat p), OpenProcess = (\<lambda>_ w. (Some 1, w)),
      inj_last_error = (\<lambda>_. 0), EnumProcessModules = (\<lambda>_ n _. Some ([0..<min n count], count)),
      GetModuleBaseNameW = (\<lambda>_ m _. if m < length names then Some (names ! m) else None),
      VirtualAllocEx = (\<lambda>_ _ w. (Some 2, w)), VirtualFreeEx = (\<lambda>_ _ w. w),
      WriteProcessMemory = (\<lambda>_ _ _ w. (True, w)), LoadLibraryW_address = (\<lambda>_. Some 3),
      CreateRemoteThread = (\<lambda>_ _ _ w. (Some 4, w)), WaitForSingleObject = (\<lambda>_ w. Some w),
      inj_CloseHandle = (\<lambda>_ w. w), NtQuerySystemInformation = (\<lambda>n w. ((False, n, buffer), w)),
      sizeof_SYSTEM_PROCESS_INFORMATION = 256\<rparr>"

definition sample_processes :: "nat \<Rightarrow> process_entry" where
  "sample_processes off =
     (if off = 0 then \<lparr>NextEntryOffset = 300, ImageName = None, UniqueProcessId = 0\<rparr>
      else if off = 300 then \<lparr>NextEntryOffset = 400, ImageName = Some (wstr ''a.exe''), UniqueProcessId = 8\<rparr>
      else \<lparr>NextEntryOffset = 0, ImageName = Some (wstr ''b.exe''), UniqueProcessId = 12\<rparr>)"

section \<open>Lemmas\<close>

lemma run_LoadLibrary_scoped:
  assumes "run_LoadLibrary api process m fullPath dllName pid w = Some (r, ev, w')"
  shows "scoped st (ev @ es) = scoped st es"
  using assms by (auto simp: run_LoadLibrary_def Let_def split: prod.splits if_splits option.splits)

lemma inject_into_scoped:
  assumes "inject_into api process fullPath dllName pid w = Some (r, ev, w')"
  shows "scoped st (ev @ es) = scoped st es"
  using assms
  by (auto simp: inject_into_def run_LoadLibrary_scoped split: prod.splits bool.splits sum.splits option.splits)

lemma find_process_list:
  "process_list_at buffer len off es \<Longrightarrow>
     find_process buffer len exe off =
       Inr (map_option UniqueProcessId (List.find (entry_is exe) (butlast es)))"
proof (induction buffer len off es rule: process_list_at.induct)
  case (3 buffer len off e e' es)
  then show ?case by (subst find_process.simps) auto
qed (simp_all add: find_process.simps)

lemma module_loop_found:
  assumes "n \<le> length modules - i" and "i \<le> k" and "k < i + n"
    and "GetModuleBaseNameW api process (modules ! k) w = Some nm" and "wcsicmp_eq nm dllName"
  shows "module_loop api process dllName modules i n w = Inr True"
  using assms
proof (induction n arbitrary: i)
  case (Suc n)
  show ?case
  proof (cases "i = k")
    case True
    then show ?thesis using Suc.prems by auto
  next
    case False
    then have "module_loop api process dllName modules (Suc i) n w = Inr True"
      using Suc.prems by (intro Suc.IH) auto
    then show ?thesis using Suc.prems by (auto split: option.split)
  qed
qed simp

lemma InjectDll_scoped:
  assumes "InjectDll api pid dllPath w = Some (r, ev, w')"
  shows "scoped [] ev"
  using assms
  by (auto simp: InjectDll_def Let_def inject_into_scoped split: prod.splits if_splits option.splits)

lemma module_loop_overrun:
  assumes "i \<le> length modules" and "length modules < i + n"
    and "\<forall>k nm. GetModuleBaseNameW api process (modules ! k) w = Some nm \<longrightarrow> \<not> wcsicmp_eq nm dllName"
  shows "module_loop api process dllName modules i n w = Inl (UB Out_of_bounds_read)"
  using assms(1,2)
proof (induction n arbitrary: i)
  case (Suc n)
  show ?case
  proof (cases "i = length modules")
    case False
    with Suc have "module_loop api process dllName modules (Suc i) n w = Inl (UB Out_of_bounds_read)" by simp
    then show ?thesis using False Suc.prems assms(3) by (auto split: option.split)
  qed simp
qed simp

section \<open>Properties\<close>

lemma module_loop_fault: "module_loop api p n ms i k w = Inl f \<Longrightarrow> f = UB Out_of_bounds_read"
  by (induction api p n ms i k w rule: module_loop.induct) (auto split: if_splits option.splits)

lemma InjectDll_fault:
  "InjectDll api pid dll w = Some (Inl f, ev, w') \<Longrightarrow> (\<exists>e. f = Throw e \<and> is_std_exception e) \<or> f = UB Out_of_bounds_read"
  by (auto simp: InjectDll_def inject_into_def run_LoadLibrary_def already_loaded_def throw_last_error_def Let_def
      dest: module_loop_fault split: option.splits sum.splits prod.splits if_splits bool.splits)

lemma find_process_fault: "find_process buffer len exe off = Inl f \<Longrightarrow> f = UB Out_of_bounds_read"
proof (induction buffer len exe off rule: find_process.induct)
  case (1 buffer len exe off)
  then show ?case by (subst (asm) (2) find_process.simps) (auto split: if_splits)
qed

lemma InjectDllByExecutableFileName_fault:
  assumes "InjectDllByExecutableFileName api exe dll w = Some (Inl f, ev, w')"
  shows "(\<exists>e. f = Throw e \<and> is_std_exception e) \<or> f = UB Out_of_bounds_read"
  using assms
  by (auto simp: InjectDllByExecutableFileName_def dest: find_process_fault InjectDll_fault split: option.splits sum.splits)

text \<open>C27: no exit leaks.  However the injection ends, with success, with the library already loaded or
  with an exception at any call, every process handle, thread handle and block of remote memory it
  acquired has been released, each exactly once and in the reverse order of acquisition.\<close>

theorem InjectDllByExecutableFileName_no_leak:
  assumes "InjectDllByExecutableFileName api exe dllPath w = Some (r, ev, w')"
  shows "scoped [] ev"
  using assms InjectDll_scoped
  by (auto simp: InjectDllByExecutableFileName_def split: option.splits sum.splits)

theorem InjectDllByExecutableFileName_no_leak_witness:
  "\<exists>r ev w'. InjectDllByExecutableFileName (sample_inject_api [] 0 sample_processes) (wstr ''a.exe'') [wstr ''h.dll''] () = Some (r, ev, w') \<and>
     Ev_alloc 1 2 \<in> set ev \<and> scoped [] ev"
proof -
  let ?api = "sample_inject_api [] 0 sample_processes"
  have q: "query_processes ?api 262144 () = Some (sample_processes, 262144, ())"
    by (subst query_processes.simps) (simp add: sample_inject_api_def)
  have f: "find_process sample_processes 262144 (wstr ''a.exe'') 0 = Inr (Some 8)"
    using find_process_list [of sample_processes 262144 0 "map sample_processes [0, 300, 700]"]
    by (simp add: sample_processes_def entry_is_def wstr_def)
  have r: "InjectDllByExecutableFileName ?api (wstr ''a.exe'') [wstr ''h.dll''] () =
     Some (Inr (), [Ev_open 1, Ev_alloc 1 2, Ev_write 2 (wstr ''h.dll'' @ [0]), Ev_start 4 3 2,
       Ev_injected (wstr ''h.dll'') 8, Ev_close 4, Ev_free 1 2, Ev_close 1], ())"
    using q f
    by (simp add: InjectDllByExecutableFileName_def InjectDll_def inject_into_def already_loaded_def
        run_LoadLibrary_def filename_def sample_inject_api_def)
  show ?thesis using InjectDllByExecutableFileName_no_leak [OF r] r by simp
qed

text \<open>A process that has the library among its (at most 1024) modules, under any upper or lower
  case spelling, is left alone: nothing is allocated, written or started in it.\<close>

theorem InjectDll_not_twice:
  assumes "fs_exists api dllPath w" and "OpenProcess api pid w = (Some process, w1)"
    and "EnumProcessModules api process module_capacity w1 = Some (ms, length ms)" and "length ms \<le> module_capacity"
    and "k < length ms" and "GetModuleBaseNameW api process (ms ! k) w1 = Some nm"
    and "wcsicmp_eq nm (filename dllPath)"
  shows "InjectDll api pid dllPath w =
    Some (Inr (), [Ev_open process, Ev_already_loaded pid, Ev_close process], inj_CloseHandle api process w1)"
proof -
  have "module_loop api process (filename dllPath) (take module_capacity ms @ replicate (module_capacity - length ms) 0)
      0 (length ms) w1 = Inr True"
    using assms by (intro module_loop_found [of _ _ _ k]) (simp_all add: nth_append)
  then have "already_loaded api process (filename dllPath) w1 = Inr True"
    using assms(3) by (simp add: already_loaded_def)
  then show ?thesis using assms(1,2) by (simp add: InjectDll_def inject_into_def)
qed

theorem InjectDll_not_twice_witness:
  "InjectDll (sample_inject_api [wstr ''ntdll.dll'', wstr ''H.DLL''] 2 sample_processes) 8 [wstr ''h.dll''] () =
     Some (Inr (), [Ev_open 1, Ev_already_loaded 8, Ev_close 1], ())"
  using InjectDll_not_twice [of "sample_inject_api [wstr ''ntdll.dll'', wstr ''H.DLL''] 2 sample_processes"
      "[wstr ''h.dll'']" "()" 8 1 "()" "[0, 1]" 1 "wstr ''H.DLL''"]
  by (simp add: sample_inject_api_def module_capacity_def filename_def wcsicmp_eq_def wlower_def wstr_def
      until_nul_def upt_rec)

text \<open>The module check reads beyond its array.  When the target process has more than 1024 modules
  and none of those reported matches, the loop, bounded by the number the system needed, indexes the
  array of 1024 handles out of bounds.\<close>

theorem InjectDll_module_overrun:
  assumes "fs_exists api dllPath w" and "OpenProcess api pid w = (Some process, w1)"
    and "EnumProcessModules api process module_capacity w1 = Some (ms, n)" and "module_capacity < n"
    and "\<forall>m nm. GetModuleBaseNameW api process m w1 = Some nm \<longrightarrow> \<not> wcsicmp_eq nm (filename dllPath)"
  shows "\<exists>ev w'. InjectDll api pid dllPath w = Some (Inl (UB Out_of_bounds_read), ev, w')"
proof -
  have "already_loaded api process (filename dllPath) w1 = Inl (UB Out_of_bounds_read)"
    using assms(3-5) by (simp add: already_loaded_def Let_def module_loop_overrun)
  then show ?thesis using assms(1,2) by (simp add: InjectDll_def inject_into_def)
qed

theorem InjectDll_module_overrun_witness:
  "\<exists>ev w'. InjectDll (sample_inject_api [] 1025 sample_processes) 8 [wstr ''h.dll''] () =
     Some (Inl (UB Out_of_bounds_read), ev, w')"
  by (rule InjectDll_module_overrun [of _ _ _ _ 1 "()" "[0..<1024]" 1025])
    (simp_all add: sample_inject_api_def module_capacity_def)

text \<open>C34: the search for the driver process returns the first matching entry of the process list, but it
  never looks at the last entry: a driver that is the last process of the list is not found.\<close>

theorem find_process_skips_last:
  assumes "process_list_at buffer len 0 (es @ [e])"
  shows "find_process buffer len exe 0 = Inr (map_option UniqueProcessId (List.find (entry_is exe) es))"
  using find_process_list [OF assms] by simp

theorem find_process_skips_last_witness:
  "find_process sample_processes 1000 (wstr ''b.exe'') 0 = Inr None \<and> entry_is (wstr ''b.exe'') (sample_processes 700)"
proof -
  have "process_list_at sample_processes 1000 0 ([sample_processes 0, sample_processes 300] @ [sample_processes 700])"
    by (simp add: sample_processes_def)
  from find_process_skips_last [OF this, of "wstr ''b.exe''"] show ?thesis
    by (simp add: sample_processes_def entry_is_def wstr_def)
qed

end
