(* ===== verification/ForegroundOverride.thy ===== *)
theory ForegroundOverride
  imports Adapter_Prelude
begin

text \<open>
  The foreground-window override (\<^verbatim>\<open>src/ForegroundOverride.cpp\<close>) and the library with the hooks that
  use it (\<^verbatim>\<open>src/ForegroundOverrideDll.cpp\<close>).  The adapter is the writer: it owns a named mutex for
  as long as it runs and stores its window in shared memory.  The hooks in the driver process are
  the reader: while the mutex is owned they answer with that window.

  The kernel objects are parameters, as functions on a world for one calling thread; what is relied
  on is \<open>mutex_laws\<close>.  MinHook is a parameter as well: it is told which functions to hook.
\<close>

section \<open>Parameters: the operating system and MinHook\<close>

datatype hook_target = Target_GetForegroundWindow | Target_WindowFromPoint

type_synonym POINT = "int \<times> int"

record 'w fg_api =
  CreateMutexW :: "'w \<Rightarrow> HANDLE option \<times> 'w"
  mutex_acquire :: "HANDLE \<Rightarrow> nat \<Rightarrow> 'w \<Rightarrow> bool \<times> 'w"
  mutex_release :: "HANDLE \<Rightarrow> 'w \<Rightarrow> 'w"
  CreateFileMappingW :: "nat \<Rightarrow> 'w \<Rightarrow> HANDLE option \<times> 'w"
  MapViewOfFile :: "HANDLE \<Rightarrow> bool \<Rightarrow> nat \<Rightarrow> 'w \<Rightarrow> nat option \<times> 'w"
  view_read :: "nat \<Rightarrow> 'w \<Rightarrow> HWND"
  view_write :: "nat \<Rightarrow> HWND \<Rightarrow> 'w \<Rightarrow> 'w"
  fg_CloseHandle :: "HANDLE \<Rightarrow> 'w \<Rightarrow> 'w"
  IsWindow :: "HWND \<Rightarrow> 'w \<Rightarrow> bool"
  fg_last_error :: "'w \<Rightarrow> int"
  sizeof_HWND :: nat

record 'w hook_api = "'w fg_api" +
  original_GetForegroundWindow :: "'w \<Rightarrow> HWND"
  original_WindowFromPoint :: "POINT \<Rightarrow> 'w \<Rightarrow> HWND"

section \<open>ForegroundOverride\<close>

datatype Disposition = Disposition_Read | Disposition_Write

record ForegroundOverride =
  mMutex :: HANDLE
  mMapping :: HANDLE
  mLock :: bool
  mView :: nat

text \<open>The destructors of the members that are set, in the reverse order of their declaration.\<close>

definition destroy_members :: "('w, 'z) fg_api_scheme \<Rightarrow> HANDLE \<Rightarrow> HANDLE option \<Rightarrow> bool \<Rightarrow> 'w \<Rightarrow> 'w" where
  "destroy_members api mutex mapping lock w =
     (let w1 = (if lock then mutex_release api mutex w else w);
          w2 = (case mapping of None \<Rightarrow> w1 | Some m \<Rightarrow> fg_CloseHandle api m w1)
      in fg_CloseHandle api mutex w2)"

definition fg_throw :: "('w, 'z) fg_api_scheme \<Rightarrow> 'w \<Rightarrow> 'a result" where
  "fg_throw api w = Inl (Throw (Result_exception (HRESULT_FROM_WIN32 (fg_last_error api w))))"

definition ForegroundOverride_open ::
  "('w, 'z) fg_api_scheme \<Rightarrow> Disposition \<Rightarrow> 'w \<Rightarrow> ForegroundOverride result \<times> 'w" where
  "ForegroundOverride_open api d w =
     (let readOnly = (d = Disposition_Read)
      in case CreateMutexW api w of
           (None, w1) \<Rightarrow> (fg_throw api w1, w1)
         | (Some mutex, w1) \<Rightarrow>
             let (locked, w2) = (if readOnly then (False, w1) else mutex_acquire api mutex 1000 w1)
             in if \<not> readOnly \<and> \<not> locked
                then (Inl (Throw (Runtime_error (cstr ''Failed to acquire foreground window lock''))),
                      destroy_members api mutex None False w2)
                else
                  case CreateFileMappingW api (sizeof_HWND api) w2 of
                    (None, w3) \<Rightarrow> (fg_throw api w3, destroy_members api mutex None locked w3)
                  | (Some mapping, w3) \<Rightarrow>
                      (case MapViewOfFile api mapping readOnly (sizeof_HWND api) w3 of
                         (None, w4) \<Rightarrow> (fg_throw api w4, destroy_members api mutex (Some mapping) locked w4)
                       | (Some view, w4) \<Rightarrow>
                           (Inr \<lparr>mMutex = mutex, mMapping = mapping, mLock = locked, mView = view\<rparr>, w4)))"

definition ForegroundOverride_reader :: "('w, 'z) fg_api_scheme \<Rightarrow> 'w \<Rightarrow> ForegroundOverride result \<times> 'w" where
  "ForegroundOverride_reader api w = ForegroundOverride_open api Disposition_Read w"

definition ForegroundOverride_window ::
  "('w, 'z) fg_api_scheme \<Rightarrow> HWND \<Rightarrow> 'w \<Rightarrow> ForegroundOverride result \<times> 'w" where
  "ForegroundOverride_window api window w =
     (case ForegroundOverride_open api Disposition_Write w of
        (Inl f, w1) \<Rightarrow> (Inl f, w1)
      | (Inr ov, w1) \<Rightarrow> (Inr ov, view_write api (mView ov) window w1))"

definition ForegroundOverride_destroy :: "('w, 'z) fg_api_scheme \<Rightarrow> ForegroundOverride \<Rightarrow> 'w \<Rightarrow> 'w" where
  "ForegroundOverride_destroy api ov w = destroy_members api (mMutex ov) (Some (mMapping ov)) (mLock ov) w"

definition Get :: "('w, 'z) fg_api_scheme \<Rightarrow> ForegroundOverride \<Rightarrow> 'w \<Rightarrow> HWND \<times> 'w" where
  "Get api ov w =
     (let (lock, w1) = mutex_acquire api (mMutex ov) 0 w
      in if lock then (0, mutex_release api (mMutex ov) w1)
         else (if IsWindow api (view_read api (mView ov) w1) w1 then view_read api (mView ov) w1 else 0, w1))"

section \<open>The hook library\<close>

text \<open>
  The library's state: the function-local static of \<^verbatim>\<open>GetOverride\<close>, MinHook's initialisation, the
  functions with a hook and whether the hooks are enabled.
\<close>

record hook_dll =
  static_override :: "ForegroundOverride option"
  mh_initialized :: bool
  mh_hooks :: "hook_target list"
  mh_enabled :: bool

definition hook_dll_init :: hook_dll where
  "hook_dll_init = \<lparr>static_override = None, mh_initialized = False, mh_hooks = [], mh_enabled = False\<rparr>"

definition GetOverride :: "('w, 'z) fg_api_scheme \<Rightarrow> hook_dll \<Rightarrow> 'w \<Rightarrow> HWND result \<times> hook_dll \<times> 'w" where
  "GetOverride api s w =
     (case static_override s of
        Some ov \<Rightarrow> let (v, w1) = Get api ov w in (Inr v, s, w1)
      | None \<Rightarrow>
          (case ForegroundOverride_reader api w of
             (Inl f, w1) \<Rightarrow> (Inl f, s, w1)
           | (Inr ov, w1) \<Rightarrow> let (v, w2) = Get api ov w1 in (Inr v, s\<lparr>static_override := Some ov\<rparr>, w2)))"

definition hooked_GetForegroundWindow ::
  "('w, 'z) hook_api_scheme \<Rightarrow> hook_dll \<Rightarrow> 'w \<Rightarrow> HWND result \<times> hook_dll \<times> 'w" where
  "hooked_GetForegroundWindow api s w =
     (case GetOverride api s w of
        (Inl f, s1, w1) \<Rightarrow> (Inl f, s1, w1)
      | (Inr v, s1, w1) \<Rightarrow> (Inr (if v \<noteq> 0 then v else original_GetForegroundWindow api w1), s1, w1))"

definition hooked_WindowFromPoint ::
  "('w, 'z) hook_api_scheme \<Rightarrow> POINT \<Rightarrow> hook_dll \<Rightarrow> 'w \<Rightarrow> HWND result \<times> hook_dll \<times> 'w" where
  "hooked_WindowFromPoint api point s w =
     (case GetOverride api s w of
        (Inl f, s1, w1) \<Rightarrow> (Inl f, s1, w1)
      | (Inr v, s1, w1) \<Rightarrow> (Inr (if v \<noteq> 0 then v else original_WindowFromPoint api point w1), s1, w1))"

definition InstallHooks :: "hook_dll \<Rightarrow> hook_dll" where
  "InstallHooks s =
     (let s1 = s\<lparr>mh_initialized := True\<rparr>;
          s2 = s1\<lparr>mh_hooks := mh_hooks s1 @ [Target_GetForegroundWindow]\<rparr>;
          s3 = s2\<lparr>mh_hooks := mh_hooks s2 @ [Target_WindowFromPoint]\<rparr>
      in s3\<lparr>mh_enabled := True\<rparr>)"

definition UninstallHooks :: "hook_dll \<Rightarrow> hook_dll" where
  "UninstallHooks s = s\<lparr>mh_initialized := False, mh_hooks := [], mh_enabled := False\<rparr>"

datatype dll_reason = DLL_PROCESS_ATTACH | DLL_PROCESS_DETACH bool | DLL_THREAD_ATTACH | DLL_THREAD_DETACH

text \<open>\<^verbatim>\<open>DllMain\<close>; the argument of a detach says whether the process is terminating.\<close>

definition DllMain :: "dll_reason \<Rightarrow> hook_dll \<Rightarrow> bool \<times> hook_dll" where
  "DllMain fdwReason s =
     (case fdwReason of
        DLL_PROCESS_ATTACH \<Rightarrow> (True, InstallHooks s)
      | DLL_PROCESS_DETACH terminating \<Rightarrow> (True, if terminating then s else UninstallHooks s)
      | _ \<Rightarrow> (True, s))"

text \<open>What a call of either function in the driver process does.\<close>

definition call_GetForegroundWindow ::
  "('w, 'z) hook_api_scheme \<Rightarrow> hook_dll \<Rightarrow> 'w \<Rightarrow> HWND result \<times> hook_dll \<times> 'w" where
  "call_GetForegroundWindow api s w =
     (if mh_enabled s \<and> Target_GetForegroundWindow \<in> set (mh_hooks s) then hooked_GetForegroundWindow api s w
      else (Inr (original_GetForegroundWindow api w), s, w))"

section \<open>What is relied on and what is promised\<close>

text \<open>
  The documented behaviour of a named mutex and of a shared mapping, as thread \<open>me\<close> sees them:
  \<open>owner\<close> is the thread that owns the mutex and \<open>shared\<close> the window in the mapping.  A mutex nobody
  else owns is acquired; one that another thread owns is not acquired without waiting.
\<close>

definition mutex_laws ::
  "('w, 'z) fg_api_scheme \<Rightarrow> nat \<Rightarrow> ('w \<Rightarrow> nat option) \<Rightarrow> ('w \<Rightarrow> HWND) \<Rightarrow> bool" where
  "mutex_laws api me owner shared \<longleftrightarrow>
     (\<forall>h w. owner w \<noteq> None \<and> owner w \<noteq> Some me \<longrightarrow> mutex_acquire api h 0 w = (False, w)) \<and>
     (\<forall>h t w. owner w = None \<longrightarrow> fst (mutex_acquire api h t w)) \<and>
     (\<forall>h t w. fst (mutex_acquire api h t w) \<longrightarrow> owner (snd (mutex_acquire api h t w)) = Some me) \<and>
     (\<forall>h w. owner w = Some me \<longrightarrow> owner (mutex_release api h w) = None) \<and>
     (\<forall>h w. shared (mutex_release api h w) = shared w) \<and>
     (\<forall>w. owner (snd (CreateMutexW api w)) = owner w) \<and>
     (\<forall>n w. owner (snd (CreateFileMappingW api n w)) = owner w \<and> shared (snd (CreateFileMappingW api n w)) = shared w) \<and>
     (\<forall>m b n w. owner (snd (MapViewOfFile api m b n w)) = owner w \<and> shared (snd (MapViewOfFile api m b n w)) = shared w) \<and>
     (\<forall>v w. view_read api v w = shared w) \<and>
     (\<forall>v x w. owner (view_write api v x w) = owner w \<and> shared (view_write api v x w) = x) \<and>
     (\<forall>h w. owner (fg_CloseHandle api h w) = owner w \<and> shared (fg_CloseHandle api h w) = shared w)"

text \<open>A kernel with this behaviour: its world is the owner, the window and whether the window exists.\<close>

definition sample_fg_api :: "nat \<Rightarrow> (nat option \<times> HWND \<times> bool) hook_api" where
  "sample_fg_api me =
     \<lparr>CreateMutexW = (\<lambda>w. (Some 1, w)),
      mutex_acquire = (\<lambda>h t (own, x, b). if own = None \<or> own = Some me then (True, Some me, x, b) else (False, own, x, b)),
      mutex_release = (\<lambda>h (own, x, b). (None, x, b)),
      CreateFileMappingW = (\<lambda>n w. (Some 2, w)), MapViewOfFile = (\<lambda>m r n w. (Some 3, w)),
      view_read = (\<lambda>v (own, x, b). x), view_write = (\<lambda>v y (own, x, b). (own, y, b)),
      fg_CloseHandle = (\<lambda>h w. w), IsWindow = (\<lambda>x (own, y, b). b), fg_last_error = (\<lambda>_. 5), sizeof_HWND = 8,
      original_GetForegroundWindow = (\<lambda>_. 99), original_WindowFromPoint = (\<lambda>p _. 98)\<rparr>"

section \<open>Lemmas\<close>

lemma sample_fg_laws: "mutex_laws (sample_fg_api me) me fst (fst \<circ> snd)"
  by (auto simp: mutex_laws_def sample_fg_api_def)

lemma mutex_lawsD:
  assumes "mutex_laws api me owner shared"
  shows "owner w \<noteq> None \<Longrightarrow> owner w \<noteq> Some me \<Longrightarrow> mutex_acquire api h 0 w = (False, w)"
    and "owner w = None \<Longrightarrow> fst (mutex_acquire api h t w)"
    and "fst (mutex_acquire api h t w) \<Longrightarrow> owner (snd (mutex_acquire api h t w)) = Some me"
    and "owner w = Some me \<Longrightarrow> owner (mutex_release api h w) = None"
    and "shared (mutex_release api h w) = shared w"
    and "owner (snd (CreateMutexW api w)) = owner w"
    and "owner (snd (CreateFileMappingW api n w)) = owner w"
    and "owner (snd (MapViewOfFile api m b n w)) = owner w"
    and "view_read api v w = shared w"
    and "owner (view_write api v x w) = owner w" and "shared (view_write api v x w) = x"
    and "owner (fg_CloseHandle api h w) = owner w" and "shared (fg_CloseHandle api h w) = shared w"
  using assms by (simp_all add: mutex_laws_def)

lemma writer_owns:
  assumes "mutex_laws api me owner shared" and "ForegroundOverride_window api window w = (Inr ov, w1)"
  shows "owner w1 = Some me" and "shared w1 = window" and "mLock ov"
proof -
  obtain mutex wa wb mapping wc view wd where
    m: "CreateMutexW api w = (Some mutex, wa)" and l: "mutex_acquire api mutex 1000 wa = (True, wb)"
    and f: "CreateFileMappingW api (sizeof_HWND api) wb = (Some mapping, wc)"
    and v: "MapViewOfFile api mapping False (sizeof_HWND api) wc = (Some view, wd)"
    and ov: "ov = \<lparr>mMutex = mutex, mMapping = mapping, mLock = True, mView = view\<rparr>"
    and w1: "w1 = view_write api view window wd"
    using assms(2)
    by (auto simp: ForegroundOverride_window_def ForegroundOverride_open_def fg_throw_def Let_def
        split: prod.splits option.splits if_splits sum.splits)
  have "owner wb = Some me" using mutex_lawsD(3) [OF assms(1), of mutex 1000 wa] l by simp
  then have "owner wd = Some me"
    using mutex_lawsD(7) [OF assms(1), of "sizeof_HWND api" wb] f
      mutex_lawsD(8) [OF assms(1), of mapping False "sizeof_HWND api" wc] v by simp
  then show "owner w1 = Some me" and "shared w1 = window" and "mLock ov"
    using mutex_lawsD(10,11) [OF assms(1)] w1 ov by simp_all
qed

lemma writer_destroyed:
  assumes "mutex_laws api me owner shared" and "owner w = Some me" and "mLock ov"
  shows "owner (ForegroundOverride_destroy api ov w) = None"
  using assms mutex_lawsD(4,12) [OF assms(1)]
  by (simp add: ForegroundOverride_destroy_def destroy_members_def)

lemma Get_owned:
  assumes "mutex_laws api me owner shared" and "owner w = Some p" and "p \<noteq> me"
  shows "Get api ov w = (if IsWindow api (shared w) w then shared w else 0, w)"
  using assms mutex_lawsD(1,9) [OF assms(1)] by (simp add: Get_def)

lemma Get_free:
  assumes "mutex_laws api me owner shared" and "owner w = None"
  shows "fst (Get api ov w) = 0" and "owner (snd (Get api ov w)) = None"
  using mutex_lawsD(2,3,4) [OF assms(1)] assms(2)
  by (auto simp: Get_def split_beta)

lemma hooked_GetForegroundWindow_static:
  "static_override s = Some ov \<Longrightarrow> hooked_GetForegroundWindow api s w =
     (Inr (if fst (Get api ov w) \<noteq> 0 then fst (Get api ov w) else original_GetForegroundWindow api (snd (Get api ov w))),
      s, snd (Get api ov w))"
  by (simp add: hooked_GetForegroundWindow_def GetOverride_def split_beta)

lemma hooked_WindowFromPoint_static:
  "static_override s = Some ov \<Longrightarrow> hooked_WindowFromPoint api point s w =
     (Inr (if fst (Get api ov w) \<noteq> 0 then fst (Get api ov w) else original_WindowFromPoint api point (snd (Get api ov w))),
      s, snd (Get api ov w))"
  by (simp add: hooked_WindowFromPoint_def GetOverride_def split_beta)

section \<open>Properties\<close>



text \<open>A second adapter cannot take over: while another thread owns the mutex and does not give it
  up within the wait, constructing the writing override throws and leaves no mutex acquired.\<close>

theorem second_writer_refused:
  assumes "mutex_laws api me owner shared" and "CreateMutexW api w = (Some mutex, w1)"
    and "mutex_acquire api mutex 1000 w1 = (False, w2)" and "owner w2 = Some other" and "other \<noteq> me"
  shows "\<exists>e w3. ForegroundOverride_window api window w = (Inl (Throw e), w3) \<and> is_std_exception e \<and> owner w3 = Some other"
  using assms mutex_lawsD(12) [OF assms(1)]
  by (simp add: ForegroundOverride_window_def ForegroundOverride_open_def destroy_members_def)

theorem second_writer_refused_witness:
  "\<exists>e w3. ForegroundOverride_window (sample_fg_api 2) 5 (Some 1, 77, True) = (Inl (Throw e), w3) \<and> is_std_exception e \<and> fst w3 = Some 1"
  using second_writer_refused [OF sample_fg_laws, of 2 "(Some 1, 77, True)" 1 "(Some 1, 77, True)" "(Some 1, 77, True)" 1 5]
  by (simp add: sample_fg_api_def)

text \<open>Loading and unloading the library leaves no hook behind unless the process is terminating:
  after attach both functions are hooked and enabled, after a detach neither is.\<close>

theorem DllMain_hooks:
  "mh_hooks (snd (DllMain DLL_PROCESS_ATTACH hook_dll_init)) = [Target_GetForegroundWindow, Target_WindowFromPoint] \<and>
   mh_enabled (snd (DllMain DLL_PROCESS_ATTACH hook_dll_init)) \<and>
   snd (DllMain (DLL_PROCESS_DETACH False) (snd (DllMain DLL_PROCESS_ATTACH hook_dll_init))) = hook_dll_init \<and>
   (\<forall>s api w. call_GetForegroundWindow api (snd (DllMain (DLL_PROCESS_DETACH False) s)) w =
      (Inr (original_GetForegroundWindow api w), snd (DllMain (DLL_PROCESS_DETACH False) s), w))"
  by (simp add: DllMain_def InstallHooks_def UninstallHooks_def hook_dll_init_def call_GetForegroundWindow_def)

end
