(* ===== verification/WintabTablet.thy ===== *)
theory WintabTablet
  imports Handler WinTab InjectDll ForegroundOverride Float32
begin

text \<open>
  The tablet (\<^verbatim>\<open>src/WintabTablet.cpp\<close>): loading the driver's library, opening a context, and the
  translation of WinTab messages into states for the handler.  The driver is a parameter:
  \<^verbatim>\<open>WTInfo\<close> returns the bytes it stores (none if the information is not supported), \<^verbatim>\<open>WTPacket\<close> the
  bytes of the packet if it has it.  A packet has the size that goes with the data the context was opened
  for, so one that is larger than the adapter's struct is a write out of bounds; the answers of
  \<^verbatim>\<open>WTInfoW\<close> are fixed structs that fit.  The handler is any \<open>IHandler\<close>.

  Window message parameters are 64-bit words; a context handle is such a word and 0 is null.
\<close>

section \<open>Parameters: the driver\<close>

type_synonym HCTX = u64

datatype wintab_function = F_WTInfoW | F_WTInfoA | F_WTOpenW | F_WTClose | F_WTOverlap | F_WTPacket

record 'w wintab_api =
  load_WINTAB32 :: "'w \<Rightarrow> bool \<times> 'w"
  GetProcAddress :: "wintab_function \<Rightarrow> bool"
  free_WINTAB32 :: "'w \<Rightarrow> 'w"
  WTInfoW :: "u32 \<Rightarrow> u32 \<Rightarrow> 'w \<Rightarrow> bytes \<times> 'w"
  WTInfoA :: "u32 \<Rightarrow> u32 \<Rightarrow> 'w \<Rightarrow> bytes \<times> 'w"
  WTOpenW :: "HWND \<Rightarrow> LOGCONTEXTW \<Rightarrow> bool \<Rightarrow> 'w \<Rightarrow> HCTX \<times> 'w"
  WTClose :: "HCTX \<Rightarrow> 'w \<Rightarrow> 'w"
  WTOverlap :: "HCTX \<Rightarrow> bool \<Rightarrow> 'w \<Rightarrow> 'w"
  WTPacket :: "HCTX \<Rightarrow> u32 \<Rightarrow> 'w \<Rightarrow> bytes option \<times> 'w"
  arch_bits :: nat
  module_directory :: "'w \<Rightarrow> path"
  HijackDllName :: wchars
  injection :: "'w inject_api"
  foreground :: "'w fg_api"

section \<open>State\<close>

datatype InjectableBuggyDriver = Huion | HuionAlternate | Gaomon | XPPen

text \<open>The library: whether it is loaded, and the function pointers that are not null.\<close>

record LibWintab =
  lib_loaded :: bool
  lib_functions :: "wintab_function list"

record WintabTablet =
  mWindow :: HWND
  mForegroundOverride :: ForegroundOverride
  mWintab :: LibWintab
  mContext :: HCTX
  mNextTabletID :: u32
  mDeviceInfo :: DeviceInfo
  mState :: State

text \<open>\<^verbatim>\<open>gInstance\<close>: null, the tablet, or a pointer to an object that no longer exists.\<close>

datatype instance_ptr = No_instance | Live WintabTablet | Dangling

record ('h, 'w) tablet_env =
  gInstance :: instance_ptr
  te_handler :: 'h
  te_world :: 'w

section \<open>The library\<close>

definition WINTAB_FUNCTIONS :: "wintab_function list" where
  "WINTAB_FUNCTIONS = [F_WTInfoW, F_WTInfoA, F_WTOpenW, F_WTClose, F_WTOverlap, F_WTPacket]"

definition LibWintab_new :: "'w wintab_api \<Rightarrow> 'w \<Rightarrow> LibWintab \<times> 'w" where
  "LibWintab_new api w =
     (let (loaded, w1) = load_WINTAB32 api w
      in if \<not> loaded then (\<lparr>lib_loaded = False, lib_functions = []\<rparr>, w1)
         else (\<lparr>lib_loaded = True, lib_functions = filter (GetProcAddress api) WINTAB_FUNCTIONS\<rparr>, w1))"

definition LibWintab_destroy :: "'w wintab_api \<Rightarrow> LibWintab \<Rightarrow> 'w \<Rightarrow> 'w" where
  "LibWintab_destroy api lib w = (if lib_loaded lib then free_WINTAB32 api w else w)"

text \<open>
  Calling a function the library does not export calls a null pointer.  The guards below stand before
  the first call of each function.
\<close>

definition resolved :: "WintabTablet \<Rightarrow> wintab_function \<Rightarrow> bool" where
  "resolved t f \<longleftrightarrow> f \<in> set (lib_functions (mWintab t))"

section \<open>Helpers\<close>

definition to_buffer :: "nat \<Rightarrow> bytes \<Rightarrow> bytes" where
  "to_buffer N src = fill_copy N src"

definition hijack ::
  "'w wintab_api \<Rightarrow> nat \<Rightarrow> wchars \<Rightarrow> 'w \<Rightarrow> (unit result \<times> inject_event list \<times> 'w) option" where
  "hijack api DriverBitness executableFileName w =
     (if DriverBitness \<noteq> arch_bits api
      then Some (Inl (Throw (Runtime_error (cstr
        (''This driver can only be hijacked by a '' @ decimal DriverBitness @ ''-bit wintab-adapter; this version is ''
         @ decimal (arch_bits api) @ ''-bit.'')))), [], w)
      else InjectDllByExecutableFileName (injection api) executableFileName (module_directory api w @ [HijackDllName api]) w)"

fun driver_target :: "InjectableBuggyDriver \<Rightarrow> nat \<times> wchars" where
  "driver_target Huion = (64, wstr ''HuionTabletCore.exe'')"
| "driver_target HuionAlternate = (64, wstr ''TabletDriver.exe'')"
| "driver_target Gaomon = (32, wstr ''TabletDriver.exe'')"
| "driver_target XPPen = (32, wstr ''XPPenTablet.exe'')"

text \<open>\<^verbatim>\<open>char\<close> is signed: a byte from 128 on is negative and counts as junk.\<close>

definition not_junk :: "byte \<Rightarrow> bool" where
  "not_junk c \<longleftrightarrow> 32 < sint c"

definition erase_trailing_junk :: "bytes \<Rightarrow> bytes" where
  "erase_trailing_junk buffer =
     (if list_ex not_junk buffer then rev (dropWhile (\<lambda>c. \<not> not_junk c) (rev buffer)) else buffer)"

definition GetInfoString :: "'w wintab_api \<Rightarrow> u32 \<Rightarrow> u32 \<Rightarrow> 'w \<Rightarrow> bytes result \<times> 'w" where
  "GetInfoString api wCategory nIndex w =
     (let (bs, w1) = WTInfoA api wCategory nIndex w
      in if 1024 < length bs then (Inl (UB Out_of_bounds_write), w1)
         else (Inr (erase_trailing_junk (resize (length bs) (write_at 0 bs (replicate 1024 0)))), w1))"

section \<open>Connecting\<close>

definition ActivateContext :: "'w wintab_api \<Rightarrow> WintabTablet \<Rightarrow> 'w \<Rightarrow> unit result \<times> 'w" where
  "ActivateContext api t w =
     (if resolved t F_WTOverlap then (Inr (), WTOverlap api (mContext t) True w) else (Inl (UB Null_function_pointer), w))"

text \<open>\<^verbatim>\<open>axis.axMin\<close> and \<^verbatim>\<open>axis.axMax - axis.axMin\<close>.\<close>

definition axis_extent :: "memory \<Rightarrow> (u32 \<times> u32) result" where
  "axis_extent axis =
     (case (mem_u32 0 axis, mem_u32 4 axis) of
        (Some lo, Some hi) \<Rightarrow>
          let d = sint hi - sint lo
          in if - (2 ^ 31) \<le> d \<and> d < 2 ^ 31 then Inr (lo, word_of_int d) else Inl (UB Signed_overflow)
      | _ \<Rightarrow> Inl (UB Indeterminate_value))"

text \<open>The loop over the driver's extensions, and the mask of the first one that is wanted.\<close>

partial_function (option) find_extension :: "'w wintab_api \<Rightarrow> u32 \<Rightarrow> u32 \<Rightarrow> 'w \<Rightarrow> (u32 option \<times> 'w) option" where
  "find_extension api i tag w =
     (case WTInfoW api (WTI_EXTENSIONS + i) EXT_TAG w of
        (bs, w1) \<Rightarrow>
          if bs = [] then Some (None, w1)
          else
            let tag1 = get_u32 0 (write_at 0 bs (le_bytes 4 (unat tag)))
            in if tag1 = WTX_EXPKEYS2 \<or> tag1 = WTX_OBT
               then
                 (case WTInfoW api (WTI_EXTENSIONS + i) EXT_MASK w1 of
                    (ms, w2) \<Rightarrow> Some (Some (get_u32 0 (write_at 0 ms (le_bytes 4 0))), w2))
               else find_extension api (i + 1) tag1 w1)"

definition contextName :: wchars where
  "contextName = wstr ''OTDIPC-WinTab-Adapter''"

definition initial_context :: "bytes \<Rightarrow> LOGCONTEXTW" where
  "initial_context bs =
     (let lc = LOGCONTEXTW_at (write_at 0 bs (replicate sizeof_LOGCONTEXTW 0))
      in lc\<lparr>lcName := write_at 0 (contextName @ [0]) (lcName lc), lcPktData := PACKETDATA, lcMoveMask := PACKETDATA,
           lcPktMode := PACKETMODE, lcOptions := CXO_MESSAGES, lcBtnDnMask := NOT 0, lcBtnUpMask := NOT 0,
           lcSysMode := 0\<rparr>)"

text \<open>
  Everything up to the call of \<^verbatim>\<open>WTOpenW\<close>: the context and the variable \<^verbatim>\<open>axis\<close>, which is reused for
  all three queries and keeps its bytes when a query is not supported.
\<close>

definition prepare_context ::
  "'w wintab_api \<Rightarrow> 'w \<Rightarrow> ((LOGCONTEXTW \<times> memory) result \<times> 'w) option" where
  "prepare_context api w =
     (let (cb, w1) = WTInfoW api WTI_DEFCONTEXT 0 w;
          lc = initial_context cb;
          (xb, w2) = WTInfoW api WTI_DEVICES DVC_X w1;
          axis1 = mem_store xb (replicate sizeof_AXIS None)
      in case axis_extent axis1 of
           Inl f \<Rightarrow> Some (Inl f, w2)
         | Inr (orgX, extX) \<Rightarrow>
             let lc1 = lc\<lparr>lcInOrgX := orgX, lcInExtX := extX, lcOutOrgX := 0, lcOutExtX := extX\<rparr>;
                 (yb, w3) = WTInfoW api WTI_DEVICES DVC_Y w2;
                 axis2 = mem_store yb axis1
             in case axis_extent axis2 of
                  Inl f \<Rightarrow> Some (Inl f, w3)
                | Inr (orgY, extY) \<Rightarrow>
                    let lc2 = lc1\<lparr>lcInOrgY := orgY, lcInExtY := extY, lcOutOrgY := 0, lcOutExtY := extY\<rparr>;
                        (pb, w4) = WTInfoW api WTI_DEVICES DVC_NPRESSURE w3;
                        axis3 = mem_store pb axis2
                    in case find_extension api 0 0 w4 of
                         None \<Rightarrow> None
                       | Some (None, w5) \<Rightarrow> Some (Inr (lc2, axis3), w5)
                       | Some (Some m, w5) \<Rightarrow> Some (Inr (lc2\<lparr>lcPktData := lcPktData lc2 OR m\<rparr>, axis3), w5))"

text \<open>\<^verbatim>\<open>format_to_n\<close> into the array, which is not terminated and keeps what it had behind the text.\<close>

definition format_to_n :: "nat \<Rightarrow> bytes \<Rightarrow> bytes \<Rightarrow> bytes" where
  "format_to_n N src dest = write_at 0 (take N src) dest"

definition populate_id :: "'w wintab_api \<Rightarrow> DeviceInfo \<Rightarrow> 'w \<Rightarrow> DeviceInfo result \<times> 'w" where
  "populate_id api d w =
     (case GetInfoString api WTI_DEVICES DVC_PNPID w of
        (Inl f, w1) \<Rightarrow> (Inl f, w1)
      | (Inr pnpId, w1) \<Rightarrow>
          if pnpId \<noteq> []
          then (Inr (d\<lparr>persistentId := format_to_n PersistentIdMaxLength (cstr ''wintab-pnpid:'' @ pnpId) (persistentId d)\<rparr>), w1)
          else
            (case GetInfoString api WTI_INTERFACE IFC_WINTABID w1 of
               (Inl f, w2) \<Rightarrow> (Inl f, w2)
             | (Inr interfaceId, w2) \<Rightarrow>
                 if interfaceId \<noteq> []
                 then (Inr (d\<lparr>persistentId := format_to_n PersistentIdMaxLength (cstr ''wintab-id:'' @ interfaceId) (persistentId d)\<rparr>), w2)
                 else (Inr d, w2)))"

definition describe_device ::
  "'w wintab_api \<Rightarrow> LOGCONTEXTW \<Rightarrow> memory \<Rightarrow> DeviceInfo \<Rightarrow> 'w \<Rightarrow> DeviceInfo result \<times> 'w" where
  "describe_device api lc axis d w =
     (case mem_u32 4 axis of
        None \<Rightarrow> (Inl (UB Indeterminate_value), w)
      | Some axmax \<Rightarrow>
          let d1 = d\<lparr>maxX := f32_of_int (sint (lcOutExtX lc)), maxY := f32_of_int (sint (lcOutExtY lc)),
                    maxPressure := axmax\<rparr>
          in case GetInfoString api WTI_DEVICES DVC_NAME w of
               (Inl f, w1) \<Rightarrow> (Inl f, w1)
             | (Inr nm, w1) \<Rightarrow> populate_id api (d1\<lparr>device_name := to_buffer NameMaxLength nm\<rparr>) w1)"

definition ConnectToTablet ::
  "'w wintab_api \<Rightarrow> 'h IHandler \<Rightarrow> WintabTablet \<Rightarrow> 'h \<Rightarrow> 'w \<Rightarrow> (unit result \<times> WintabTablet \<times> 'h \<times> 'w) option" where
  "ConnectToTablet api H t h w =
     (if \<not> resolved t F_WTInfoW then Some (Inl (UB Null_function_pointer), t, h, w)
      else
        case prepare_context api w of
          None \<Rightarrow> None
        | Some (Inl f, w1) \<Rightarrow> Some (Inl f, t, h, w1)
        | Some (Inr (lc, axis), w1) \<Rightarrow>
            if \<not> resolved t F_WTOpenW then Some (Inl (UB Null_function_pointer), t, h, w1)
            else
              let (ctx, w2) = WTOpenW api (mWindow t) lc True w1;
                  t1 = t\<lparr>mContext := ctx\<rparr>
              in if ctx = 0
                 then Some (Inl (Throw (Pointer_exception (cstr ''Failed to open wintab tablet''))), t1, h, w2)
                 else if \<not> resolved t F_WTInfoA then Some (Inl (UB Null_function_pointer), t1, h, w2)
                 else
                   case describe_device api lc axis (mDeviceInfo t1) w2 of
                     (Inl f, w3) \<Rightarrow> Some (Inl f, t1, h, w3)
                   | (Inr d, w3) \<Rightarrow>
                       let t2 = t1\<lparr>mDeviceInfo := d\<rparr>
                       in case SetDevice H d h of
                            (Inl f, h1) \<Rightarrow> Some (Inl f, t2, h1, w3)
                          | (Inr _, h1) \<Rightarrow> let (r, w4) = ActivateContext api t2 w3 in Some (r, t2, h1, w4))"

section \<open>Construction and destruction\<close>

definition WintabTablet_init :: "HWND \<Rightarrow> ForegroundOverride \<Rightarrow> LibWintab \<Rightarrow> WintabTablet" where
  "WintabTablet_init window ov lib =
     \<lparr>mWindow = window, mForegroundOverride = ov, mWintab = lib, mContext = 0, mNextTabletID = 1,
      mDeviceInfo = DeviceInfo_init, mState = State_init\<rparr>"

text \<open>The constructor's call of \<open>hijack\<close>.\<close>

definition inject_driver ::
  "'w wintab_api \<Rightarrow> InjectableBuggyDriver option \<Rightarrow> 'w \<Rightarrow> (unit result \<times> 'w) option" where
  "inject_driver api injectInto w =
     (case injectInto of
        None \<Rightarrow> Some (Inr (), w)
      | Some driver \<Rightarrow>
          (case driver_target driver of
             (bits, exe) \<Rightarrow>
               (case hijack api bits exe w of None \<Rightarrow> None | Some (r, ev, w1) \<Rightarrow> Some (r, w1))))"

text \<open>The members with destructors, in the reverse order of their declaration.\<close>

definition destroy_tablet_members :: "'w wintab_api \<Rightarrow> LibWintab \<Rightarrow> ForegroundOverride \<Rightarrow> 'w \<Rightarrow> 'w" where
  "destroy_tablet_members api lib ov w = ForegroundOverride_destroy (foreground api) ov (LibWintab_destroy api lib w)"

text \<open>
  The constructor.  The members are initialised in the order of their declaration, the override before
  the driver's library.  When the body throws the members are destroyed but the destructor does
  not run, so \<^verbatim>\<open>gInstance\<close> keeps its value.
\<close>

definition WintabTablet_new ::
  "'w wintab_api \<Rightarrow> 'h IHandler \<Rightarrow> HWND \<Rightarrow> InjectableBuggyDriver option \<Rightarrow> ('h, 'w) tablet_env
     \<Rightarrow> (unit result \<times> ('h, 'w) tablet_env) option" where
  "WintabTablet_new api H window injectInto e =
     (case ForegroundOverride_window (foreground api) window (te_world e) of
        (Inl f, w1) \<Rightarrow> Some (Inl f, e\<lparr>te_world := w1\<rparr>)
      | (Inr ov, w1) \<Rightarrow>
          let (lib, w2) = LibWintab_new api w1;
              unwind = destroy_tablet_members api lib ov
          in if gInstance e \<noteq> No_instance
             then Some (Inl (Throw (Runtime_error (cstr ''Only one WintabTablet at a time!''))), e\<lparr>te_world := unwind w2\<rparr>)
             else if \<not> lib_loaded lib
             then Some (Inl (Throw (Runtime_error (cstr ''Failed to load WINTAB32.dll''))), e\<lparr>te_world := unwind w2\<rparr>)
             else
               case inject_driver api injectInto w2 of
                 None \<Rightarrow> None
               | Some (Inl f, w3) \<Rightarrow> Some (Inl f, e\<lparr>gInstance := Dangling, te_world := unwind w3\<rparr>)
               | Some (Inr _, w3) \<Rightarrow>
                   (case ConnectToTablet api H (WintabTablet_init window ov lib) (te_handler e) w3 of
                      None \<Rightarrow> None
                    | Some (Inl f, t, h, w4) \<Rightarrow> Some (Inl f, \<lparr>gInstance = Dangling, te_handler = h, te_world = unwind w4\<rparr>)
                    | Some (Inr _, t, h, w4) \<Rightarrow> Some (Inr (), \<lparr>gInstance = Live t, te_handler = h, te_world = w4\<rparr>)))"

definition WintabTablet_destroy ::
  "'w wintab_api \<Rightarrow> WintabTablet \<Rightarrow> ('h, 'w) tablet_env \<Rightarrow> unit result \<times> ('h, 'w) tablet_env" where
  "WintabTablet_destroy api t e =
     (let e1 = e\<lparr>gInstance := No_instance\<rparr>;
          members = destroy_tablet_members api (mWintab t) (mForegroundOverride t)
      in if mContext t = 0 then (Inr (), e1\<lparr>te_world := members (te_world e)\<rparr>)
         else if \<not> resolved t F_WTClose then (Inl (UB Null_function_pointer), e1)
         else (Inr (), e1\<lparr>te_world := members (WTClose api (mContext t) (te_world e))\<rparr>))"

section \<open>Messages\<close>

definition CanProcessMessage :: "u32 \<Rightarrow> bool" where
  "CanProcessMessage message \<longleftrightarrow>
     message = WT_PROXIMITY \<or> message = WT_PACKET \<or> message = WT_PACKETEXT \<or> message = WT_CTXOVERLAP"

definition proximity :: "u64 \<Rightarrow> State \<Rightarrow> State" where
  "proximity lParam st =
     st\<lparr>penIsNearSurface := (lParam AND 0xffff \<noteq> 0), validBits := vm_or_assign (validBits st) VM_PenIsNearSurface\<rparr>"

text \<open>The assignments for a packet, in their order; the conversion to \<^verbatim>\<open>uint32_t\<close> can be out of range.\<close>

definition packet_state :: "f32 \<Rightarrow> PACKET \<Rightarrow> State \<Rightarrow> State result" where
  "packet_state max_y packet st =
     (let st1 = (if pkChanged packet AND PK_X \<noteq> 0
                 then st\<lparr>pos_x := f32_of_int (sint (pkX packet)), validBits := vm_or_assign (validBits st) VM_PositionX\<rparr>
                 else st);
          st2 = (if pkChanged packet AND PK_Y \<noteq> 0
                 then st1\<lparr>pos_y := f32_sub max_y (f32_of_int (sint (pkY packet))),
                          validBits := vm_or_assign (validBits st1) VM_PositionY\<rparr>
                 else st1)
      in case (if pkChanged packet AND PK_Z \<noteq> 0 then f32_to_u32 (f32_of_int (sint (pkZ packet))) else Some 0) of
           None \<Rightarrow> Inl (UB Float_conversion_out_of_range)
         | Some hover \<Rightarrow>
             let st3 = (if pkChanged packet AND PK_Z \<noteq> 0
                        then st2\<lparr>hoverDistance := hover, validBits := vm_or_assign (validBits st2) VM_HoverDistance\<rparr>
                        else st2);
                 st4 = (if pkChanged packet AND PK_NORMAL_PRESSURE \<noteq> 0
                        then st3\<lparr>pressure := pkNormalPressure packet, validBits := vm_or_assign (validBits st3) VM_Pressure\<rparr>
                        else st3)
             in Inr (if pkChanged packet AND PK_BUTTONS \<noteq> 0
                     then st4\<lparr>penButtons := pkButtons packet, validBits := vm_or_assign (validBits st4) VM_PenButtons\<rparr>
                     else st4))"

text \<open>\<^verbatim>\<open>1ui16 << nControl\<close> is computed in \<^verbatim>\<open>int\<close> and cut to 16 bits.\<close>

definition express_key :: "8 word \<Rightarrow> u32 \<Rightarrow> State \<Rightarrow> State result" where
  "express_key control key_state st =
     (if 32 \<le> unat control then Inl (UB Shift_exponent_too_large)
      else
        let m = (ucast (push_bit (unat control) (1 :: u32)) :: u16);
            st1 = (if key_state \<noteq> 0 then st\<lparr>auxButtons := auxButtons st OR ucast m\<rparr>
                   else st\<lparr>auxButtons := auxButtons st AND NOT (ucast m)\<rparr>)
        in Inr (st1\<lparr>validBits := vm_or_assign (validBits st1) VM_AuxButtons\<rparr>))"

definition ProcessMessageImpl ::
  "'w wintab_api \<Rightarrow> u32 \<Rightarrow> u64 \<Rightarrow> u64 \<Rightarrow> WintabTablet \<Rightarrow> 'w \<Rightarrow> bool result \<times> WintabTablet \<times> 'w" where
  "ProcessMessageImpl api message wParam lParam t w =
     (if message = WT_PROXIMITY then (Inr True, t\<lparr>mState := proximity lParam (mState t)\<rparr>, w)
      else if message = WT_CTXOVERLAP
      then
        if wParam = mContext t \<and> (ucast lParam :: u32) AND CXS_ONTOP = 0
        then let (r, w1) = ActivateContext api t w in (map_sum id (\<lambda>_. True) r, t, w1)
        else (Inr True, t, w)
      else if (message = WT_PACKET \<or> message = WT_PACKETEXT) \<and> \<not> resolved t F_WTPacket
      then (Inl (UB Null_function_pointer), t, w)
      else if message = WT_PACKET
      then
        case WTPacket api lParam (ucast wParam) w of
          (None, w1) \<Rightarrow> (Inr False, t, w1)
        | (Some bs, w1) \<Rightarrow>
            if sizeof_PACKET < length bs then (Inl (UB Out_of_bounds_write), t, w1)
            else
              (case packet_state (maxY (mDeviceInfo t)) (PACKET_at (write_at 0 bs (replicate sizeof_PACKET 0))) (mState t) of
                 Inl f \<Rightarrow> (Inl f, t, w1)
               | Inr st \<Rightarrow> (Inr True, t\<lparr>mState := st\<rparr>, w1))
      else if message = WT_PACKETEXT
      then
        case WTPacket api lParam (ucast wParam) w of
          (None, w1) \<Rightarrow> (Inr False, t, w1)
        | (Some bs, w1) \<Rightarrow>
            if sizeof_PACKETEXT (arch_bits api) < length bs then (Inl (UB Out_of_bounds_write), t, w1)
            else
              let packet = mem_store bs (replicate (sizeof_PACKETEXT (arch_bits api)) None);
                  off = offsetof_pkExpKeys (arch_bits api)
              in case (mem_u8 (off + 1) packet, mem_u32 (off + 4) packet) of
                   (Some control, Some key_state) \<Rightarrow>
                     (case express_key control key_state (mState t) of
                        Inl f \<Rightarrow> (Inl f, t, w1)
                      | Inr st \<Rightarrow> (Inr True, t\<lparr>mState := st\<rparr>, w1))
                 | _ \<Rightarrow> (Inl (UB Indeterminate_value), t, w1)
      else (Inr False, t, w))"

definition ProcessMessage ::
  "'w wintab_api \<Rightarrow> 'h IHandler \<Rightarrow> HWND \<Rightarrow> u32 \<Rightarrow> u64 \<Rightarrow> u64 \<Rightarrow> ('h, 'w) tablet_env
     \<Rightarrow> bool result \<times> ('h, 'w) tablet_env" where
  "ProcessMessage api H hwnd message wParam lParam e =
     (if \<not> CanProcessMessage message then (Inr False, e)
      else
        case gInstance e of
          No_instance \<Rightarrow> (Inr False, e)
        | Dangling \<Rightarrow> (Inl (UB Dangling_pointer), e)
        | Live t \<Rightarrow>
            if mWindow t \<noteq> hwnd then (Inr False, e)
            else
              case ProcessMessageImpl api message wParam lParam t (te_world e) of
                (Inl f, t1, w1) \<Rightarrow> (Inl f, e\<lparr>gInstance := Live t1, te_world := w1\<rparr>)
              | (Inr False, t1, w1) \<Rightarrow> (Inr False, e\<lparr>gInstance := Live t1, te_world := w1\<rparr>)
              | (Inr True, t1, w1) \<Rightarrow>
                  (case SetState H (mState t1) (te_handler e) of
                     (Inl f, h1) \<Rightarrow> (Inl f, \<lparr>gInstance = Live t1, te_handler = h1, te_world = w1\<rparr>)
                   | (Inr _, h1) \<Rightarrow> (Inr True, \<lparr>gInstance = Live t1, te_handler = h1, te_world = w1\<rparr>)))"

text \<open>The undefined behaviour the constructor can reach, all of it through what the driver or the system reports.\<close>

definition start_fault :: "ub_kind \<Rightarrow> bool" where
  "start_fault k \<longleftrightarrow>
     k = Signed_overflow \<or> k = Indeterminate_value \<or> k = Out_of_bounds_write \<or> k = Out_of_bounds_read \<or> k = Null_function_pointer"

text \<open>A connected tablet: its arrays have their sizes, it has a context, and its pointers are those of the library.\<close>

definition tablet_ok :: "'w wintab_api \<Rightarrow> WintabTablet \<Rightarrow> bool" where
  "tablet_ok api t \<longleftrightarrow>
     wf_DeviceInfo (mDeviceInfo t) \<and> mContext t \<noteq> 0 \<and>
     lib_functions (mWintab t) = filter (GetProcAddress api) WINTAB_FUNCTIONS"

section \<open>A driver\<close>

text \<open>
  A driver with fixed answers: a tablet of 1000 by 2000 units, with or without a pressure axis, that
  hands out one packet.
\<close>

definition sample_axis :: "u32 \<Rightarrow> AXIS" where
  "sample_axis m = \<lparr>axMin = 0, axMax = m, axUnits = 0, axResolution = 0\<rparr>"

definition sample_info :: "bool \<Rightarrow> u32 \<Rightarrow> u32 \<Rightarrow> bytes" where
  "sample_info pressure_axis cat idx =
     (if cat = WTI_DEVICES \<and> idx = DVC_X then struct_bytes (\<lambda>_. 0) (AXIS_fields (sample_axis 1000))
      else if cat = WTI_DEVICES \<and> idx = DVC_Y then struct_bytes (\<lambda>_. 0) (AXIS_fields (sample_axis 2000))
      else if cat = WTI_DEVICES \<and> idx = DVC_NPRESSURE \<and> pressure_axis
      then struct_bytes (\<lambda>_. 0) (AXIS_fields (sample_axis 8191))
      else [])"

definition sample_strings :: "u32 \<Rightarrow> u32 \<Rightarrow> bytes" where
  "sample_strings cat idx =
     (if cat = WTI_DEVICES \<and> idx = DVC_PNPID then [0]
      else if cat = WTI_DEVICES \<and> idx = DVC_NAME then cstr ''Pentablet'' @ [0, 0xE9, 3]
      else cstr ''Maker'')"

definition sample_packet :: PACKET where
  "sample_packet = \<lparr>pkChanged = PK_X OR PK_Y, pkButtons = 0, pkX = 300, pkY = 500, pkZ = 0, pkNormalPressure = 0\<rparr>"

definition sample_wintab_api :: "bool \<Rightarrow> HCTX \<Rightarrow> bytes option \<Rightarrow> (nat option \<times> HWND \<times> bool) wintab_api" where
  "sample_wintab_api pressure_axis ctx packet =
     \<lparr>load_WINTAB32 = (\<lambda>w. (True, w)), GetProcAddress = (\<lambda>_. True), free_WINTAB32 = (\<lambda>w. w), WTInfoW = (\<lambda>c i w. (sample_info pressure_axis c i, w)),
      WTInfoA = (\<lambda>c i w. (sample_strings c i, w)), WTOpenW = (\<lambda>_ _ _ w. (ctx, w)), WTClose = (\<lambda>_ w. w),
      WTOverlap = (\<lambda>_ _ w. w), WTPacket = (\<lambda>_ _ w. (packet, w)), arch_bits = 64, module_directory = (\<lambda>_. []),
      HijackDllName = [], injection = sample_inject_api [] 0 sample_processes, foreground = fg_api.truncate (sample_fg_api 1)\<rparr>"

definition null_handler :: "unit IHandler" where
  "null_handler = \<lparr>SetDevice = (\<lambda>_ h. (Inr (), h)), SetState = (\<lambda>_ h. (Inr (), h))\<rparr>"

definition sample_tablet :: WintabTablet where
  "sample_tablet =
     (WintabTablet_init 77 \<lparr>mMutex = 1, mMapping = 2, mLock = True, mView = 3\<rparr> \<lparr>lib_loaded = True, lib_functions = WINTAB_FUNCTIONS\<rparr>)
       \<lparr>mContext := 5, mDeviceInfo := DeviceInfo_init\<lparr>maxX := f32_of_int 1000, maxY := f32_of_int 2000\<rparr>\<rparr>"

lemma tablet_ok_state [simp]: "tablet_ok api (t\<lparr>mState := st\<rparr>) = tablet_ok api t"
  by (simp add: tablet_ok_def)

lemma WINTAB_FUNCTIONS_all [simp]: "f \<in> set WINTAB_FUNCTIONS"
  by (cases f) (simp_all add: WINTAB_FUNCTIONS_def)

lemma resolved_simps [simp]:
  "resolved (t\<lparr>mContext := c\<rparr>) = resolved t" "resolved (t\<lparr>mDeviceInfo := d\<rparr>) = resolved t" "resolved (t\<lparr>mState := st\<rparr>) = resolved t"
  "resolved sample_tablet f" "resolved (WintabTablet_init window ov lib) f \<longleftrightarrow> f \<in> set (lib_functions lib)"
  by (simp_all add: resolved_def fun_eq_iff sample_tablet_def WintabTablet_init_def)

lemma sample_library [simp]:
  "LibWintab_new (sample_wintab_api b ctx q) w = (\<lparr>lib_loaded = True, lib_functions = WINTAB_FUNCTIONS\<rparr>, w)"
  by (simp add: LibWintab_new_def sample_wintab_api_def)

section \<open>Strings of the driver\<close>

lemma erase_trailing_junk_spec:
  "\<exists>junk. bs = erase_trailing_junk bs @ junk \<and> list_all (\<lambda>c. \<not> not_junk c) junk \<and>
     (list_ex not_junk bs \<longrightarrow> erase_trailing_junk bs \<noteq> [] \<and> not_junk (last (erase_trailing_junk bs)))"
proof (cases "list_ex not_junk bs")
  case True
  let ?P = "\<lambda>c. \<not> not_junk c"
  have eq: "bs = rev (dropWhile ?P (rev bs)) @ rev (takeWhile ?P (rev bs))"
    by (metis rev_append rev_rev_ident takeWhile_dropWhile_id)
  have ne: "dropWhile ?P (rev bs) \<noteq> []" using True by (auto simp: list_ex_iff dropWhile_eq_Nil_conv)
  have "list_all ?P (rev (takeWhile ?P (rev bs)))" by (auto simp: list_all_iff dest: set_takeWhileD)
  moreover have "not_junk (hd (dropWhile ?P (rev bs)))" using hd_dropWhile [OF ne] by simp
  ultimately show ?thesis
    using True eq ne by (intro exI [of _ "rev (takeWhile ?P (rev bs))"]) (simp add: erase_trailing_junk_def last_rev)
next
  case False
  then show ?thesis by (simp add: erase_trailing_junk_def)
qed

lemma GetInfoString_ok:
  assumes "WTInfoA api cat idx w = (bs, w1)" and "length bs \<le> 1024"
  shows "GetInfoString api cat idx w = (Inr (erase_trailing_junk bs), w1)"
  using assms by (simp add: GetInfoString_def write_at_def resize_def)

section \<open>The state\<close>

lemma packet_state_fields:
  assumes "packet_state my p st = Inr st'"
  shows "pos_x st' = (if pkChanged p AND PK_X \<noteq> 0 then f32_of_int (sint (pkX p)) else pos_x st)"
    and "pos_y st' = (if pkChanged p AND PK_Y \<noteq> 0 then f32_sub my (f32_of_int (sint (pkY p))) else pos_y st)"
    and "pressure st' = (if pkChanged p AND PK_NORMAL_PRESSURE \<noteq> 0 then pkNormalPressure p else pressure st)"
    and "penButtons st' = (if pkChanged p AND PK_BUTTONS \<noteq> 0 then pkButtons p else penButtons st)"
    and "auxButtons st' = auxButtons st" and "penIsNearSurface st' = penIsNearSurface st"
    and "validBits st' = validBits st OR (if pkChanged p AND PK_X \<noteq> 0 then VM_PositionX else 0)
      OR (if pkChanged p AND PK_Y \<noteq> 0 then VM_PositionY else 0) OR (if pkChanged p AND PK_Z \<noteq> 0 then VM_HoverDistance else 0)
      OR (if pkChanged p AND PK_NORMAL_PRESSURE \<noteq> 0 then VM_Pressure else 0)
      OR (if pkChanged p AND PK_BUTTONS \<noteq> 0 then VM_PenButtons else 0)"
  using assms
  by (auto simp: packet_state_def Let_def vm_or_assign_def vm_or_def or.assoc split: option.splits if_splits)

lemma packet_state_total:
  assumes "pkChanged p AND PK_Z \<noteq> 0 \<longrightarrow> 0 \<le> sint (pkZ p)"
  shows "\<exists>st'. packet_state my p st = Inr st'"
proof -
  have "sint (pkZ p) < 2 ^ 31" using sint_lt [of "pkZ p"] by simp
  then have "pkChanged p AND PK_Z \<noteq> 0 \<longrightarrow> (\<exists>h. f32_to_u32 (f32_of_int (sint (pkZ p))) = Some h)"
    using assms f32_to_u32_of_int_Some by blast
  then show ?thesis by (auto simp: packet_state_def Let_def)
qed

lemma packet_state_negative_z:
  assumes "pkChanged p AND PK_Z \<noteq> 0" and "sint (pkZ p) < 0"
  shows "packet_state my p st = Inl (UB Float_conversion_out_of_range)"
  using assms f32_to_u32_of_int_neg by (simp add: packet_state_def Let_def)

lemma packet_state_fault:
  "packet_state my p st = Inl f \<Longrightarrow> f = UB Float_conversion_out_of_range"
  by (auto simp: packet_state_def Let_def split: option.splits)

lemma packet_state_valid:
  "packet_state my p st = Inr st' \<Longrightarrow> bit (validBits st) k \<Longrightarrow> bit (validBits st') k"
  by (simp add: packet_state_fields(7) bit_or_iff)

lemma packet_state_hover:
  assumes "packet_state my p st = Inr st'" and "pkChanged p AND PK_Z \<noteq> 0"
  shows "f32_to_u32 (f32_of_int (sint (pkZ p))) = Some (hoverDistance st')"
  using assms by (auto simp: packet_state_def Let_def split: option.splits if_splits)

lemma control_mask:
  assumes "k < 32"
  shows "bit (ucast (ucast ((2 :: u32) ^ k) :: u16) :: u32) j \<longleftrightarrow> j = k \<and> k < 16"
  using assms by (auto simp: bit_simps)

lemma express_key_bits:
  assumes "unat control < 32" and "express_key control key_state st = Inr st'"
  shows "bit (auxButtons st') j \<longleftrightarrow>
      (if j = unat control \<and> unat control < 16 then key_state \<noteq> 0 else bit (auxButtons st) j)"
    and "validBits st' = validBits st OR VM_AuxButtons"
    and "pos_x st' = pos_x st" and "pos_y st' = pos_y st" and "pressure st' = pressure st"
    and "penButtons st' = penButtons st" and "hoverDistance st' = hoverDistance st"
    and "penIsNearSurface st' = penIsNearSurface st"
  using assms bit_imp_le_length [of "auxButtons st" j]
  by (auto simp: express_key_def Let_def vm_or_assign_def vm_or_def bit_or_iff bit_and_iff bit_not_iff control_mask
      split: if_splits)

lemma express_key_total: "unat control < 32 \<Longrightarrow> \<exists>st'. express_key control key_state st = Inr st'"
  by (simp add: express_key_def Let_def)

lemma express_key_fault: "express_key control key_state st = Inl f \<Longrightarrow> f = UB Shift_exponent_too_large"
  by (auto simp: express_key_def Let_def split: if_splits)

lemma express_key_valid:
  "express_key control key_state st = Inr st' \<Longrightarrow> bit (validBits st) k \<Longrightarrow> bit (validBits st') k"
  by (auto simp: express_key_def Let_def vm_or_assign_def vm_or_def bit_or_iff split: if_splits)

section \<open>Messages\<close>

text \<open>What a message can change of the tablet: the state, never taking back a valid bit.\<close>

lemma ProcessMessageImpl_frame:
  assumes "ProcessMessageImpl api message wParam lParam t w = (r, t', w')"
  shows "\<exists>st. t' = t\<lparr>mState := st\<rparr> \<and> (\<forall>k. bit (validBits (mState t)) k \<longrightarrow> bit (validBits st) k)"
    and "r = Inl f \<Longrightarrow> t' = t \<and>
      (f \<in> {UB Float_conversion_out_of_range, UB Shift_exponent_too_large, UB Indeterminate_value, UB Out_of_bounds_write} \<or>
       f = UB Null_function_pointer \<and> \<not> list_all (resolved t) WINTAB_FUNCTIONS)"
proof -
  have same: "\<exists>st. t = t\<lparr>mState := st\<rparr> \<and> (\<forall>k. bit (validBits (mState t)) k \<longrightarrow> bit (validBits st) k)"
    by (intro exI [of _ "mState t"]) simp
  show "\<exists>st. t' = t\<lparr>mState := st\<rparr> \<and> (\<forall>k. bit (validBits (mState t)) k \<longrightarrow> bit (validBits st) k)"
    using assms same
    by (auto simp: ProcessMessageImpl_def ActivateContext_def Let_def proximity_def vm_or_assign_def vm_or_def bit_or_iff
        dest: packet_state_valid express_key_valid split: if_splits prod.splits option.splits sum.splits)
  show "r = Inl f \<Longrightarrow> t' = t \<and>
      (f \<in> {UB Float_conversion_out_of_range, UB Shift_exponent_too_large, UB Indeterminate_value, UB Out_of_bounds_write} \<or>
       f = UB Null_function_pointer \<and> \<not> list_all (resolved t) WINTAB_FUNCTIONS)"
    using assms
    by (auto simp: ProcessMessageImpl_def ActivateContext_def WINTAB_FUNCTIONS_def Let_def
        dest: packet_state_fault express_key_fault split: if_splits prod.splits option.splits sum.splits)
qed

lemma ProcessMessageImpl_packet:
  assumes "resolved t F_WTPacket" and "WTPacket api lParam (ucast wParam) w = (Some (struct_bytes pad (PACKET_fields p)), w1)"
  shows "ProcessMessageImpl api WT_PACKET wParam lParam t w =
    (case packet_state (maxY (mDeviceInfo t)) p (mState t) of
       Inl f \<Rightarrow> (Inl f, t, w1) | Inr st \<Rightarrow> (Inr True, t\<lparr>mState := st\<rparr>, w1))"
proof -
  have "length (struct_bytes pad (PACKET_fields p)) = sizeof_PACKET" by (simp add: layout_simps)
  moreover from this have "PACKET_at (write_at 0 (struct_bytes pad (PACKET_fields p)) (replicate sizeof_PACKET 0)) = p"
    using PACKET_at_bytes [of pad p "[]"] by (simp add: write_at_def)
  ultimately show ?thesis
    using assms by (simp add: ProcessMessageImpl_def WT_PACKET_def WT_PROXIMITY_def WT_CTXOVERLAP_def WT_DEFBASE_def)
qed

section \<open>Connecting\<close>

lemma length_format_to_n: "length dest = N \<Longrightarrow> length (format_to_n N src dest) = N"
  by (simp add: format_to_n_def write_at_def min_def)

lemma populate_id_wf:
  "populate_id api d w = (Inr d', w') \<Longrightarrow> wf_DeviceInfo d \<Longrightarrow> wf_DeviceInfo d'"
  by (auto simp: populate_id_def wf_DeviceInfo_def length_format_to_n split: prod.splits sum.splits if_splits)

lemma describe_device_wf:
  "describe_device api lc axis d w = (Inr d', w') \<Longrightarrow> wf_DeviceInfo d \<Longrightarrow> wf_DeviceInfo d'"
  by (auto simp: describe_device_def Let_def wf_DeviceInfo_def to_buffer_def
      intro: populate_id_wf [unfolded wf_DeviceInfo_def] dest!: populate_id_wf
      split: option.splits prod.splits sum.splits)

lemma axis_extent_fault: "axis_extent m = Inl f \<Longrightarrow> f \<in> {UB Signed_overflow, UB Indeterminate_value}"
  by (auto simp: axis_extent_def Let_def split: option.splits if_splits)

lemma prepare_context_fault:
  "prepare_context api w = Some (Inl f, w') \<Longrightarrow> f \<in> {UB Signed_overflow, UB Indeterminate_value}"
  by (auto simp: prepare_context_def Let_def dest: axis_extent_fault split: option.splits sum.splits prod.splits)

lemma describe_device_fault:
  "describe_device api lc axis d w = (Inl f, w') \<Longrightarrow> f \<in> {UB Indeterminate_value, UB Out_of_bounds_write}"
  by (auto simp: describe_device_def populate_id_def GetInfoString_def Let_def split: option.splits sum.splits prod.splits if_splits)

lemma inject_driver_fault:
  "inject_driver api inject w = Some (Inl f, w') \<Longrightarrow> (\<exists>e. f = Throw e \<and> is_std_exception e) \<or> f = UB Out_of_bounds_read"
  by (auto simp: inject_driver_def hijack_def dest: InjectDllByExecutableFileName_fault split: option.splits prod.splits if_splits)

lemma ForegroundOverride_window_fault:
  "ForegroundOverride_window api window w = (Inl f, w') \<Longrightarrow> \<exists>e. f = Throw e \<and> is_std_exception e"
  by (auto simp: ForegroundOverride_window_def ForegroundOverride_open_def fg_throw_def Let_def
      split: option.splits sum.splits prod.splits if_splits)

lemma WintabTablet_init_ok:
  assumes "LibWintab_new api w = (lib, w1)" and "lib_loaded lib"
  shows "wf_DeviceInfo (mDeviceInfo (WintabTablet_init window ov lib))"
    and "lib_functions (mWintab (WintabTablet_init window ov lib)) = filter (GetProcAddress api) WINTAB_FUNCTIONS"
  using assms
  by (auto simp: WintabTablet_init_def wf_DeviceInfo_def DeviceInfo_init_def LibWintab_new_def split: prod.splits if_splits)

lemma ConnectToTablet_ok:
  assumes "ConnectToTablet api H t h w = Some (Inr u, t', h', w')" and "wf_DeviceInfo (mDeviceInfo t)"
    and "lib_functions (mWintab t) = filter (GetProcAddress api) WINTAB_FUNCTIONS"
  shows "tablet_ok api t'"
  using assms
  by (auto simp: ConnectToTablet_def tablet_ok_def Let_def dest: describe_device_wf split: option.splits sum.splits prod.splits if_splits)

lemma new_live:
  assumes "WintabTablet_new api H window inject e = Some (Inr u, e')"
  shows "\<exists>t. gInstance e' = Live t \<and> tablet_ok api t"
  using assms
  by (auto simp: WintabTablet_new_def Let_def dest!: ConnectToTablet_ok [OF _ WintabTablet_init_ok]
      split: option.splits sum.splits prod.splits if_splits)

context handler_contract
begin

text \<open>The tablet keeps its side of the handler's contract: a device comes first, then states.\<close>

lemma connect_ready:
  assumes "invar h" and "wf_DeviceInfo (mDeviceInfo t)" and "ConnectToTablet api H t h w = Some (r, t', h', w')"
  shows "invar h'" and "r = Inr () \<Longrightarrow> ready h'"
proof -
  have *: "SetDevice H d h = (Inl f, h1) \<Longrightarrow> wf_DeviceInfo d \<Longrightarrow> False" for d f h1
    using device_ok [OF assms(1), of d] by simp
  have **: "SetDevice H d h = (Inr u, h1) \<Longrightarrow> wf_DeviceInfo d \<Longrightarrow> invar h1 \<and> ready h1" for d u h1
    using device_ok [OF assms(1), of d] by simp
  have wf: "describe_device api lc axis (mDeviceInfo t) w2 = (Inr d, w3) \<Longrightarrow> wf_DeviceInfo d" for lc axis w2 d w3
    by (rule describe_device_wf [OF _ assms(2)])
  show "invar h'" and "r = Inr () \<Longrightarrow> ready h'"
    using assms(1,3)
    by (auto simp: ConnectToTablet_def Let_def dest!: wf dest: * ** split: option.splits sum.splits prod.splits if_splits)
qed

lemma new_ready:
  assumes "invar (te_handler e)" and "WintabTablet_new api H window injectInto e = Some (r, e')"
  shows "invar (te_handler e')"
    and "r = Inr () \<Longrightarrow> ready (te_handler e') \<and> (\<exists>t. gInstance e' = Live t \<and> tablet_ok api t)"
proof -
  have wf: "wf_DeviceInfo (mDeviceInfo (WintabTablet_init window ov lib))" for ov lib
    by (simp add: WintabTablet_init_def wf_DeviceInfo_def DeviceInfo_init_def)
  note c = connect_ready [OF assms(1) wf]
  have k: "LibWintab_new api w1 = (lib, w2) \<Longrightarrow> lib_loaded lib \<Longrightarrow>
      ConnectToTablet api H (WintabTablet_init window ov lib) h w3 = Some (Inr u, t', h', w4) \<Longrightarrow> tablet_ok api t'" for w1 w2 w3 w4 ov lib t' h h' u
    using ConnectToTablet_ok [of api H "WintabTablet_init window ov lib"] WintabTablet_init_ok [of api w1 lib w2] by auto
  show "invar (te_handler e')"
    using assms by (auto simp: WintabTablet_new_def Let_def dest: c split: option.splits sum.splits prod.splits if_splits)
  show "r = Inr () \<Longrightarrow> ready (te_handler e') \<and> (\<exists>t. gInstance e' = Live t \<and> tablet_ok api t)"
    using assms
    by (auto simp: WintabTablet_new_def Let_def dest: c k split: option.splits sum.splits prod.splits if_splits)
qed

lemma connect_fault:
  assumes "invar h" and "wf_DeviceInfo (mDeviceInfo t)" and "ConnectToTablet api H t h w = Some (Inl f, t', h', w')"
  shows "(\<exists>e. f = Throw e) \<or> (\<exists>k. f = UB k \<and> start_fault k)"
proof -
  have *: "SetDevice H d h = (Inl f, h1) \<Longrightarrow> describe_device api lc axis (mDeviceInfo t) w2 = (Inr d, w3) \<Longrightarrow> False" for d f h1 lc axis w2 w3
    using device_ok [OF assms(1), of d] describe_device_wf [OF _ assms(2)] by fastforce
  show ?thesis
    using assms(3)
    by (auto simp: ConnectToTablet_def ActivateContext_def start_fault_def Let_def
        dest: * prepare_context_fault describe_device_fault split: option.splits sum.splits prod.splits if_splits)
qed

lemma new_fault:
  assumes "invar (te_handler e)" and "WintabTablet_new api H window inject e = Some (Inl f, e')" and "gInstance e = No_instance"
  shows "(\<exists>x. f = Throw x \<and> (is_std_exception x \<or> gInstance e' = Dangling)) \<or>
    (\<exists>k. f = UB k \<and> start_fault k \<and> gInstance e' = Dangling)"
proof -
  have wf: "wf_DeviceInfo (mDeviceInfo (WintabTablet_init window ov lib))" for ov lib
    by (simp add: WintabTablet_init_def wf_DeviceInfo_def DeviceInfo_init_def)
  show ?thesis
    using assms(2,3)
    by (auto simp: WintabTablet_new_def Let_def start_fault_def
        dest: connect_fault [OF assms(1) wf] inject_driver_fault ForegroundOverride_window_fault
        split: option.splits sum.splits prod.splits if_splits)
qed

lemma message_ok:
  assumes "gInstance e = Live t" and "invar (te_handler e)" and "ready (te_handler e)"
    and "ProcessMessage api H hwnd message wParam lParam e = (r, e')"
  shows "(\<exists>st. gInstance e' = Live (t\<lparr>mState := st\<rparr>)) \<and> invar (te_handler e') \<and> ready (te_handler e')"
    and "r = Inl f \<Longrightarrow> f \<in> {UB Float_conversion_out_of_range, UB Shift_exponent_too_large, UB Indeterminate_value, UB Out_of_bounds_write} \<or>
       f = UB Null_function_pointer \<and> \<not> list_all (resolved t) WINTAB_FUNCTIONS"
proof -
  have *: "SetState H st (te_handler e) = (Inl f, h1) \<Longrightarrow> False" for st f h1
    using state_ok [OF assms(2,3), of st] by simp
  have **: "SetState H st (te_handler e) = (Inr u, h1) \<Longrightarrow> invar h1 \<and> ready h1" for st u h1
    using state_ok [OF assms(2,3), of st] by simp
  have "t = t\<lparr>mState := mState t\<rparr>" by simp
  then have same: "\<exists>st. t = t\<lparr>mState := st\<rparr>" by blast
  show "(\<exists>st. gInstance e' = Live (t\<lparr>mState := st\<rparr>)) \<and> invar (te_handler e') \<and> ready (te_handler e')"
    using assms ProcessMessageImpl_frame(1) [of api message wParam lParam t "te_world e"] same
    by (auto simp: ProcessMessage_def dest: * ** split: if_splits prod.splits sum.splits bool.splits)
  show "r = Inl f \<Longrightarrow> f \<in> {UB Float_conversion_out_of_range, UB Shift_exponent_too_large, UB Indeterminate_value, UB Out_of_bounds_write} \<or>
       f = UB Null_function_pointer \<and> \<not> list_all (resolved t) WINTAB_FUNCTIONS"
    using assms ProcessMessageImpl_frame(2) [of api message wParam lParam t "te_world e"]
    by (auto simp: ProcessMessage_def dest: * split: if_splits prod.splits sum.splits bool.splits)
qed

end

section \<open>A driver whose answers do not change\<close>

lemma mem_store_all: "length bs = length mem \<Longrightarrow> mem_store bs mem = map Some bs"
  by (simp add: mem_store_def write_at_def)

lemma mem_store_none [simp]: "mem_store [] mem = mem"
  by (simp add: mem_store_def write_at_def)

lemma mem_u32_some: "off + 4 \<le> length bs \<Longrightarrow> mem_u32 off (map Some bs) = Some (get_u32 off bs)"
  by (simp add: mem_u32_def mem_bytes_def mem_slice_def get_u32_def take_map drop_map list_all_iff comp_def)

lemma sizeof_AXIS_16 [simp]: "sizeof (AXIS_fields a) = 16"
  by (simp add: layout_simps sizeof_AXIS_def)

lemma AXIS_members:
  "get_u32 0 (struct_bytes pad (AXIS_fields a)) = axMin a"
  "get_u32 4 (struct_bytes pad (AXIS_fields a)) = axMax a"
  using get_u32_at [of 0 "AXIS_fields a" "axMin a" pad "[]"] get_u32_at [of 4 "AXIS_fields a" "axMax a" pad "[]"]
  by (simp_all add: AXIS_fields_def align_up_def Let_def)

lemma axis_extent_of:
  assumes "- (2 ^ 31) \<le> sint (axMax a) - sint (axMin a)" and "sint (axMax a) - sint (axMin a) < 2 ^ 31"
  shows "axis_extent (map Some (struct_bytes pad (AXIS_fields a))) =
    Inr (axMin a, word_of_int (sint (axMax a) - sint (axMin a)))"
  using assms by (simp add: axis_extent_def mem_u32_some AXIS_members Let_def)

lemma sint_of_extent:
  assumes "- (2 ^ 31) \<le> d" and "d < 2 ^ 31"
  shows "sint (word_of_int d :: u32) = d"
  using assms by (subst sint_sbintrunc') (simp add: signed_take_bit_int_eq_self_iff)

lemma prepare_context_steady:
  assumes steady: "\<And>c i w. WTInfoW api c i w = (info c i, w)"
    and X: "info WTI_DEVICES DVC_X = struct_bytes padx (AXIS_fields ax)"
    and Y: "info WTI_DEVICES DVC_Y = struct_bytes pady (AXIS_fields ay)"
    and rx: "- (2 ^ 31) \<le> sint (axMax ax) - sint (axMin ax)" "sint (axMax ax) - sint (axMin ax) < 2 ^ 31"
    and ry: "- (2 ^ 31) \<le> sint (axMax ay) - sint (axMin ay)" "sint (axMax ay) - sint (axMin ay) < 2 ^ 31"
    and p: "prepare_context api w = Some (Inr (lc, axis), w1)"
  shows "sint (lcOutExtX lc) = sint (axMax ax) - sint (axMin ax)"
    and "sint (lcOutExtY lc) = sint (axMax ay) - sint (axMin ay)"
    and "lcInOrgX lc = axMin ax" and "lcInOrgY lc = axMin ay" and "lcOptions lc = CXO_MESSAGES"
    and "axis = mem_store (info WTI_DEVICES DVC_NPRESSURE) (map Some (struct_bytes pady (AXIS_fields ay)))"
proof -
  have ax: "mem_store (info WTI_DEVICES DVC_X) (replicate sizeof_AXIS None) = map Some (struct_bytes padx (AXIS_fields ax))"
    by (simp add: X mem_store_all sizeof_AXIS_def)
  have ay: "mem_store (info WTI_DEVICES DVC_Y) (map Some (struct_bytes padx (AXIS_fields ax))) =
      map Some (struct_bytes pady (AXIS_fields ay))"
    by (simp add: Y mem_store_all)
  note r = p [unfolded prepare_context_def steady Let_def prod.case ax ay axis_extent_of [OF rx] axis_extent_of [OF ry] sum.case]
  show "sint (lcOutExtX lc) = sint (axMax ax) - sint (axMin ax)"
    and "sint (lcOutExtY lc) = sint (axMax ay) - sint (axMin ay)"
    and "lcInOrgX lc = axMin ax" and "lcInOrgY lc = axMin ay" and "lcOptions lc = CXO_MESSAGES"
    and "axis = mem_store (info WTI_DEVICES DVC_NPRESSURE) (map Some (struct_bytes pady (AXIS_fields ay)))"
    using r sint_of_extent [OF rx] sint_of_extent [OF ry]
    by (auto simp: initial_context_def Let_def split: option.splits)
qed

lemma describe_device_fields:
  assumes "describe_device api lc axis d w = (Inr d', w')"
  shows "maxX d' = f32_of_int (sint (lcOutExtX lc))" and "maxY d' = f32_of_int (sint (lcOutExtY lc))"
    and "mem_u32 4 axis = Some (maxPressure d')" and "nonPersistentTabletId d' = nonPersistentTabletId d"
  using assms
  by (auto simp: describe_device_def populate_id_def Let_def split: option.splits prod.splits sum.splits if_splits)

lemma ConnectToTablet_success:
  assumes "ConnectToTablet api H t h w = Some (Inr (), t', h', w')"
  shows "\<exists>lc axis w1 w2 w3. prepare_context api w = Some (Inr (lc, axis), w1) \<and>
    WTOpenW api (mWindow t) lc True w1 = (mContext t', w2) \<and> mContext t' \<noteq> 0 \<and>
    describe_device api lc axis (mDeviceInfo t) w2 = (Inr (mDeviceInfo t'), w3) \<and>
    SetDevice H (mDeviceInfo t') h = (Inr (), h') \<and> w' = WTOverlap api (mContext t') True w3 \<and>
    mState t' = mState t"
  using assms
  by (auto simp: ConnectToTablet_def ActivateContext_def Let_def split: option.splits sum.splits prod.splits if_splits)

text \<open>A driver with \<open>n\<close> extensions, none of which is wanted or some is, is asked at most \<open>n + 1\<close> times.\<close>

lemma find_extension_returns:
  assumes "\<And>w. \<exists>w'. WTInfoW api (WTI_EXTENSIONS + word_of_nat n) EXT_TAG w = ([], w')" and "k \<le> n"
  shows "\<exists>r. find_extension api (word_of_nat k) tag w = Some r"
  using assms(2)
proof (induction "n - k" arbitrary: k tag w)
  case 0
  then have "k = n" by simp
  then show ?case using assms(1) [of w] by (subst find_extension.simps) auto
next
  case (Suc m)
  have "\<exists>r. find_extension api (word_of_nat (Suc k)) tag w = Some r" for tag w
    using Suc by (intro Suc.hyps(1)) simp_all
  then have "\<exists>r. find_extension api (word_of_nat k + 1) tag w = Some r" for tag w by (simp add: add.commute)
  then show ?case
    by (subst find_extension.simps) (auto simp: Let_def split: prod.split)
qed

lemma sample_axis_extent:
  assumes "m < 10000"
  shows "axis_extent (map Some (struct_bytes pad (AXIS_fields (sample_axis m)))) = Inr (0, m)"
proof -
  have u: "0 \<le> uint m" "uint m < 10000" using assms by (simp_all add: word_less_def)
  then have "- (2 ^ 31) \<le> uint m" "uint m < 2 ^ 31" by (simp_all add: order_trans [of _ 0])
  moreover from this have "sint m = uint m" by (subst sint_uint) (simp add: signed_take_bit_int_eq_self_iff)
  ultimately show ?thesis using axis_extent_of [of "sample_axis m" pad] by (simp add: sample_axis_def)
qed

lemma sample_WTInfo [simp]:
  "WTInfoW (sample_wintab_api b ctx q) c i w = (sample_info b c i, w)"
  "WTInfoA (sample_wintab_api b ctx q) c i w = (sample_strings c i, w)"
  by (simp_all add: sample_wintab_api_def)

lemma sample_info_values:
  "sample_info b WTI_DEVICES DVC_X = struct_bytes (\<lambda>_. 0) (AXIS_fields (sample_axis 1000))"
  "sample_info b WTI_DEVICES DVC_Y = struct_bytes (\<lambda>_. 0) (AXIS_fields (sample_axis 2000))"
  "sample_info True WTI_DEVICES DVC_NPRESSURE = struct_bytes (\<lambda>_. 0) (AXIS_fields (sample_axis 8191))"
  "sample_info False WTI_DEVICES DVC_NPRESSURE = []"
  by (simp_all add: sample_info_def DVC_X_def DVC_Y_def DVC_NPRESSURE_def)

lemma sample_prepares:
  "\<exists>lc axis. prepare_context (sample_wintab_api b ctx q) w = Some (Inr (lc, axis), w) \<and> mem_u32 4 axis \<noteq> None"
proof -
  let ?api = "sample_wintab_api b ctx q"
  have x: "mem_store (sample_info b WTI_DEVICES DVC_X) (replicate sizeof_AXIS None) =
      map Some (struct_bytes (\<lambda>_. 0) (AXIS_fields (sample_axis 1000)))"
    by (simp add: sample_info_values mem_store_all sizeof_AXIS_def)
  have y: "mem_store (sample_info b WTI_DEVICES DVC_Y) (map Some (struct_bytes (\<lambda>_. 0) (AXIS_fields (sample_axis 1000)))) =
      map Some (struct_bytes (\<lambda>_. 0) (AXIS_fields (sample_axis 2000)))"
    by (simp add: sample_info_values mem_store_all)
  have e: "find_extension ?api 0 0 w = Some (None, w)"
    by (subst find_extension.simps) (simp add: sample_info_def WTI_EXTENSIONS_def WTI_DEVICES_def)
  define axis where "axis = mem_store (sample_info b WTI_DEVICES DVC_NPRESSURE)
    (map Some (struct_bytes (\<lambda>_. 0) (AXIS_fields (sample_axis 2000))))"
  have ex: "axis_extent (map Some (struct_bytes (\<lambda>_. 0) (AXIS_fields (sample_axis 1000)))) = Inr (0, 1000)"
    and ey: "axis_extent (map Some (struct_bytes (\<lambda>_. 0) (AXIS_fields (sample_axis 2000)))) = Inr (0, 2000)"
    by (rule sample_axis_extent, simp)+
  have "\<exists>lc. prepare_context ?api w = Some (Inr (lc, axis), w)"
    unfolding prepare_context_def Let_def sample_WTInfo prod.case x y ex ey sum.case e option.case axis_def by blast
  moreover have "mem_u32 4 axis \<noteq> None"
    by (cases b) (simp_all add: axis_def sample_info_values mem_store_all mem_u32_some)
  ultimately show ?thesis by blast
qed

lemma sample_connects_to:
  assumes "\<And>d. wf_DeviceInfo d \<Longrightarrow> fst (SetDevice H d h) = Inr ()" and "wf_DeviceInfo (mDeviceInfo t)"
    and "lib_functions (mWintab t) = WINTAB_FUNCTIONS"
  shows "\<exists>t' h' w'. ConnectToTablet (sample_wintab_api b 5 q) H t h w = Some (Inr (), t', h', w')"
proof -
  let ?api = "sample_wintab_api b 5 q"
  obtain lc axis where p: "prepare_context ?api w = Some (Inr (lc, axis), w)" and m: "mem_u32 4 axis \<noteq> None"
    using sample_prepares by blast
  have g: "GetInfoString ?api c i w = (Inr (erase_trailing_junk (sample_strings c i)), w)" for c i w
    by (rule GetInfoString_ok) (simp_all add: sample_strings_def)
  have "erase_trailing_junk (sample_strings WTI_DEVICES DVC_PNPID) = [0]"
    by (simp add: sample_strings_def erase_trailing_junk_def not_junk_def)
  then obtain d where d: "describe_device ?api lc axis (mDeviceInfo t) w = (Inr d, w)"
    using m by (auto simp: describe_device_def populate_id_def g Let_def)
  moreover have "WTOpenW ?api win lc flag w = (5, w)" for win flag
    by (simp add: sample_wintab_api_def)
  moreover have "fst (SetDevice H d h) = Inr ()"
    using describe_device_wf [OF d assms(2)] by (rule assms(1))
  ultimately show ?thesis
    using p assms(3)
    by (cases "SetDevice H d h", cases "WTOverlap ?api 5 True w")
      (auto simp: ConnectToTablet_def ActivateContext_def resolved_def Let_def)
qed

lemma sample_connects:
  "\<exists>t' w'. ConnectToTablet (sample_wintab_api b 5 None) null_handler sample_tablet () (None, 0, True) = Some (Inr (), t', (), w')"
  using sample_connects_to [of null_handler "()" sample_tablet b None "(None, 0, True)"]
  by (simp add: null_handler_def sample_tablet_def WintabTablet_init_def wf_DeviceInfo_def DeviceInfo_init_def)

section \<open>Properties\<close>



text \<open>C24: the y coordinate never leaves the tablet.  For any height a driver can report, also beyond
  the integers a \<^verbatim>\<open>float\<close> holds exactly, a packet with y between 0 and the height gives a finite
  coordinate between 0 and the announced maximum.\<close>

theorem packet_y_in_range:
  assumes "packet_state (f32_of_int height) p st = Inr st'" and "pkChanged p AND PK_Y \<noteq> 0"
    and "0 \<le> sint (pkY p)" and "sint (pkY p) \<le> height" and "height < 2 ^ 31"
  shows "f32_finite (pos_y st') \<and> 0 \<le> f32_units (pos_y st') \<and> f32_units (pos_y st') \<le> f32_units (f32_of_int height)"
proof -
  have y: "pos_y st' = f32_sub (f32_of_int height) (f32_of_int (sint (pkY p)))"
    using packet_state_fields(2) [OF assms(1)] assms(2) by simp
  have fin: "f32_finite (f32_of_int height)" "f32_finite (f32_of_int (sint (pkY p)))"
    using assms by (auto intro: f32_of_int_finite)
  show ?thesis
    unfolding y using f32_sub_range [OF fin] assms(3,4) by (simp add: f32_of_int_mono f32_of_int_units_nonneg)
qed

theorem packet_y_in_range_witness:
  "\<exists>st'. packet_state (f32_of_int 16777217) sample_packet State_init = Inr st' \<and>
     0 \<le> f32_units (pos_y st') \<and> f32_units (pos_y st') \<le> f32_units (f32_of_int 16777217)"
proof -
  obtain st' where st': "packet_state (f32_of_int 16777217) sample_packet State_init = Inr st'"
    using packet_state_total [of sample_packet] by (auto simp: sample_packet_def PK_X_def PK_Y_def PK_Z_def)
  then show ?thesis
    using packet_y_in_range [OF st'] by (simp add: sample_packet_def PK_X_def PK_Y_def)
qed

text \<open>C38: once a part of the state has been reported as valid it stays valid: no message takes back a
  valid bit, and no message changes the device, the window or the context.\<close>

theorem valid_bits_kept:
  assumes "gInstance e = Live t" and "ProcessMessage api H hwnd message wParam lParam e = (r, e')"
  shows "\<exists>st. gInstance e' = Live (t\<lparr>mState := st\<rparr>) \<and> vm_and (validBits (mState t)) (validBits st) = validBits (mState t)"
proof -
  obtain r1 t1 w1 where i: "ProcessMessageImpl api message wParam lParam t (te_world e) = (r1, t1, w1)"
    by (cases "ProcessMessageImpl api message wParam lParam t (te_world e)")
  obtain st where st: "t1 = t\<lparr>mState := st\<rparr>" "\<forall>k. bit (validBits (mState t)) k \<longrightarrow> bit (validBits st) k"
    using ProcessMessageImpl_frame(1) [OF i] by blast
  then have "vm_and (validBits (mState t)) (validBits st) = validBits (mState t)"
    by (auto simp: vm_and_def bit_eq_iff bit_and_iff)
  moreover have "gInstance e' = Live t \<or> gInstance e' = Live t1"
    using assms i by (auto simp: ProcessMessage_def split: if_splits prod.splits sum.splits bool.splits)
  moreover have "t = t\<lparr>mState := mState t\<rparr>" by simp
  ultimately show ?thesis using st(1) by (metis and.idem vm_and_def)
qed

theorem valid_bits_kept_witness:
  "\<exists>st. gInstance (snd (ProcessMessage (sample_wintab_api True 5 None) null_handler 77 WT_PROXIMITY 0 1
      \<lparr>gInstance = Live sample_tablet, te_handler = (), te_world = (None, 0, True)\<rparr>)) = Live (sample_tablet\<lparr>mState := st\<rparr>)"
  using valid_bits_kept [of "\<lparr>gInstance = Live sample_tablet, te_handler = (), te_world = (None, 0, True)\<rparr>" sample_tablet
      "sample_wintab_api True 5 None" null_handler 77 WT_PROXIMITY 0 1]
  by (metis prod.collapse tablet_env.select_convs(1))

text \<open>Express keys.  A report for control \<open>k < 16\<close> sets bit \<open>k\<close> of the auxiliary buttons to whether
  the key is down and changes no other button; for the controls 16 to 31 no button changes at
  all, although the buttons are reported as valid.\<close>

theorem express_key_effect:
  assumes "unat control < 32"
  shows "\<exists>st'. express_key control key_state st = Inr st' \<and> HasData st' VM_AuxButtons \<and>
    (\<forall>j. bit (auxButtons st') j \<longleftrightarrow>
       (if j = unat control \<and> unat control < 16 then key_state \<noteq> 0 else bit (auxButtons st) j))"
proof -
  obtain st' where st': "express_key control key_state st = Inr st'" using express_key_total [OF assms] by blast
  have "HasData st' VM_AuxButtons"
    using express_key_bits(2) [OF assms st'] by (simp add: HasData_bits bit_or_iff)
  then show ?thesis using st' express_key_bits(1) [OF assms st'] by blast
qed

theorem express_key_effect_witness:
  "\<exists>st'. express_key 20 1 State_init = Inr st' \<and> HasData st' VM_AuxButtons \<and> \<not> bit (auxButtons st') 20"
  using express_key_effect [of 20 1 State_init] by (auto simp: State_init_def)

text \<open>C37: a negative hover distance is not representable.  A packet that reports a change of z with a
  negative value reaches a conversion of a negative \<^verbatim>\<open>float\<close> to \<^verbatim>\<open>uint32_t\<close>, which has no defined
  result; the state is not forwarded by the model.\<close>

theorem negative_hover_undefined:
  assumes "WTPacket api lParam (ucast wParam) w = (Some (struct_bytes pad (PACKET_fields p)), w1)"
    and "pkChanged p AND PK_Z \<noteq> 0" and "sint (pkZ p) < 0" and "resolved t F_WTPacket"
  shows "ProcessMessageImpl api WT_PACKET wParam lParam t w = (Inl (UB Float_conversion_out_of_range), t, w1)"
  using ProcessMessageImpl_packet [OF assms(4,1)] packet_state_negative_z [OF assms(2,3)] by simp

theorem negative_hover_undefined_witness:
  "fst (ProcessMessageImpl (sample_wintab_api True 5 (Some (struct_bytes (\<lambda>_. 0)
      (PACKET_fields (sample_packet\<lparr>pkChanged := PK_Z, pkZ := - 1\<rparr>))))) WT_PACKET 1 5 sample_tablet (None, 0, True)) =
     Inl (UB Float_conversion_out_of_range)"
  using negative_hover_undefined [of "sample_wintab_api True 5 (Some (struct_bytes (\<lambda>_. 0)
      (PACKET_fields (sample_packet\<lparr>pkChanged := PK_Z, pkZ := - 1\<rparr>))))" 5 1 "(None, 0, True)" "\<lambda>_. 0"
      "sample_packet\<lparr>pkChanged := PK_Z, pkZ := - 1\<rparr>" "(None, 0, True)" sample_tablet]
  by (simp add: sample_wintab_api_def PK_Z_def)

text \<open>Messages for other windows, other messages, and messages without a tablet are left to the
  default handling: nothing changes and the handler is not called.\<close>

theorem ProcessMessage_ignores:
  assumes "gInstance e \<noteq> Dangling"
    and "\<not> CanProcessMessage message \<or> gInstance e = No_instance \<or> (\<exists>t. gInstance e = Live t \<and> mWindow t \<noteq> hwnd)"
  shows "ProcessMessage api H hwnd message wParam lParam e = (Inr False, e)"
  using assms by (auto simp: ProcessMessage_def split: instance_ptr.splits)

theorem ProcessMessage_ignores_witness:
  "ProcessMessage (sample_wintab_api True 5 None) null_handler 78 WT_PROXIMITY 0 1
     \<lparr>gInstance = Live sample_tablet, te_handler = (), te_world = (None, 0, True)\<rparr> =
   (Inr False, \<lparr>gInstance = Live sample_tablet, te_handler = (), te_world = (None, 0, True)\<rparr>)"
  by (rule ProcessMessage_ignores) (simp_all add: sample_tablet_def WintabTablet_init_def)



text \<open>A stale axis.  When the driver does not support a pressure axis, the variable of the query
  still holds the y axis, and its maximum is announced as the maximal pressure.\<close>

theorem stale_pressure_axis:
  assumes "\<And>c i w. WTInfoW api c i w = (info c i, w)"
    and "info WTI_DEVICES DVC_X = struct_bytes padx (AXIS_fields ax)"
    and "info WTI_DEVICES DVC_Y = struct_bytes pady (AXIS_fields ay)"
    and "info WTI_DEVICES DVC_NPRESSURE = []"
    and "- (2 ^ 31) \<le> sint (axMax ax) - sint (axMin ax)" and "sint (axMax ax) - sint (axMin ax) < 2 ^ 31"
    and "- (2 ^ 31) \<le> sint (axMax ay) - sint (axMin ay)" and "sint (axMax ay) - sint (axMin ay) < 2 ^ 31"
    and "ConnectToTablet api H t h w = Some (Inr (), t', h', w')"
  shows "maxPressure (mDeviceInfo t') = axMax ay"
proof -
  obtain lc axis w1 w2 w3 where p: "prepare_context api w = Some (Inr (lc, axis), w1)"
    and d: "describe_device api lc axis (mDeviceInfo t) w2 = (Inr (mDeviceInfo t'), w3)"
    using ConnectToTablet_success [OF assms(9)] by blast
  have "mem_u32 4 axis = Some (axMax ay)"
    using prepare_context_steady(6) [OF assms(1-3,5-8) p] assms(4) by (simp add: mem_u32_some AXIS_members)
  then show ?thesis using describe_device_fields(3) [OF d] by simp
qed

theorem stale_pressure_axis_witness:
  "\<exists>t' w'. ConnectToTablet (sample_wintab_api False 5 None) null_handler sample_tablet () (None, 0, True) = Some (Inr (), t', (), w') \<and>
     maxPressure (mDeviceInfo t') = 2000"
proof -
  obtain t' w' where c: "ConnectToTablet (sample_wintab_api False 5 None) null_handler sample_tablet () (None, 0, True)
      = Some (Inr (), t', (), w')"
    using sample_connects [of False] by blast
  show ?thesis
    using stale_pressure_axis [OF _ _ _ _ _ _ _ _ c, of "sample_info False" "\<lambda>_. 0" "sample_axis 1000"
        "\<lambda>_. 0" "sample_axis 2000"] c
    by (cases w') (simp add: sample_info_values, simp add: sample_axis_def)
qed

text \<open>Strings of the driver.  For an answer that fits the buffer, the string returned is the answer
  without trailing junk (control characters, spaces and bytes from 128 on) if it has any other
  character, and then ends in one; an answer of junk only is returned as it is.\<close>

theorem GetInfoString_clean:
  assumes "WTInfoA api cat idx w = (bs, w1)" and "length bs \<le> 1024"
  shows "\<exists>s junk. GetInfoString api cat idx w = (Inr s, w1) \<and> bs = s @ junk \<and>
    list_all (\<lambda>c. \<not> not_junk c) junk \<and> (if list_ex not_junk bs then s \<noteq> [] \<and> not_junk (last s) else s = bs)"
proof -
  obtain junk where "bs = erase_trailing_junk bs @ junk" "list_all (\<lambda>c. \<not> not_junk c) junk"
    "list_ex not_junk bs \<longrightarrow> erase_trailing_junk bs \<noteq> [] \<and> not_junk (last (erase_trailing_junk bs))"
    using erase_trailing_junk_spec by blast
  moreover have "\<not> list_ex not_junk bs \<Longrightarrow> erase_trailing_junk bs = bs" by (simp add: erase_trailing_junk_def)
  ultimately show ?thesis
    using GetInfoString_ok [OF assms]
    by (intro exI [of _ "erase_trailing_junk bs"] exI [of _ junk] conjI) (simp_all split: if_split)
qed

theorem GetInfoString_clean_witness:
  "\<exists>s junk. GetInfoString (sample_wintab_api True 5 None) WTI_DEVICES DVC_NAME (None, 0, True) = (Inr s, (None, 0, True)) \<and>
     cstr ''Pentablet'' @ [0, 0xE9, 3] = s @ junk \<and> list_all (\<lambda>c. \<not> not_junk c) junk \<and> not_junk (last s)"
proof -
  have "list_ex not_junk (cstr ''Pentablet'')" by (simp add: cstr_def not_junk_def)
  then show ?thesis
    using GetInfoString_clean [of "sample_wintab_api True 5 None" WTI_DEVICES DVC_NAME "(None, 0, True)"
        "cstr ''Pentablet'' @ [0, 0xE9, 3]" "(None, 0, True)"]
    by (auto simp: sample_strings_def DVC_NAME_def DVC_PNPID_def)
qed

text \<open>An empty Plug and Play id is not recognised as empty.  A driver that answers with the empty
  string stores one NUL, which is kept, so the persistent id becomes the bare prefix, the same for
  all such tablets, and the driver's interface id is never asked for.\<close>

theorem empty_pnpid:
  assumes "WTInfoA api WTI_DEVICES DVC_PNPID w = ([0], w1)" and "length (persistentId d) = PersistentIdMaxLength"
  shows "\<exists>d'. populate_id api d w = (Inr d', w1) \<and> GetPersistentId d' = cstr ''wintab-pnpid:''"
proof -
  have "GetInfoString api WTI_DEVICES DVC_PNPID w = (Inr [0], w1)"
    using GetInfoString_ok [OF assms(1)] by (simp add: erase_trailing_junk_def not_junk_def)
  moreover have "until_nul (cstr ''wintab-pnpid:'' @ 0 # rest) = cstr ''wintab-pnpid:''" for rest
    by (simp add: until_nul_def cstr_def)
  ultimately show ?thesis
    using assms(2)
    by (auto simp: populate_id_def GetPersistentId_def format_to_n_def write_at_def PersistentIdMaxLength_def)
qed

theorem empty_pnpid_witness:
  "\<exists>d'. populate_id (sample_wintab_api True 5 None) DeviceInfo_init (None, 0, True) = (Inr d', (None, 0, True)) \<and>
     GetPersistentId d' = cstr ''wintab-pnpid:''"
  by (rule empty_pnpid) (simp_all add: sample_strings_def DeviceInfo_init_def)

text \<open>The search for an express-key extension ends: if the driver has no extension number \<open>n\<close>, the
  loop returns, with a mask or without.\<close>

theorem find_extension_terminates:
  assumes "\<And>w. \<exists>w'. WTInfoW api (WTI_EXTENSIONS + word_of_nat n) EXT_TAG w = ([], w')"
  shows "\<exists>m w'. find_extension api 0 0 w = Some (m, w')"
  using find_extension_returns [OF assms, of 0 0 w] by auto

theorem find_extension_terminates_witness:
  "\<exists>m w'. find_extension (sample_wintab_api True 5 None) 0 0 (None, 0, True) = Some (m, w')"
  by (rule find_extension_terminates [of _ 1]) (auto simp: sample_info_def WTI_EXTENSIONS_def WTI_DEVICES_def)

text \<open>C35: a tablet that cannot be opened.  When the driver refuses the context, the constructor throws a
  pointer, which no handler for standard exceptions catches, and the global instance pointer is
  left pointing to the object that was never completed.\<close>

theorem refused_context:
  assumes "ForegroundOverride_window (foreground api) window (te_world e) = (Inr ov, w1)"
    and "load_WINTAB32 api w1 = (True, w2)" and "gInstance e = No_instance" and "GetProcAddress api F_WTInfoW" and "GetProcAddress api F_WTOpenW"
    and "prepare_context api w2 = Some (Inr (lc, axis), w3)" and "WTOpenW api window lc True w3 = (0, w4)"
  shows "\<exists>msg e'. WintabTablet_new api H window None e = Some (Inl (Throw (Pointer_exception msg)), e') \<and>
    \<not> is_std_exception (Pointer_exception msg) \<and> gInstance e' = Dangling \<and> te_handler e' = te_handler e"
  using assms
  by (simp add: WintabTablet_new_def inject_driver_def ConnectToTablet_def WintabTablet_init_def LibWintab_new_def resolved_def)

theorem refused_context_witness:
  "\<exists>msg e'. WintabTablet_new (sample_wintab_api True 0 None) null_handler 77 None
      \<lparr>gInstance = No_instance, te_handler = (), te_world = (None, 0, True)\<rparr> =
      Some (Inl (Throw (Pointer_exception msg)), e') \<and> gInstance e' = Dangling"
proof -
  let ?api = "sample_wintab_api True 0 None"
  obtain lc axis where p: "prepare_context ?api (Some 1, 77, True) = Some (Inr (lc, axis), (Some 1, 77, True))"
    using sample_prepares by blast
  have "\<exists>ov. ForegroundOverride_window (foreground ?api) 77 (None, 0, True) = (Inr ov, (Some 1, 77, True))"
    by (simp add: sample_wintab_api_def sample_fg_api_def fg_api.truncate_def ForegroundOverride_window_def
        ForegroundOverride_open_def)
  then obtain ov where o: "ForegroundOverride_window (foreground ?api) 77 (None, 0, True) = (Inr ov, (Some 1, 77, True))"
    by blast
  show ?thesis
    using refused_context [of ?api 77 "\<lparr>gInstance = No_instance, te_handler = (), te_world = (None, 0, True)\<rparr>" ov
        "(Some 1, 77, True)" "(Some 1, 77, True)" lc axis "(Some 1, 77, True)" "(Some 1, 77, True)" null_handler] o p
    by (simp add: sample_wintab_api_def)
qed

text \<open>C36: a library without the functions.  That the driver's library lacks a function is not noticed
  when it is loaded: without \<^verbatim>\<open>WTInfoW\<close> the constructor calls a null pointer, and without \<^verbatim>\<open>WTPacket\<close>
  a tablet that was constructed does so on its first packet.\<close>

theorem missing_function_undefined:
  assumes "ForegroundOverride_window (foreground api) window (te_world e) = (Inr ov, w1)"
    and "load_WINTAB32 api w1 = (True, w2)" and "gInstance e = No_instance"
  shows "(\<not> GetProcAddress api F_WTInfoW \<longrightarrow>
      (\<exists>e'. WintabTablet_new api H window None e = Some (Inl (UB Null_function_pointer), e') \<and> gInstance e' = Dangling)) \<and>
    (\<forall>e'. \<not> GetProcAddress api F_WTPacket \<and> WintabTablet_new api H window None e = Some (Inr (), e') \<longrightarrow>
      (\<exists>t. gInstance e' = Live t \<and>
        (\<forall>wParam lParam w. fst (ProcessMessageImpl api WT_PACKET wParam lParam t w) = Inl (UB Null_function_pointer))))"
proof -
  have "tablet_ok api t \<Longrightarrow> \<not> GetProcAddress api F_WTPacket \<Longrightarrow> \<not> resolved t F_WTPacket" for t
    by (simp add: tablet_ok_def resolved_def)
  moreover have "fst (ProcessMessageImpl api WT_PACKET wParam lParam t w) = Inl (UB Null_function_pointer)"
    if "\<not> resolved t F_WTPacket" for wParam lParam t w
    using that by (simp add: ProcessMessageImpl_def WT_PACKET_def WT_PROXIMITY_def WT_CTXOVERLAP_def WT_DEFBASE_def)
  moreover have "\<not> GetProcAddress api F_WTInfoW \<Longrightarrow>
      \<exists>e'. WintabTablet_new api H window None e = Some (Inl (UB Null_function_pointer), e') \<and> gInstance e' = Dangling"
    using assms
    by (simp add: WintabTablet_new_def inject_driver_def ConnectToTablet_def WintabTablet_init_def LibWintab_new_def resolved_def)
  ultimately show ?thesis using new_live by blast
qed

theorem missing_function_undefined_witness:
  "\<exists>e'. WintabTablet_new ((sample_wintab_api True 5 None)\<lparr>GetProcAddress := (\<lambda>_. False)\<rparr>) null_handler 77 None
      \<lparr>gInstance = No_instance, te_handler = (), te_world = (None, 0, True)\<rparr> =
      Some (Inl (UB Null_function_pointer), e') \<and> gInstance e' = Dangling"
proof -
  let ?api = "(sample_wintab_api True 5 None)\<lparr>GetProcAddress := (\<lambda>_. False)\<rparr>"
  obtain ov where "ForegroundOverride_window (foreground ?api) 77 (None, 0, True) = (Inr ov, (Some 1, 77, True))"
    by (simp add: sample_wintab_api_def sample_fg_api_def fg_api.truncate_def ForegroundOverride_window_def
        ForegroundOverride_open_def)
  then show ?thesis
    using missing_function_undefined [of ?api 77 "\<lparr>gInstance = No_instance, te_handler = (), te_world = (None, 0, True)\<rparr>" ov
        "(Some 1, 77, True)" "(Some 1, 77, True)" null_handler]
    by (simp add: sample_wintab_api_def)
qed

end
