(* ===== verification/Adapter_Handlers.thy ===== *)
theory Adapter_Handlers
  imports V1Server V2Server WintabTablet
begin

text \<open>
  The handlers of \<^verbatim>\<open>main.cpp\<close>: \<open>MultiHandler\<close> passes every call to a list of handlers in order,
  \<open>DeviceLogger\<close> prints each device and passes the call on.  Both are functions from handlers to
  handlers.

  The servers as \<^verbatim>\<open>main\<close> holds them are one state with the V2 server and, if asked for, the V1
  server, each with its threads; \<open>V2_member\<close> and \<open>V1_member\<close> are their handlers on that state.
  The interpretation \<open>servers\<close> shows that the \<open>MultiHandler\<close> of \<^verbatim>\<open>main\<close> keeps the handler contract.
  The refinement is to a single view of the tablet: the last device, and the last state with
  the device it was reported for.
\<close>

section \<open>Forwarding to several handlers\<close>

fun forward_device :: "'h IHandler list \<Rightarrow> DeviceInfo \<Rightarrow> 'h \<Rightarrow> unit result \<times> 'h" where
  "forward_device [] d h = (Inr (), h)"
| "forward_device (H # Hs) d h =
     (case SetDevice H d h of (Inl f, h1) \<Rightarrow> (Inl f, h1) | (Inr _, h1) \<Rightarrow> forward_device Hs d h1)"

fun forward_state :: "'h IHandler list \<Rightarrow> State \<Rightarrow> 'h \<Rightarrow> unit result \<times> 'h" where
  "forward_state [] st h = (Inr (), h)"
| "forward_state (H # Hs) st h =
     (case SetState H st h of (Inl f, h1) \<Rightarrow> (Inl f, h1) | (Inr _, h1) \<Rightarrow> forward_state Hs st h1)"

definition MultiHandler :: "'h IHandler list \<Rightarrow> 'h IHandler" where
  "MultiHandler mNext = \<lparr>SetDevice = forward_device mNext, SetState = forward_state mNext\<rparr>"

definition push_back :: "'h IHandler \<Rightarrow> 'h IHandler list \<Rightarrow> 'h IHandler list" where
  "push_back handler mNext = mNext @ [handler]"

section \<open>Logging devices\<close>

definition device_line :: "DeviceInfo \<Rightarrow> bytes" where
  "device_line d =
     cstr ''Got device `'' @ GetName d @ cstr ''` with persistent ID `'' @ GetPersistentId d @ cstr ''`''"

text \<open>The state is that of the next handler and the lines printed.\<close>

definition DeviceLogger :: "'h IHandler option \<Rightarrow> ('h \<times> bytes list) IHandler" where
  "DeviceLogger mNext =
     \<lparr>SetDevice = (\<lambda>d (h, out).
        let out1 = out @ [device_line d]
        in case mNext of
             None \<Rightarrow> (Inr (), h, out1)
           | Some H \<Rightarrow> (let (r, h1) = SetDevice H d h in (r, h1, out1))),
      SetState = (\<lambda>st (h, out).
        case mNext of
          None \<Rightarrow> (Inr (), h, out)
        | Some H \<Rightarrow> (let (r, h1) = SetState H st h in (r, h1, out)))\<rparr>"

section \<open>The servers of main\<close>

record ('a, 'b) servers =
  sv2 :: "'a V2_sys"
  sv1 :: "'b V1_sys option"

definition call_V2 :: "'a v2_api \<Rightarrow> handler_call \<Rightarrow> ('a, 'b) servers \<Rightarrow> unit result \<times> ('a, 'b) servers" where
  "call_V2 api c y =
     (case call_handler (V2_handler api) c (v2_srv (sv2 y), v2_world (sv2 y)) of
        (r, s, w) \<Rightarrow> (r, y\<lparr>sv2 := (sv2 y)\<lparr>v2_srv := s, v2_world := w\<rparr>\<rparr>))"

definition call_V1 :: "'b v1_api \<Rightarrow> handler_call \<Rightarrow> ('a, 'b) servers \<Rightarrow> unit result \<times> ('a, 'b) servers" where
  "call_V1 api c y =
     (case sv1 y of
        None \<Rightarrow> (Inl (UB Empty_optional), y)
      | Some z \<Rightarrow>
          (case call_handler (V1_handler api) c (srv z, world z) of
             (r, s, w) \<Rightarrow> (r, y\<lparr>sv1 := Some (z\<lparr>srv := s, world := w\<rparr>)\<rparr>)))"

definition V2_member :: "'a v2_api \<Rightarrow> ('a, 'b) servers IHandler" where
  "V2_member api = \<lparr>SetDevice = (\<lambda>d. call_V2 api (Call_SetDevice d)), SetState = (\<lambda>st. call_V2 api (Call_SetState st))\<rparr>"

definition V1_member :: "'b v1_api \<Rightarrow> ('a, 'b) servers IHandler" where
  "V1_member api = \<lparr>SetDevice = (\<lambda>d. call_V1 api (Call_SetDevice d)), SetState = (\<lambda>st. call_V1 api (Call_SetState st))\<rparr>"

text \<open>The handlers \<^verbatim>\<open>main\<close> puts into \<^verbatim>\<open>servers\<close>.\<close>

definition server_handlers :: "'a v2_api \<Rightarrow> 'b v1_api \<Rightarrow> bool \<Rightarrow> ('a, 'b) servers IHandler list" where
  "server_handlers api2 api1 mOtdIpcV1 =
     (if mOtdIpcV1 then push_back (V1_member api1) [V2_member api2] else [V2_member api2])"

section \<open>What is promised\<close>

definition servers_inv :: "bool \<Rightarrow> ('a, 'b) servers \<Rightarrow> bool" where
  "servers_inv mOtdIpcV1 y \<longleftrightarrow>
     V2_sys_inv (sv2 y) \<and> pred_option V1_sys_inv (sv1 y) \<and> (sv1 y \<noteq> None \<longleftrightarrow> mOtdIpcV1)"

definition servers_ready :: "('a, 'b) servers \<Rightarrow> bool" where
  "servers_ready y \<longleftrightarrow>
     mDevice (v2_srv (sv2 y)) \<noteq> None \<and> pred_option (\<lambda>z. v1_isValid (mV1Device (srv z))) (sv1 y)"

text \<open>The abstract handler: one tablet, whose last device and state are remembered.\<close>

record tablet_view =
  view_device :: "DeviceInfo option"
  view_state :: "(DeviceInfo \<times> State) option"

fun view_call :: "handler_call \<Rightarrow> tablet_view \<Rightarrow> tablet_view" where
  "view_call (Call_SetDevice d) v = v\<lparr>view_device := Some d\<rparr>"
| "view_call (Call_SetState st) v = v\<lparr>view_state := map_option (\<lambda>d. (d, st)) (view_device v)\<rparr>"

definition shows_view :: "'b v1_api \<Rightarrow> tablet_view \<Rightarrow> ('a, 'b) servers \<Rightarrow> bool" where
  "shows_view api1 v y \<longleftrightarrow>
     mDevice (v2_srv (sv2 y)) = map_option V2_device_of (view_device v) \<and>
     pred_option (\<lambda>z.
       mV1Device (srv z) = (case view_device v of None \<Rightarrow> V1_DeviceInfo_zero | Some d \<Rightarrow> V1_device_of api1 d) \<and>
       mV1State (srv z) = (case view_state v of None \<Rightarrow> V1_State_zero | Some (d, st) \<Rightarrow> V1_state_of (V1_device_of api1 d) st)) (sv1 y)"

text \<open>A call is allowed when it is a device, or a state after a device.\<close>

fun call_allowed :: "handler_call \<Rightarrow> tablet_view \<Rightarrow> bool" where
  "call_allowed (Call_SetDevice d) v = wf_DeviceInfo d"
| "call_allowed (Call_SetState st) v = (view_device v \<noteq> None)"

text \<open>What a call does to the V1 server.\<close>

definition V1_after :: "'b v1_api \<Rightarrow> handler_call \<Rightarrow> 'b V1_sys \<Rightarrow> 'b V1_sys \<Rightarrow> bool" where
  "V1_after api c z z' \<longleftrightarrow>
     mV1Device (srv z') = (case c of Call_SetDevice d \<Rightarrow> V1_device_of api d | Call_SetState st \<Rightarrow> mV1Device (srv z)) \<and>
     mV1State (srv z') = (case c of Call_SetDevice d \<Rightarrow> mV1State (srv z) | Call_SetState st \<Rightarrow> V1_state_of (mV1Device (srv z)) st)"

text \<open>Both servers just started.\<close>

definition sample_servers :: "(bytes list, unit) servers" where
  "sample_servers = \<lparr>sv2 = V2_running sample_config AlwaysSet 3 [], sv1 = Some (V1_Start ())\<rparr>"

section \<open>Calls of the servers\<close>

lemma MultiHandler_calls:
  "call_handler (MultiHandler [H]) c h = (case call_handler H c h of (Inl f, h1) \<Rightarrow> (Inl f, h1) | (Inr _, h1) \<Rightarrow> (Inr (), h1))"
  "call_handler (MultiHandler [H, K]) c h =
     (case call_handler H c h of
        (Inl f, h1) \<Rightarrow> (Inl f, h1)
      | (Inr _, h1) \<Rightarrow> (case call_handler K c h1 of (Inl f, h2) \<Rightarrow> (Inl f, h2) | (Inr _, h2) \<Rightarrow> (Inr (), h2)))"
  by (cases c; simp add: MultiHandler_def split: prod.splits sum.splits)+

lemma member_calls [simp]:
  "call_handler (V2_member api2) c = call_V2 api2 c" "call_handler (V1_member api1) c = call_V1 api1 c"
  by (cases c; simp add: V2_member_def V1_member_def fun_eq_iff)+

lemma call_V2_state:
  assumes "V2_srv_inv s" and "case c of Call_SetDevice d \<Rightarrow> wf_DeviceInfo d | Call_SetState st \<Rightarrow> mDevice s \<noteq> None"
  shows "\<exists>s' w'. call_handler (V2_handler api) c (s, w) = (Inr (), s', w') \<and> V2_srv_inv s' \<and>
    mDevice s' = (case c of Call_SetDevice d \<Rightarrow> Some (V2_device_of d) | Call_SetState st \<Rightarrow> mDevice s)"
proof (cases c)
  case (Call_SetDevice d)
  then show ?thesis using V2_SetDevice_inv [OF assms(1), of d api w] assms(2) by (auto simp: V2_handler_def)
next
  case (Call_SetState st)
  then obtain d where "mDevice s = Some d" using assms(2) by auto
  then show ?thesis using V2_SetState_inv [OF assms(1), of d api st w] Call_SetState by (auto simp: V2_handler_def)
qed

lemma call_V1_state:
  "\<exists>s' w'. call_handler (V1_handler api) c (s, w) = (Inr (), s', w') \<and>
     mV1Device s' = (case c of Call_SetDevice d \<Rightarrow> V1_device_of api d | Call_SetState st \<Rightarrow> mV1Device s) \<and>
     mV1State s' = (case c of Call_SetDevice d \<Rightarrow> mV1State s | Call_SetState st \<Rightarrow> V1_state_of (mV1Device s) st)"
proof (cases c)
  case (Call_SetDevice d)
  then show ?thesis using V1_SetDevice_sent [of api d s w] by (auto simp: V1_handler_def V1_sent_def)
next
  case (Call_SetState st)
  then show ?thesis using V1_SetState_sent [of api st s w] by (auto simp: V1_handler_def V1_sent_def)
qed

lemma call_V1_sys:
  assumes "V1_sys_inv z"
  shows "\<exists>s' w'. call_handler (V1_handler api) c (srv z, world z) = (Inr (), s', w') \<and> V1_sys_inv (z\<lparr>srv := s', world := w'\<rparr>) \<and>
    mV1Device s' = (case c of Call_SetDevice d \<Rightarrow> V1_device_of api d | Call_SetState st \<Rightarrow> mV1Device (srv z)) \<and>
    mV1State s' = (case c of Call_SetDevice d \<Rightarrow> mV1State (srv z) | Call_SetState st \<Rightarrow> V1_state_of (mV1Device (srv z)) st)"
  using assms call_V1_state [of api c "srv z" "world z"] V1_call_inv [of "srv z" api c "world z"]
  by (auto simp: V1_sys_inv_def)

lemma servers_call:
  assumes "servers_inv otd1 y"
    and "case c of Call_SetDevice d \<Rightarrow> wf_DeviceInfo d | Call_SetState st \<Rightarrow> mDevice (v2_srv (sv2 y)) \<noteq> None"
  shows "\<exists>y'. call_handler (MultiHandler (server_handlers api2 api1 otd1)) c y = (Inr (), y') \<and> servers_inv otd1 y' \<and>
    mDevice (v2_srv (sv2 y')) = (case c of Call_SetDevice d \<Rightarrow> Some (V2_device_of d) | Call_SetState st \<Rightarrow> mDevice (v2_srv (sv2 y))) \<and>
    rel_option (V1_after api1 c) (sv1 y) (sv1 y')"
proof -
  have "V2_srv_inv (v2_srv (sv2 y))" using assms(1) by (simp add: servers_inv_def V2_sys_inv_def)
  from call_V2_state [OF this assms(2), of api2 "v2_world (sv2 y)"] obtain s2 w2 where
    c2: "call_V2 api2 c y = (Inr (), y\<lparr>sv2 := (sv2 y)\<lparr>v2_srv := s2, v2_world := w2\<rparr>\<rparr>)" and i2: "V2_srv_inv s2"
    and d2: "mDevice s2 = (case c of Call_SetDevice d \<Rightarrow> Some (V2_device_of d) | Call_SetState st \<Rightarrow> mDevice (v2_srv (sv2 y)))"
    by (auto simp: call_V2_def)
  show ?thesis
  proof (cases "sv1 y")
    case None
    with assms(1) c2 i2 d2 show ?thesis
      by (auto simp: servers_inv_def server_handlers_def MultiHandler_calls V2_sys_inv_def)
  next
    case (Some z)
    with assms(1) have z: "V1_sys_inv z" and otd1 by (auto simp: servers_inv_def)
    with Some assms(1) c2 i2 d2 call_V1_sys [OF z, of api1 c] show ?thesis
      by (auto simp: servers_inv_def server_handlers_def push_back_def MultiHandler_calls V2_sys_inv_def call_V1_def V1_after_def)
  qed
qed

interpretation servers: handler_contract "MultiHandler (server_handlers api2 api1 otd1)" "servers_inv otd1" servers_ready
  for api2 :: "'a v2_api" and api1 :: "'b v1_api" and otd1 :: bool
proof unfold_locales
  fix h :: "('a, 'b) servers" and d
  assume i: "servers_inv otd1 h" and wf: "wf_DeviceInfo d"
  have "\<And>z z'. V1_after api1 (Call_SetDevice d) z z' \<Longrightarrow> v1_isValid (mV1Device (srv z'))" by (simp add: V1_after_def)
  then show "fst (SetDevice (MultiHandler (server_handlers api2 api1 otd1)) d h) = Inr () \<and>
      servers_inv otd1 (snd (SetDevice (MultiHandler (server_handlers api2 api1 otd1)) d h)) \<and>
      servers_ready (snd (SetDevice (MultiHandler (server_handlers api2 api1 otd1)) d h))"
    using servers_call [OF i, of "Call_SetDevice d" api2 api1] wf by (auto simp: servers_ready_def option_rel_Some1 elim: option.rel_cases)
next
  fix h :: "('a, 'b) servers" and st
  assume i: "servers_inv otd1 h" and r: "servers_ready h"
  show "fst (SetState (MultiHandler (server_handlers api2 api1 otd1)) st h) = Inr () \<and>
      servers_inv otd1 (snd (SetState (MultiHandler (server_handlers api2 api1 otd1)) st h)) \<and>
      servers_ready (snd (SetState (MultiHandler (server_handlers api2 api1 otd1)) st h))"
    using servers_call [OF i, of "Call_SetState st" api2 api1] r by (auto simp: servers_ready_def V1_after_def elim: option.rel_cases)
qed

lemma servers_view_call:
  assumes "servers_inv otd1 y" and "shows_view api1 v y" and "call_allowed c v"
  shows "\<exists>y'. call_handler (MultiHandler (server_handlers api2 api1 otd1)) c y = (Inr (), y') \<and> servers_inv otd1 y' \<and>
    shows_view api1 (view_call c v) y'"
proof -
  have "case c of Call_SetDevice d \<Rightarrow> wf_DeviceInfo d | Call_SetState st \<Rightarrow> mDevice (v2_srv (sv2 y)) \<noteq> None"
    using assms(2,3) by (cases c) (auto simp: shows_view_def)
  from servers_call [OF assms(1) this, of api2 api1] show ?thesis
    using assms(2,3) by (cases c) (fastforce simp: shows_view_def V1_after_def elim: option.rel_cases)+
qed

section \<open>The logger\<close>

lemma DeviceLogger_call:
  "call_handler (DeviceLogger (Some H)) c (h, out) =
     (let (r, h1) = call_handler H c h
      in (r, h1, out @ (case c of Call_SetDevice d \<Rightarrow> [device_line d] | Call_SetState st \<Rightarrow> [])))"
  by (cases c) (simp_all add: DeviceLogger_def)

interpretation logged: handler_contract "DeviceLogger (Some (MultiHandler (server_handlers api2 api1 otd1)))"
    "\<lambda>(h, out). servers_inv otd1 h" "\<lambda>(h, out). servers_ready h"
  for api2 :: "'a v2_api" and api1 :: "'b v1_api" and otd1 :: bool
  by unfold_locales (auto simp: DeviceLogger_def split_beta servers.device_ok servers.state_ok)

lemma sample_servers_ok:
  "servers_inv True sample_servers" "shows_view api1 \<lparr>view_device = None, view_state = None\<rparr> sample_servers"
  using V2_reachable_inv [OF sample_v2_start(1)] V1_sys_inv_Start [of "()"]
  by (simp_all add: sample_servers_def servers_inv_def shows_view_def V2_running_def V2Server_init_def V1_Start_def V1Server_init_def)

section \<open>Properties\<close>

text \<open>C3: both servers show the same tablet.  Any sequence of handler calls in which a device comes before
  the first state succeeds on the servers of \<^verbatim>\<open>main\<close>, keeps their invariants, and implements the
  abstract handler: the V2 server holds the last device, and the V1 server, if there is one,
  holds its translation of the last device and of the last state with the device of that state.\<close>

theorem servers_refine_view:
  assumes "servers_inv otd1 y" and "shows_view api1 v y" and "list_all wf_call cs"
    and "view_device v \<noteq> None \<or> (\<exists>d cs'. cs = Call_SetDevice d # cs')"
  shows "\<exists>y'. call_all (MultiHandler (server_handlers api2 api1 otd1)) cs y = (Inr (), y') \<and> servers_inv otd1 y' \<and>
    shows_view api1 (fold view_call cs v) y'"
  using assms
proof (induction cs arbitrary: y v)
  case Nil
  then show ?case by auto
next
  case (Cons c cs)
  then have "call_allowed c v" by (cases c) auto
  from servers_view_call [OF Cons.prems(1,2) this, of api2] obtain y1 where
    y1: "call_handler (MultiHandler (server_handlers api2 api1 otd1)) c y = (Inr (), y1)" "servers_inv otd1 y1"
      "shows_view api1 (view_call c v) y1" by blast
  moreover have "view_device (view_call c v) \<noteq> None" using Cons.prems(4) by (cases c) auto
  ultimately show ?case using Cons.IH [OF y1(2,3)] Cons.prems(3) by simp
qed

theorem servers_refine_view_witness:
  "\<exists>y'. call_all (MultiHandler (server_handlers sample_v2_api sample_v1_api True))
      [Call_SetDevice DeviceInfo_init, Call_SetState State_init] sample_servers = (Inr (), y') \<and>
    mDevice (v2_srv (sv2 y')) = Some (V2_device_of DeviceInfo_init) \<and>
    map_option (\<lambda>z. mV1State (srv z)) (sv1 y') = Some (V1_state_of (V1_device_of sample_v1_api DeviceInfo_init) State_init)"
proof -
  obtain y' where y': "call_all (MultiHandler (server_handlers sample_v2_api sample_v1_api True))
      [Call_SetDevice DeviceInfo_init, Call_SetState State_init] sample_servers = (Inr (), y')"
    and i: "servers_inv True y'" and v: "shows_view sample_v1_api (fold view_call [Call_SetDevice DeviceInfo_init, Call_SetState State_init]
        \<lparr>view_device = None, view_state = None\<rparr>) y'"
    using servers_refine_view [OF sample_servers_ok, of "[Call_SetDevice DeviceInfo_init, Call_SetState State_init]" sample_v2_api] by auto
  from i obtain z where "sv1 y' = Some z" by (auto simp: servers_inv_def)
  with y' v show ?thesis by (auto simp: shows_view_def)
qed

text \<open>Logging changes nothing.  Calls made through the logger have the same result and leave the next
  handler in the same state as calls made directly, for any next handler and whether or not a call
  fails; only lines are printed, and when all calls succeed they are one per device.\<close>

theorem DeviceLogger_transparent:
  "\<exists>out'. call_all (DeviceLogger (Some H)) cs (h, out) =
      (fst (call_all H cs h), snd (call_all H cs h), out @ out') \<and>
    (fst (call_all H cs h) = Inr () \<longrightarrow>
      out' = concat (map (\<lambda>c. case c of Call_SetDevice d \<Rightarrow> [device_line d] | Call_SetState st \<Rightarrow> []) cs))"
proof (induction cs arbitrary: h out)
  case Nil
  then show ?case by simp
next
  case (Cons c cs)
  obtain r h1 where c: "call_handler H c h = (r, h1)" by fastforce
  let ?l = "case c of Call_SetDevice d \<Rightarrow> [device_line d] | Call_SetState st \<Rightarrow> []"
  from Cons.IH [of h1 "out @ ?l"] c show ?case
    by (cases r) (auto simp: DeviceLogger_call)
qed

theorem DeviceLogger_transparent_witness:
  "\<exists>out'. call_all (DeviceLogger (Some (MultiHandler []))) [Call_SetDevice DeviceInfo_init, Call_SetState State_init] ((), []) =
      (Inr (), (), out') \<and> out' = [device_line DeviceInfo_init]"
  using DeviceLogger_transparent [of "MultiHandler []" "[Call_SetDevice DeviceInfo_init, Call_SetState State_init]" "()" "[]"]
  by (simp add: MultiHandler_def)

end
