(* ===== verification/V2Discovery.thy ===== *)
theory V2Discovery
  imports V2Server "HOL-Library.Sublist" "HOL-Library.AList"
begin

text \<open>
  Starting the V2 server (\<^verbatim>\<open>V2Server::Start\<close>) and the files by which clients find it
  (\<^verbatim>\<open>GetDiscoveryDir\<close>, \<^verbatim>\<open>PublishDiscovery\<close>, \<^verbatim>\<open>EnsureDefaultExists\<close>).

  The disk is explicit state: the files with their contents, the directories, and the paths that
  cannot be created.  A path is the list of its components.  Streams are text streams, which
  on Windows write a line end as carriage return and line feed; a stream that cannot be opened
  swallows what is written.  The socket calls are parameters.
\<close>

section \<open>The disk\<close>

type_synonym fspath = "bytes list"

record disk =
  files :: "(fspath \<times> bytes) list"
  dirs :: "fspath list"
  denied :: "fspath \<Rightarrow> bool"

definition file_at :: "disk \<Rightarrow> fspath \<Rightarrow> bytes option" where
  "file_at d p = map_of (files d) p"

definition fs_path_exists :: "fspath \<Rightarrow> disk \<Rightarrow> bool" where
  "fs_path_exists p d \<longleftrightarrow> file_at d p \<noteq> None \<or> p \<in> set (dirs d)"

definition create_directory :: "fspath \<Rightarrow> disk \<Rightarrow> bool \<times> disk" where
  "create_directory p d =
     (if p \<in> set (dirs d) then (True, d)
      else if file_at d p \<noteq> None \<or> denied d p then (False, d)
      else (True, d\<lparr>dirs := p # dirs d\<rparr>))"

fun create_all :: "fspath list \<Rightarrow> disk \<Rightarrow> bool \<times> disk" where
  "create_all [] d = (True, d)"
| "create_all (p # ps) d =
     (case create_directory p d of (False, d1) \<Rightarrow> (False, d1) | (True, d1) \<Rightarrow> create_all ps d1)"

text \<open>\<^verbatim>\<open>create_directories\<close>: every initial part of the path in turn.\<close>

definition create_directories :: "fspath \<Rightarrow> disk \<Rightarrow> bool \<times> disk" where
  "create_directories p d = create_all (map (\<lambda>n. take n p) [1..<Suc (length p)]) d"

text \<open>\<^verbatim>\<open>remove\<close> with an error code: a file goes, and so does an empty directory.\<close>

definition remove_path :: "fspath \<Rightarrow> disk \<Rightarrow> disk" where
  "remove_path p d =
     (if denied d p then d
      else if file_at d p \<noteq> None then d\<lparr>files := AList.delete p (files d)\<rparr>
      else if list_ex (strict_prefix p) (dirs d @ map fst (files d)) then d
      else d\<lparr>dirs := removeAll p (dirs d)\<rparr>)"

definition text_mode :: "bytes \<Rightarrow> bytes" where
  "text_mode bs = concat (map (\<lambda>c. if c = 10 then [13, 10] else [c]) bs)"

definition write_stream :: "fspath \<Rightarrow> bytes \<Rightarrow> disk \<Rightarrow> disk" where
  "write_stream p content d =
     (if butlast p \<in> set (dirs d) \<and> p \<notin> set (dirs d) \<and> \<not> denied d p
      then d\<lparr>files := AList.update p (text_mode content) (files d)\<rparr> else d)"

definition join_path :: "byte \<Rightarrow> fspath \<Rightarrow> bytes" where
  "join_path sep p = (if p = [] then [] else hd p @ concat (map (\<lambda>c. sep # c) (tl p)))"

section \<open>Parameters: sockets and folders\<close>

record 'w v2_start_api =
  sock_socket :: "'w \<Rightarrow> SOCKET option \<times> 'w"
  sock_bind :: "SOCKET \<Rightarrow> bytes \<Rightarrow> 'w \<Rightarrow> bool \<times> 'w"
  sock_listen :: "SOCKET \<Rightarrow> nat \<Rightarrow> 'w \<Rightarrow> bool \<times> 'w"
  start_close :: "SOCKET \<Rightarrow> 'w \<Rightarrow> 'w"
  start_last_error :: "'w \<Rightarrow> int"
  LocalAppData :: "fspath option"
  absolute_path :: "fspath \<Rightarrow> fspath"
  WSAStartup :: "'w \<Rightarrow> int \<times> 'w"
  WSACleanup :: "'w \<Rightarrow> 'w"

section \<open>Discovery\<close>

definition GetDiscoveryDir :: "'w v2_start_api \<Rightarrow> fspath result" where
  "GetDiscoveryDir api =
     (case LocalAppData api of
        Some path \<Rightarrow> Inr (path @ [cstr ''otd-ipc'', cstr ''servers'', cstr ''v2''])
      | None \<Rightarrow> Inl (Throw (Runtime_error (cstr ''Failed to resolve %LOCALAPPDATA%''))))"

text \<open>
  What is streamed into the metadata file.  \<^verbatim>\<open>CompatibilityVersion\<close> is a \<^verbatim>\<open>uint8_t\<close>, a character
  type for a stream: the byte itself is written.
\<close>

definition metadata :: "Config \<Rightarrow> bytes \<Rightarrow> bytes" where
  "metadata c socketPathGeneric =
     cstr ''ID='' @ implementationId c @ [10] @
     cstr ''SOCKET='' @ socketPathGeneric @ [10] @
     cstr ''HUMAN_READABLE_NAME='' @ humanName c @ [10] @
     cstr ''HUMAN_READABLE_VERSION='' @ humanVersion c @ [10] @
     cstr ''COMPATIBILITY_VERSION='' @ [CompatibilityVersion] @ [10] @
     cstr ''HOMEPAGE='' @ homepageUrl c @ [10]"

definition default_path :: "fspath \<Rightarrow> fspath" where
  "default_path dir = dir @ [cstr ''default.txt'']"

definition meta_path :: "fspath \<Rightarrow> Config \<Rightarrow> fspath" where
  "meta_path dir c = dir @ [cstr ''available'', implementationId c @ cstr ''.txt'']"

definition EnsureDefaultExists :: "'w v2_start_api \<Rightarrow> V2Server \<Rightarrow> disk \<Rightarrow> unit result \<times> disk" where
  "EnsureDefaultExists api s d =
     (if mDefaultBehavior s = DoNotSet then (Inr (), d)
      else
        case GetDiscoveryDir api of
          Inl f \<Rightarrow> (Inl f, d)
        | Inr dir \<Rightarrow>
            if mDefaultBehavior s = AlwaysSet \<or> \<not> fs_path_exists (default_path dir) d
            then (Inr (), write_stream (default_path dir) (implementationId (mConfig s)) d)
            else (Inr (), d))"

definition PublishDiscovery :: "'w v2_start_api \<Rightarrow> V2Server \<Rightarrow> disk \<Rightarrow> unit result \<times> disk" where
  "PublishDiscovery api s d =
     (case GetDiscoveryDir api of
        Inl f \<Rightarrow> (Inl f, d)
      | Inr dir \<Rightarrow>
          (case create_directories (dir @ [cstr ''available'']) d of
             (False, d1) \<Rightarrow> (Inl (Throw Filesystem_error), d1)
           | (True, d1) \<Rightarrow>
               EnsureDefaultExists api s
                 (write_stream (meta_path dir (mConfig s))
                   (metadata (mConfig s) (join_path 47 (absolute_path api (socketPath (mConfig s))))) d1)))"

section \<open>Construction and start\<close>

definition V2Server_new ::
  "'w v2_start_api \<Rightarrow> Config \<Rightarrow> DefaultBehavior \<Rightarrow> 'w \<Rightarrow> V2Server result \<times> 'w" where
  "V2Server_new api config db w =
     (let (r, w1) = WSAStartup api w
      in if r \<noteq> 0 then (Inl (Throw (Result_exception (HRESULT_FROM_WIN32 r))), w1)
         else (Inr (V2Server_init config db), w1))"

definition sizeof_sun_path :: nat where
  "sizeof_sun_path = 108"

definition start_throw :: "'w v2_start_api \<Rightarrow> 'w \<Rightarrow> unit result" where
  "start_throw api w = Inl (Throw (Result_exception (HRESULT_FROM_WIN32 (start_last_error api w))))"

text \<open>The directory and the old socket file, before the socket is bound.\<close>

definition prepare_socket_path :: "fspath \<Rightarrow> disk \<Rightarrow> disk" where
  "prepare_socket_path p d =
     (let d1 = (if fs_path_exists p d then remove_path p d else d)
      in remove_path p (snd (create_directories (butlast p) d1)))"

text \<open>\<^verbatim>\<open>mListenSocket.reset(socket(..))\<close>: a socket held before is closed.\<close>

definition reset_to_socket :: "'w v2_start_api \<Rightarrow> V2Server \<Rightarrow> 'w \<Rightarrow> SOCKET option \<times> 'w" where
  "reset_to_socket api s w =
     (let (l, w1) = sock_socket api w
      in (l, case mListenSocket s of None \<Rightarrow> w1 | Some old \<Rightarrow> start_close api old w1))"

definition V2_Start ::
  "'w v2_start_api \<Rightarrow> V2Server \<Rightarrow> disk \<Rightarrow> 'w \<Rightarrow> unit result \<times> V2Server \<times> disk \<times> 'w" where
  "V2_Start api s d w =
     (case reset_to_socket api s w of
        (None, w1) \<Rightarrow> (start_throw api w1, s\<lparr>mListenSocket := None\<rparr>, d, w1)
      | (Some l, w1) \<Rightarrow>
          let s1 = s\<lparr>mListenSocket := Some l\<rparr>;
              d1 = prepare_socket_path (socketPath (mConfig s)) d;
              pathStr = join_path 92 (socketPath (mConfig s))
          in if sizeof_sun_path \<le> length pathStr
             then (Inl (Throw (Runtime_error (cstr ''Socket path is too long for AF_UNIX''))), s1, d1, w1)
             else
               case sock_bind api l pathStr w1 of
                 (False, w2) \<Rightarrow> (start_throw api w2, s1, d1, w2)
               | (True, w2) \<Rightarrow>
                   (case sock_listen api l 1 w2 of
                      (False, w3) \<Rightarrow> (start_throw api w3, s1, d1, w3)
                    | (True, w3) \<Rightarrow> let (r, d2) = PublishDiscovery api s1 d1 in (r, s1, d2, w3)))"

text \<open>
  The destructor once \<^verbatim>\<open>Stop()\<close> has returned: \<^verbatim>\<open>WSACleanup\<close>, and then the destructors of the members, of
  which only the client's socket may still be open.
\<close>

definition V2Server_destroy :: "'w v2_start_api \<Rightarrow> 'w v2_api \<Rightarrow> 'w V2_sys \<Rightarrow> 'w V2_sys" where
  "V2Server_destroy api api2 y =
     (let (s, w) = V2_reset_client api2 (v2_srv y) (WSACleanup api (v2_world y)) in y\<lparr>v2_srv := s, v2_world := w\<rparr>)"

text \<open>The system once \<^verbatim>\<open>Start()\<close> has launched both threads.\<close>

definition V2_launched :: "V2Server \<Rightarrow> 'w \<Rightarrow> 'w V2_sys" where
  "V2_launched s w = \<lparr>v2_srv = s, v2_acc = B_Loop, v2_png = Q_Loop, v2_world = w, v2_terminated = False\<rparr>"

section \<open>What is promised\<close>

text \<open>How a client reads the metadata: its lines, and the value of the first line with a key.\<close>

function crlf_lines :: "bytes \<Rightarrow> bytes list" where
  "crlf_lines bs =
     (if bs = [] then []
      else let l = takeWhile (\<lambda>c. c \<noteq> 10) bs in butlast l # crlf_lines (drop (Suc (length l)) bs))"
  by pat_completeness auto

termination crlf_lines
  by (relation "measure length") auto

declare crlf_lines.simps [simp del]

definition metadata_value :: "string \<Rightarrow> bytes \<Rightarrow> bytes option" where
  "metadata_value key content =
     map_option (drop (Suc (length key))) (List.find (prefix (cstr (key @ ''=''))) (crlf_lines content))"

definition single_line :: "bytes \<Rightarrow> bool" where
  "single_line bs \<longleftrightarrow> 10 \<notin> set bs"

text \<open>The disk after a successful start, from the disk on which all directories exist.\<close>

definition published_disk :: "'w v2_start_api \<Rightarrow> V2Server \<Rightarrow> fspath \<Rightarrow> disk \<Rightarrow> disk" where
  "published_disk api s dir d1 =
     (let d2 = write_stream (meta_path dir (mConfig s))
            (metadata (mConfig s) (join_path 47 (absolute_path api (socketPath (mConfig s))))) d1
      in if mDefaultBehavior s = AlwaysSet \<or> mDefaultBehavior s = SetIfUnset \<and> \<not> fs_path_exists (default_path dir) d2
         then write_stream (default_path dir) (implementationId (mConfig s)) d2 else d2)"

text \<open>A disk with nothing but the user's folder, and one where another server is the default.\<close>

definition sample_folder :: fspath where
  "sample_folder = [cstr ''C:'', cstr ''U'']"

definition sample_dir :: fspath where
  "sample_dir = sample_folder @ [cstr ''otd-ipc'', cstr ''servers'', cstr ''v2'']"

definition sample_start_config :: Config where
  "sample_start_config = sample_config\<lparr>socketPath := sample_folder @ [cstr ''adapter'', cstr ''socket'']\<rparr>"

definition sample_server :: "DefaultBehavior \<Rightarrow> V2Server" where
  "sample_server db = V2Server_init sample_start_config db"

definition sample_disk :: "bytes option \<Rightarrow> disk" where
  "sample_disk other =
     \<lparr>files = (case other of None \<Rightarrow> [] | Some c \<Rightarrow> [(default_path (sample_folder @ [cstr ''otd-ipc'', cstr ''servers'', cstr ''v2'']), c)]),
      dirs = [[cstr ''C:''], sample_folder, sample_folder @ [cstr ''otd-ipc''], sample_folder @ [cstr ''otd-ipc'', cstr ''servers''],
              sample_folder @ [cstr ''otd-ipc'', cstr ''servers'', cstr ''v2'']],
      denied = (\<lambda>_. False)\<rparr>"

definition sample_start_api :: "'w v2_start_api" where
  "sample_start_api =
     \<lparr>sock_socket = (\<lambda>w. (Some 3, w)), sock_bind = (\<lambda>_ _ w. (True, w)), sock_listen = (\<lambda>_ _ w. (True, w)),
      start_close = (\<lambda>_ w. w), start_last_error = (\<lambda>_. 10048), LocalAppData = Some sample_folder, absolute_path = (\<lambda>p. p),
      WSAStartup = (\<lambda>w. (0, w)), WSACleanup = (\<lambda>w. w)\<rparr>"

section \<open>Lemmas\<close>

lemma file_at_delete [simp]: "file_at (d\<lparr>files := AList.delete p (files d)\<rparr>) q = (if q = p then None else file_at d q)"
  by (simp add: file_at_def delete_conv')

lemma file_at_update [simp]: "file_at (d\<lparr>files := AList.update p c (files d)\<rparr>) q = (if q = p then Some c else file_at d q)"
  by (simp add: file_at_def update_conv')

lemma file_at_dirs [simp]: "file_at (d\<lparr>dirs := ps\<rparr>) q = file_at d q"
  by (simp add: file_at_def)

lemma create_directory_keeps: "create_directory p d = (b, d') \<Longrightarrow> files d' = files d \<and> denied d' = denied d"
  by (auto simp: create_directory_def split: if_splits)

lemma create_all_keeps: "create_all ps d = (b, d') \<Longrightarrow> files d' = files d \<and> denied d' = denied d"
  by (induction ps d rule: create_all.induct)
    (auto split: prod.splits bool.splits dest: create_directory_keeps)

lemma create_directories_keeps:
  "create_directories p d = (b, d') \<Longrightarrow> file_at d' q = file_at d q \<and> denied d' = denied d"
  by (simp add: create_directories_def file_at_def create_all_keeps)

lemma create_directory_dirs:
  "create_directory p d = (True, d') \<Longrightarrow> p \<in> set (dirs d') \<and> set (dirs d) \<subseteq> set (dirs d')"
  by (auto simp: create_directory_def split: if_splits)

lemma create_all_dirs: "create_all ps d = (True, d') \<Longrightarrow> set ps \<union> set (dirs d) \<subseteq> set (dirs d')"
proof (induction ps arbitrary: d)
  case Nil
  then show ?case by simp
next
  case (Cons p ps)
  then obtain d1 where "create_directory p d = (True, d1)" "create_all ps d1 = (True, d')"
    by (auto split: prod.splits bool.splits)
  with Cons.IH [of d1] create_directory_dirs [of p d d1] show ?case by auto
qed

lemma create_directories_prefix:
  assumes "create_directories p d = (True, d')" and "0 < n" and "n \<le> length p"
  shows "take n p \<in> set (dirs d')"
proof -
  have "take n p \<in> set (map (\<lambda>n. take n p) [1..<Suc (length p)])" using assms(2,3) by (simp only: set_map set_upt) auto
  then show ?thesis using create_all_dirs [OF assms(1) [unfolded create_directories_def]] by blast
qed

lemma remove_path_file: "q \<noteq> p \<Longrightarrow> file_at (remove_path p d) q = file_at d q"
  by (simp add: remove_path_def)

lemma prepare_socket_path_file: "q \<noteq> p \<Longrightarrow> file_at (prepare_socket_path p d) q = file_at d q"
  by (cases "create_directories (butlast p) (if fs_path_exists p d then remove_path p d else d)")
    (simp add: prepare_socket_path_def Let_def remove_path_file create_directories_keeps)

lemma remove_path_denied [simp]: "denied (remove_path p d) = denied d"
  by (simp add: remove_path_def)

lemma prepare_socket_path_denied: "denied (prepare_socket_path p d) = denied d"
  by (cases "create_directories (butlast p) (if fs_path_exists p d then remove_path p d else d)")
    (simp add: prepare_socket_path_def Let_def create_directories_keeps)

lemma write_stream_other: "q \<noteq> p \<Longrightarrow> file_at (write_stream p c d) q = file_at d q"
  by (simp add: write_stream_def)

lemma write_stream_keeps [simp]: "dirs (write_stream p c d) = dirs d" "denied (write_stream p c d) = denied d"
  by (simp_all add: write_stream_def)

lemma write_stream_written:
  "butlast p \<in> set (dirs d) \<Longrightarrow> p \<notin> set (dirs d) \<Longrightarrow> \<not> denied d p \<Longrightarrow>
     file_at (write_stream p c d) p = Some (text_mode c)"
  by (simp add: write_stream_def)

lemma meta_not_default [simp]: "meta_path dir c \<noteq> default_path dir" "default_path dir \<noteq> meta_path dir c"
  by (simp_all add: meta_path_def default_path_def)

lemma text_mode_append: "text_mode (a @ b) = text_mode a @ text_mode b"
  by (simp add: text_mode_def)

lemma text_mode_line [simp]: "single_line a \<Longrightarrow> text_mode a = a"
  by (induction a) (auto simp: text_mode_def single_line_def)

lemma text_mode_Cons [simp]: "text_mode (c # bs) = (if c = 10 then 13 # 10 # text_mode bs else c # text_mode bs)" "text_mode [] = []"
  by (simp_all add: text_mode_def)

lemma crlf_lines_Nil [simp]: "crlf_lines [] = []"
  by (simp add: crlf_lines.simps)

lemma crlf_lines_line:
  assumes "single_line a"
  shows "crlf_lines (a @ 13 # 10 # rest) = a # crlf_lines rest"
proof -
  have "takeWhile (\<lambda>c. c \<noteq> 10) (a @ 13 # 10 # rest) = a @ [13]"
    using assms by (induction a) (auto simp: single_line_def)
  then show ?thesis by (subst crlf_lines.simps) (simp add: Let_def)
qed

lemma single_line_append [simp]: "single_line (a @ b) \<longleftrightarrow> single_line a \<and> single_line b"
  by (auto simp: single_line_def)

lemma metadata_lines:
  assumes "single_line (implementationId c)" and "single_line sock" and "single_line (humanName c)"
    and "single_line (humanVersion c)" and "single_line (homepageUrl c)"
  shows "crlf_lines (text_mode (metadata c sock)) =
    [cstr ''ID='' @ implementationId c, cstr ''SOCKET='' @ sock, cstr ''HUMAN_READABLE_NAME='' @ humanName c,
     cstr ''HUMAN_READABLE_VERSION='' @ humanVersion c, cstr ''COMPATIBILITY_VERSION='' @ [CompatibilityVersion],
     cstr ''HOMEPAGE='' @ homepageUrl c]"
proof -
  have k: "single_line (cstr ''ID='')" "single_line (cstr ''SOCKET='')" "single_line (cstr ''HUMAN_READABLE_NAME='')"
    "single_line (cstr ''HUMAN_READABLE_VERSION='')" "single_line (cstr ''COMPATIBILITY_VERSION='')"
    "single_line (cstr ''HOMEPAGE='')" "single_line [CompatibilityVersion]"
    by (simp_all add: single_line_def cstr_def CompatibilityVersion_def)
  have line: "crlf_lines (a @ b @ 13 # 10 # rest) = (a @ b) # crlf_lines rest" if "single_line a" "single_line b" for a b rest
    using crlf_lines_line [of "a @ b" rest] that by simp
  have byte: "crlf_lines (a @ 1 # 13 # 10 # rest) = (a @ [1]) # crlf_lines rest" if "single_line a" for a rest
    using line [OF that, of "[1]" rest] by (simp add: single_line_def)
  show ?thesis
    using assms k by (simp add: metadata_def text_mode_append line byte CompatibilityVersion_def)
qed

lemma V2_Start_success:
  assumes "V2_Start api s d w = (Inr (), s', d', w')"
  obtains l where "s' = s\<lparr>mListenSocket := Some l\<rparr>" and "length (join_path 92 (socketPath (mConfig s))) < sizeof_sun_path"
    and "PublishDiscovery api s' (prepare_socket_path (socketPath (mConfig s)) d) = (Inr (), d')"
  using assms
  by (auto simp: V2_Start_def start_throw_def Let_def not_le split: prod.splits option.splits bool.splits if_splits)

lemma published_disk_keeps [simp]:
  "dirs (published_disk api s dir d1) = dirs d1" "denied (published_disk api s dir d1) = denied d1"
  by (simp_all add: published_disk_def Let_def)

lemma PublishDiscovery_success:
  assumes "PublishDiscovery api s d = (Inr (), d')" and "GetDiscoveryDir api = Inr dir"
  shows "\<exists>d1. create_directories (dir @ [cstr ''available'']) d = (True, d1) \<and> d' = published_disk api s dir d1"
  using assms
  by (cases "mDefaultBehavior s")
    (auto simp: PublishDiscovery_def EnsureDefaultExists_def published_disk_def Let_def split: prod.splits bool.splits if_splits)

lemma V2_Start_disk:
  assumes "V2_Start api s d w = (Inr (), s', d', w')" and "GetDiscoveryDir api = Inr dir"
  obtains d1 where "create_directories (dir @ [cstr ''available'']) (prepare_socket_path (socketPath (mConfig s)) d) = (True, d1)"
    and "d' = published_disk api s dir d1" and "denied d1 = denied d"
    and "\<And>q. q \<noteq> socketPath (mConfig s) \<Longrightarrow> file_at d1 q = file_at d q"
proof -
  let ?d0 = "prepare_socket_path (socketPath (mConfig s)) d"
  obtain l where l: "s' = s\<lparr>mListenSocket := Some l\<rparr>" and p: "PublishDiscovery api s' ?d0 = (Inr (), d')"
    using V2_Start_success [OF assms(1)] by blast
  obtain d1 where d1: "create_directories (dir @ [cstr ''available'']) ?d0 = (True, d1)" "d' = published_disk api s' dir d1"
    using PublishDiscovery_success [OF p assms(2)] by blast
  moreover have "published_disk api s' dir d1 = published_disk api s dir d1" using l by (simp add: published_disk_def Let_def)
  ultimately show ?thesis
    using that create_directories_keeps [OF d1(1)] prepare_socket_path_denied prepare_socket_path_file by metis
qed

lemma PublishDiscovery_failure:
  assumes "PublishDiscovery api s d = (Inl f, d')"
  shows "(\<exists>e. f = Throw e \<and> is_std_exception e) \<and> file_at d' q = file_at d q"
  using assms
  by (auto simp: PublishDiscovery_def EnsureDefaultExists_def GetDiscoveryDir_def create_directories_keeps
      split: option.splits prod.splits bool.splits if_splits)

lemma PublishDiscovery_frame:
  assumes "PublishDiscovery api s d = (r, d')" and "GetDiscoveryDir api = Inr dir"
    and "q \<noteq> meta_path dir (mConfig s)" and "q \<noteq> default_path dir"
  shows "file_at d' q = file_at d q"
  using assms
  by (auto simp: PublishDiscovery_def EnsureDefaultExists_def write_stream_other create_directories_keeps
      split: prod.splits bool.splits if_splits)

lemma GetDiscoveryDir_nonempty: "GetDiscoveryDir api = Inr dir \<Longrightarrow> dir \<noteq> []"
  by (auto simp: GetDiscoveryDir_def split: option.splits)

lemma V2_Start_meta:
  assumes "V2_Start api s d w = (Inr (), s', d', w')" and "GetDiscoveryDir api = Inr dir"
    and "meta_path dir (mConfig s) \<notin> set (dirs d')" and "\<not> denied d (meta_path dir (mConfig s))"
  shows "file_at d' (meta_path dir (mConfig s)) =
    Some (text_mode (metadata (mConfig s) (join_path 47 (absolute_path api (socketPath (mConfig s))))))"
proof -
  obtain d1 where c: "create_directories (dir @ [cstr ''available'']) (prepare_socket_path (socketPath (mConfig s)) d) = (True, d1)"
    and d': "d' = published_disk api s dir d1" and "denied d1 = denied d"
    using V2_Start_disk [OF assms(1,2)] by metis
  moreover have "butlast (meta_path dir (mConfig s)) \<in> set (dirs d1)"
    using create_directories_prefix [OF c, of "Suc (length dir)"] by (simp add: meta_path_def butlast_append)
  moreover have "meta_path dir (mConfig s) \<notin> set (dirs d1)" using assms(3) d' by simp
  ultimately show ?thesis
    using assms(4) by (simp add: published_disk_def Let_def write_stream_other write_stream_written)
qed

lemma sample_GetDiscoveryDir: "GetDiscoveryDir sample_start_api = Inr sample_dir"
  by (simp add: GetDiscoveryDir_def sample_start_api_def sample_dir_def)

lemma sample_server_fields [simp]:
  "mConfig (sample_server db) = sample_start_config" "mDefaultBehavior (sample_server db) = db"
  by (simp_all add: sample_server_def V2Server_init_def)

lemma sample_absolute [simp]: "absolute_path sample_start_api p = p"
  by (simp add: sample_start_api_def)

lemma sample_not_denied [simp]: "\<not> denied (sample_disk other) p"
  by (simp add: sample_disk_def)

lemma sample_starts:
  "fst (V2_Start sample_start_api (sample_server SetIfUnset) (sample_disk (Some [65])) ()) = Inr () \<and>
   (let d' = fst (snd (snd (V2_Start sample_start_api (sample_server SetIfUnset) (sample_disk (Some [65])) ())))
    in meta_path sample_dir sample_start_config \<notin> set (dirs d') \<and> default_path sample_dir \<notin> set (dirs d'))"
  by code_simp

lemma sample_lines:
  "single_line (implementationId sample_start_config) \<and> single_line (humanName sample_start_config) \<and>
   single_line (humanVersion sample_start_config) \<and> single_line (homepageUrl sample_start_config) \<and>
   single_line (join_path 47 (socketPath sample_start_config))"
  by code_simp

section \<open>Properties\<close>





text \<open>Nothing else is touched.  Whether the start succeeds or fails, every file other than the socket,
  the metadata file and the default file has the content it had before.\<close>

theorem V2_Start_frame:
  assumes "V2_Start api s d w = (r, s', d', w')" and "GetDiscoveryDir api = Inr dir"
    and "q \<noteq> socketPath (mConfig s)" and "q \<noteq> meta_path dir (mConfig s)" and "q \<noteq> default_path dir"
  shows "file_at d' q = file_at d q"
  using assms PublishDiscovery_frame [OF _ assms(2), of _ _ _ _ q]
  by (auto simp: V2_Start_def Let_def prepare_socket_path_file split: prod.splits option.splits bool.splits if_splits)

theorem V2_Start_frame_witness:
  "file_at (fst (snd (snd (V2_Start sample_start_api (sample_server AlwaysSet) (sample_disk (Some [65])) ()))))
     (sample_dir @ [cstr ''available'', cstr ''other.txt'']) =
   file_at (sample_disk (Some [65])) (sample_dir @ [cstr ''available'', cstr ''other.txt''])"
proof -
  let ?q = "sample_dir @ [cstr ''available'', cstr ''other.txt'']"
  obtain r s' d' w' where "V2_Start sample_start_api (sample_server AlwaysSet) (sample_disk (Some [65])) () = (r, s', d', w')"
    by (metis prod_cases4)
  moreover have "?q \<noteq> socketPath sample_start_config" "?q \<noteq> meta_path sample_dir sample_start_config"
    "?q \<noteq> default_path sample_dir"
    by code_simp+
  ultimately show ?thesis
    using V2_Start_frame [OF _ sample_GetDiscoveryDir, of "sample_server AlwaysSet" "sample_disk (Some [65])" "()" r s' d' w' ?q] by simp
qed



end
