(* ===== verification/Adapter_Main.thy ===== *)
theory Adapter_Main
  imports Adapter_Handlers V2Discovery
begin

text \<open>
  The program (\<^verbatim>\<open>main.cpp\<close>): the start of the servers and the tablet, the message loop, the
  destructors of the locals of \<^verbatim>\<open>main\<close> and how the process ends.

  Up to the start of the servers, \<^verbatim>\<open>main\<close> is a function.  From then on the process is a step
  relation: the main thread constructs the tablet, waits, takes messages and dispatches them, and in the
  end stops the servers, while the threads of the servers, the console handler and the outside world
  take steps of their own at any time.  The constructor of the tablet is one step; it touches the
  servers in a single call of the handler, so steps of their threads in the middle of it would change
  nothing.  The sockets, the pipes and the windows with the driver are three separate worlds.
\<close>

section \<open>Parameters\<close>

record ('a, 'b, 'w) main_api =
  start_api :: "'a v2_start_api"
  v2api :: "'a v2_api"
  v1api :: "'b v1_api"
  request_stop_v2 :: "server_thread \<Rightarrow> 'a \<Rightarrow> 'a"
  request_stop_v1 :: "server_thread \<Rightarrow> 'b \<Rightarrow> 'b"
  tablet_api :: "'w wintab_api"
  SemVer :: bytes
  RegisterClassExW :: "wchars \<Rightarrow> 'w \<Rightarrow> 'w"
  CreateWindowEx :: "wchars \<Rightarrow> 'w \<Rightarrow> HWND \<times> 'w"
  DestroyWindow :: "HWND \<Rightarrow> 'w \<Rightarrow> 'w"
  DefWindowProcW :: "HWND \<Rightarrow> u32 \<Rightarrow> u64 \<Rightarrow> u64 \<Rightarrow> 'w \<Rightarrow> u64 \<times> 'w"

section \<open>State\<close>

record Args =
  mOtdIpcV1 :: bool
  mOverwriteDefault :: bool
  mHijackBuggyDriver :: "InjectableBuggyDriver option"

record MSG =
  msg_hwnd :: HWND
  msg_message :: u32
  msg_wParam :: u64
  msg_lParam :: u64

text \<open>
  Where the main thread is.  After the message loop, or an exception that \<^verbatim>\<open>main\<close> catches, the locals
  are destroyed in the reverse order of their declaration, with the exit code already known:
  the tablet, the window, the V1 server (its \<^verbatim>\<open>Stop()\<close> waits for the ping thread, then for the accept
  thread) and the V2 server (the same).  The last five constructors are ends of the process: a
  return, an exception that is not caught, undefined behaviour, and an exception in
  another thread.
\<close>

datatype main_pc =
    M_Construct
  | M_Wait
  | M_Peek
  | M_Destroy_tablet int
  | M_Destroy_window int
  | M_Stop_v1 int
  | M_Join_v1_ping int
  | M_Join_v1_accept int
  | M_Stop_v2 int
  | M_Join_v2_ping int
  | M_Join_v2_accept int
  | M_Return int
  | M_Uncaught cxx_exception
  | M_Undefined ub_kind
  | M_Terminated

record ('a, 'b, 'w) adapter =
  ad_env :: "(('a, 'b) servers, 'w) tablet_env"
  ad_window :: HWND
  ad_pc :: main_pc
  gExitEvent :: bool

datatype 'x started = Failed main_pc disk | Running 'x disk

definition EXIT_SUCCESS :: int where
  "EXIT_SUCCESS = 0"

definition EXIT_FAILURE :: int where
  "EXIT_FAILURE = 1"

section \<open>The start\<close>

definition get_socket_path :: "'a v2_start_api \<Rightarrow> fspath" where
  "get_socket_path api =
     (case LocalAppData api of
        Some p \<Rightarrow> p @ [cstr ''OpenKneeboard WinTab Adapter'', cstr ''socket'']
      | None \<Rightarrow> [])"

definition CreateWintabWindow :: "('a, 'b, 'w) main_api \<Rightarrow> 'w \<Rightarrow> HWND \<times> 'w" where
  "CreateWintabWindow api w =
     (let name = wstr ''OpenKneeboard-WinTab-Adapter''
      in CreateWindowEx api name (RegisterClassExW api name w))"

definition main_config :: "('a, 'b, 'w) main_api \<Rightarrow> Config" where
  "main_config api =
     \<lparr>implementationId = cstr ''com.openkneeboard.wintab-adapter'', humanName = cstr ''OpenKneeboard WinTab Adapter'',
      humanVersion = SemVer api, homepageUrl = cstr ''https://github.com/OpenKneeboard/wintab-adapter'',
      socketPath = get_socket_path (start_api api)\<rparr>"

definition default_behavior :: "Args \<Rightarrow> DefaultBehavior" where
  "default_behavior args = (if mOverwriteDefault args then AlwaysSet else SetIfUnset)"

text \<open>The handler of the function's \<^verbatim>\<open>try\<close> block; \<open>unwind\<close> is where the destructors begin.\<close>

definition main_catch :: "main_pc \<Rightarrow> fault \<Rightarrow> main_pc" where
  "main_catch unwind f =
     (case f of
        Throw e \<Rightarrow> if is_std_exception e then unwind else M_Uncaught e
      | UB k \<Rightarrow> M_Undefined k)"

definition main_handler :: "('a, 'b, 'w) main_api \<Rightarrow> bool \<Rightarrow> ('a, 'b) servers IHandler" where
  "main_handler api otd1 = MultiHandler (server_handlers (v2api api) (v1api api) otd1)"

text \<open>
  Everything before the window.  When the V2 server cannot be constructed or started none of
  its threads runs, and its destructor has nothing to wait for.
\<close>

definition main_start ::
  "('a, 'b, 'w) main_api \<Rightarrow> Args \<Rightarrow> disk \<Rightarrow> 'a \<Rightarrow> 'b \<Rightarrow> 'w \<Rightarrow> ('a, 'b, 'w) adapter started" where
  "main_start api args d a b w =
     (case V2Server_new (start_api api) (main_config api) (default_behavior args) a of
        (Inl f, a1) \<Rightarrow> Failed (main_catch (M_Return EXIT_FAILURE) f) d
      | (Inr s, a1) \<Rightarrow>
          (case V2_Start (start_api api) s d a1 of
             (Inl f, s1, d1, a2) \<Rightarrow> Failed (main_catch (M_Return EXIT_FAILURE) f) d1
           | (Inr _, s1, d1, a2) \<Rightarrow>
               Running
                 \<lparr>ad_env = \<lparr>gInstance = No_instance,
                    te_handler = \<lparr>sv2 = V2_launched s1 a2, sv1 = (if mOtdIpcV1 args then Some (V1_Start b) else None)\<rparr>,
                    te_world = w\<rparr>,
                  ad_window = 0, ad_pc = M_Construct, gExitEvent = False\<rparr> d1))"

text \<open>The window and the tablet.\<close>

definition construct_tablet :: "('a, 'b, 'w) main_api \<Rightarrow> Args \<Rightarrow> ('a, 'b, 'w) adapter \<Rightarrow> ('a, 'b, 'w) adapter option" where
  "construct_tablet api args y =
     (let (window, w1) = CreateWintabWindow api (te_world (ad_env y))
      in case WintabTablet_new (tablet_api api) (main_handler api (mOtdIpcV1 args)) window (mHijackBuggyDriver args)
                ((ad_env y)\<lparr>te_world := w1\<rparr>) of
           None \<Rightarrow> None
         | Some (Inl f, e) \<Rightarrow>
             Some (y\<lparr>ad_env := e, ad_window := window, ad_pc := main_catch (M_Destroy_window EXIT_FAILURE) f\<rparr>)
         | Some (Inr _, e) \<Rightarrow> Some (y\<lparr>ad_env := e, ad_window := window, ad_pc := M_Wait\<rparr>))"

section \<open>The message loop\<close>

definition ConsoleCtrlHandler :: "('a, 'b, 'w) adapter \<Rightarrow> bool \<times> ('a, 'b, 'w) adapter" where
  "ConsoleCtrlHandler y = (True, y\<lparr>gExitEvent := True\<rparr>)"

definition WintabWndproc ::
  "('a, 'b, 'w) main_api \<Rightarrow> bool \<Rightarrow> MSG \<Rightarrow> (('a, 'b) servers, 'w) tablet_env
     \<Rightarrow> u64 result \<times> (('a, 'b) servers, 'w) tablet_env" where
  "WintabWndproc api otd1 m e =
     (case ProcessMessage (tablet_api api) (main_handler api otd1) (msg_hwnd m) (msg_message m) (msg_wParam m) (msg_lParam m) e of
        (Inl f, e1) \<Rightarrow> (Inl f, e1)
      | (Inr True, e1) \<Rightarrow> (Inr 0, e1)
      | (Inr False, e1) \<Rightarrow>
          let (r, w) = DefWindowProcW api (msg_hwnd m) (msg_message m) (msg_wParam m) (msg_lParam m) (te_world e1)
          in (Inr r, e1\<lparr>te_world := w\<rparr>))"

definition dispatch :: "('a, 'b, 'w) main_api \<Rightarrow> bool \<Rightarrow> MSG \<Rightarrow> ('a, 'b, 'w) adapter \<Rightarrow> ('a, 'b, 'w) adapter" where
  "dispatch api otd1 m y =
     (case WintabWndproc api otd1 m (ad_env y) of
        (Inl f, e) \<Rightarrow> y\<lparr>ad_env := e, ad_pc := main_catch (M_Destroy_tablet EXIT_FAILURE) f\<rparr>
      | (Inr _, e) \<Rightarrow> y\<lparr>ad_env := e\<rparr>)"

section \<open>The destructors\<close>

definition ad_servers :: "('a, 'b, 'w) adapter \<Rightarrow> ('a, 'b) servers" where
  "ad_servers y = te_handler (ad_env y)"

definition put_servers :: "('a, 'b) servers \<Rightarrow> ('a, 'b, 'w) adapter \<Rightarrow> ('a, 'b, 'w) adapter" where
  "put_servers sv y = y\<lparr>ad_env := (ad_env y)\<lparr>te_handler := sv\<rparr>\<rparr>"

definition destroy_tablet :: "('a, 'b, 'w) main_api \<Rightarrow> int \<Rightarrow> ('a, 'b, 'w) adapter \<Rightarrow> ('a, 'b, 'w) adapter" where
  "destroy_tablet api code y =
     (case gInstance (ad_env y) of
        Live t \<Rightarrow>
          (case WintabTablet_destroy (tablet_api api) t (ad_env y) of
             (Inl f, e) \<Rightarrow> y\<lparr>ad_env := e, ad_pc := main_catch (M_Destroy_window code) f\<rparr>
           | (Inr _, e) \<Rightarrow> y\<lparr>ad_env := e, ad_pc := M_Destroy_window code\<rparr>)
      | _ \<Rightarrow> y\<lparr>ad_pc := M_Destroy_window code\<rparr>)"

definition destroy_window :: "('a, 'b, 'w) main_api \<Rightarrow> int \<Rightarrow> ('a, 'b, 'w) adapter \<Rightarrow> ('a, 'b, 'w) adapter" where
  "destroy_window api code y =
     (let e = ad_env y
      in y\<lparr>ad_env := e\<lparr>te_world := (if ad_window y = 0 then te_world e else DestroyWindow api (ad_window y) (te_world e))\<rparr>,
           ad_pc := M_Stop_v1 code\<rparr>)"

text \<open>
  Assigning an empty thread to a thread member asks the thread to stop and then waits for it: one
  step that asks, and a step that is possible once the thread function has returned.
\<close>

definition V1_ask :: "('a, 'b, 'w) main_api \<Rightarrow> server_thread \<Rightarrow> 'b V1_sys \<Rightarrow> 'b V1_sys" where
  "V1_ask api t z = z\<lparr>world := request_stop_v1 api t (world z)\<rparr>"

definition V2_ask :: "('a, 'b, 'w) main_api \<Rightarrow> server_thread \<Rightarrow> 'a V2_sys \<Rightarrow> 'a V2_sys" where
  "V2_ask api t z = z\<lparr>v2_world := request_stop_v2 api t (v2_world z)\<rparr>"

definition stop_v1 :: "('a, 'b, 'w) main_api \<Rightarrow> int \<Rightarrow> ('a, 'b, 'w) adapter \<Rightarrow> ('a, 'b, 'w) adapter" where
  "stop_v1 api code y =
     (case sv1 (ad_servers y) of
        None \<Rightarrow> y\<lparr>ad_pc := M_Stop_v2 code\<rparr>
      | Some z \<Rightarrow> (put_servers ((ad_servers y)\<lparr>sv1 := Some (V1_ask api Ping_thread z)\<rparr>) y)\<lparr>ad_pc := M_Join_v1_ping code\<rparr>)"

definition joined_v1_ping :: "('a, 'b, 'w) main_api \<Rightarrow> int \<Rightarrow> ('a, 'b, 'w) adapter \<Rightarrow> ('a, 'b, 'w) adapter" where
  "joined_v1_ping api code y =
     (put_servers ((ad_servers y)\<lparr>sv1 := map_option (V1_ask api Accept_thread) (sv1 (ad_servers y))\<rparr>) y)\<lparr>ad_pc := M_Join_v1_accept code\<rparr>"

definition joined_v1_accept :: "('a, 'b, 'w) main_api \<Rightarrow> int \<Rightarrow> ('a, 'b, 'w) adapter \<Rightarrow> ('a, 'b, 'w) adapter" where
  "joined_v1_accept api code y =
     (put_servers ((ad_servers y)\<lparr>sv1 := map_option (V1_Stop_finish (v1api api)) (sv1 (ad_servers y))\<rparr>) y)\<lparr>ad_pc := M_Stop_v2 code\<rparr>"

definition stop_v2 :: "('a, 'b, 'w) main_api \<Rightarrow> int \<Rightarrow> ('a, 'b, 'w) adapter \<Rightarrow> ('a, 'b, 'w) adapter" where
  "stop_v2 api code y =
     (put_servers ((ad_servers y)\<lparr>sv2 := V2_ask api Ping_thread (V2_main_thread (v2api api) Main_stop_begin (sv2 (ad_servers y)))\<rparr>) y)
       \<lparr>ad_pc := M_Join_v2_ping code\<rparr>"

definition joined_v2_ping :: "('a, 'b, 'w) main_api \<Rightarrow> int \<Rightarrow> ('a, 'b, 'w) adapter \<Rightarrow> ('a, 'b, 'w) adapter" where
  "joined_v2_ping api code y =
     (put_servers ((ad_servers y)\<lparr>sv2 := V2_ask api Accept_thread (sv2 (ad_servers y))\<rparr>) y)\<lparr>ad_pc := M_Join_v2_accept code\<rparr>"

definition joined_v2_accept :: "('a, 'b, 'w) main_api \<Rightarrow> int \<Rightarrow> ('a, 'b, 'w) adapter \<Rightarrow> ('a, 'b, 'w) adapter" where
  "joined_v2_accept api code y =
     (put_servers ((ad_servers y)\<lparr>sv2 := V2Server_destroy (start_api api) (v2api api) (sv2 (ad_servers y))\<rparr>) y)\<lparr>ad_pc := M_Return code\<rparr>"

section \<open>The process\<close>

fun process_ended :: "main_pc \<Rightarrow> bool" where
  "process_ended (M_Return c) = True"
| "process_ended (M_Uncaught e) = True"
| "process_ended (M_Undefined k) = True"
| "process_ended M_Terminated = True"
| "process_ended pc = False"

text \<open>A step of a server thread: an exception that leaves it ends the process.\<close>

definition set_servers :: "('a, 'b) servers \<Rightarrow> ('a, 'b, 'w) adapter \<Rightarrow> ('a, 'b, 'w) adapter" where
  "set_servers sv y =
     (put_servers sv y)
       \<lparr>ad_pc := (if pred_option (\<lambda>z. \<not> terminated z) (sv1 sv) \<and> \<not> v2_terminated (sv2 sv) then ad_pc y else M_Terminated)\<rparr>"

text \<open>
  The steps of the main thread.  \<^verbatim>\<open>MsgWaitForMultipleObjectsEx\<close> reports the event if it is set, also
  when there is input; it may also fail.  Any result but input ends the loop.
\<close>

inductive main_step :: "('a, 'b, 'w) main_api \<Rightarrow> Args \<Rightarrow> ('a, 'b, 'w) adapter \<Rightarrow> ('a, 'b, 'w) adapter \<Rightarrow> bool"
  for api args where
  construct: "ad_pc y = M_Construct \<Longrightarrow> construct_tablet api args y = Some z \<Longrightarrow> main_step api args y z"
| wait_input: "ad_pc y = M_Wait \<Longrightarrow> \<not> gExitEvent y \<Longrightarrow> main_step api args y (y\<lparr>ad_pc := M_Peek\<rparr>)"
| wait_other: "ad_pc y = M_Wait \<Longrightarrow> main_step api args y (y\<lparr>ad_pc := M_Destroy_tablet EXIT_SUCCESS\<rparr>)"
| peek_none: "ad_pc y = M_Peek \<Longrightarrow> main_step api args y (y\<lparr>ad_pc := M_Wait\<rparr>)"
| peek_message: "ad_pc y = M_Peek \<Longrightarrow> main_step api args y (dispatch api (mOtdIpcV1 args) m y)"
| tablet: "ad_pc y = M_Destroy_tablet c \<Longrightarrow> main_step api args y (destroy_tablet api c y)"
| window: "ad_pc y = M_Destroy_window c \<Longrightarrow> main_step api args y (destroy_window api c y)"
| v1: "ad_pc y = M_Stop_v1 c \<Longrightarrow> main_step api args y (stop_v1 api c y)"
| v1_ping: "ad_pc y = M_Join_v1_ping c \<Longrightarrow> pred_option (\<lambda>z. png z = P_Done) (sv1 (ad_servers y)) \<Longrightarrow>
    main_step api args y (joined_v1_ping api c y)"
| v1_accept: "ad_pc y = M_Join_v1_accept c \<Longrightarrow> pred_option V1_Stop_returns (sv1 (ad_servers y)) \<Longrightarrow>
    main_step api args y (joined_v1_accept api c y)"
| v2: "ad_pc y = M_Stop_v2 c \<Longrightarrow> main_step api args y (stop_v2 api c y)"
| v2_ping: "ad_pc y = M_Join_v2_ping c \<Longrightarrow> v2_png (sv2 (ad_servers y)) = Q_Done \<Longrightarrow> main_step api args y (joined_v2_ping api c y)"
| v2_accept: "ad_pc y = M_Join_v2_accept c \<Longrightarrow> V2_Stop_returns (sv2 (ad_servers y)) \<Longrightarrow>
    main_step api args y (joined_v2_accept api c y)"

inductive adapter_step :: "('a, 'b, 'w) main_api \<Rightarrow> Args \<Rightarrow> ('a, 'b, 'w) adapter \<Rightarrow> ('a, 'b, 'w) adapter \<Rightarrow> bool"
  for api args where
  main: "main_step api args y z \<Longrightarrow> adapter_step api args y z"
| ctrl: "\<not> process_ended (ad_pc y) \<Longrightarrow> adapter_step api args y (snd (ConsoleCtrlHandler y))"
| v2_accept_thread: "\<not> process_ended (ad_pc y) \<Longrightarrow>
    adapter_step api args y (set_servers ((ad_servers y)\<lparr>sv2 := V2_accept_thread (v2api api) (sv2 (ad_servers y))\<rparr>) y)"
| v2_ping_thread: "\<not> process_ended (ad_pc y) \<Longrightarrow>
    adapter_step api args y (set_servers ((ad_servers y)\<lparr>sv2 := V2_ping_thread (v2api api) (sv2 (ad_servers y))\<rparr>) y)"
| v1_accept_thread: "\<not> process_ended (ad_pc y) \<Longrightarrow>
    adapter_step api args y (set_servers ((ad_servers y)\<lparr>sv1 := map_option (V1_accept_thread (v1api api)) (sv1 (ad_servers y))\<rparr>) y)"
| v1_ping_thread: "\<not> process_ended (ad_pc y) \<Longrightarrow>
    adapter_step api args y (set_servers ((ad_servers y)\<lparr>sv1 := map_option (V1_ping_thread (v1api api)) (sv1 (ad_servers y))\<rparr>) y)"
| environment: "\<not> process_ended (ad_pc y) \<Longrightarrow>
    adapter_step api args y
      (set_servers \<lparr>sv2 = (sv2 (ad_servers y))\<lparr>v2_world := a\<rparr>, sv1 = map_option (\<lambda>z. z\<lparr>world := b\<rparr>) (sv1 (ad_servers y))\<rparr>
        (y\<lparr>ad_env := (ad_env y)\<lparr>te_world := w\<rparr>\<rparr>))"

inductive adapter_reachable :: "('a, 'b, 'w) main_api \<Rightarrow> Args \<Rightarrow> ('a, 'b, 'w) adapter \<Rightarrow> bool" for api args where
  start: "main_start api args d a b w = Running y d1 \<Longrightarrow> adapter_reachable api args y"
| step: "adapter_reachable api args y \<Longrightarrow> adapter_step api args y z \<Longrightarrow> adapter_reachable api args z"

inductive_cases main_stepE: "main_step api args y z"

inductive_cases adapter_stepE: "adapter_step api args y z"

section \<open>What is promised\<close>

definition packet_fault :: "ub_kind \<Rightarrow> bool" where
  "packet_fault k \<longleftrightarrow> k = Float_conversion_out_of_range \<or> k = Shift_exponent_too_large \<or> k = Indeterminate_value \<or>
     k = Out_of_bounds_write"

text \<open>The main thread has a tablet.\<close>

fun tablet_phase :: "main_pc \<Rightarrow> bool" where
  "tablet_phase M_Wait = True"
| "tablet_phase M_Peek = True"
| "tablet_phase (M_Destroy_tablet c) = True"
| "tablet_phase pc = False"

text \<open>
  How the process may end: undefined behaviour never comes from an empty optional or a dangling
  pointer, and while the tablet exists only from packets or a library that lacks functions; an
  uncaught exception only comes from the constructor of the tablet.
\<close>

fun end_ok :: "'w wintab_api \<Rightarrow> instance_ptr \<Rightarrow> main_pc \<Rightarrow> bool" where
  "end_ok api g (M_Undefined k) =
     ((start_fault k \<or> packet_fault k) \<and>
      (case g of Live t \<Rightarrow> packet_fault k \<or> k = Null_function_pointer \<and> \<not> list_all (GetProcAddress api) WINTAB_FUNCTIONS | _ \<Rightarrow> True))"
| "end_ok api g (M_Uncaught e) = (g = Dangling)"
| "end_ok api g pc = True"

fun exit_code :: "main_pc \<Rightarrow> int option" where
  "exit_code (M_Destroy_tablet c) = Some c"
| "exit_code (M_Destroy_window c) = Some c"
| "exit_code (M_Stop_v1 c) = Some c"
| "exit_code (M_Join_v1_ping c) = Some c"
| "exit_code (M_Join_v1_accept c) = Some c"
| "exit_code (M_Stop_v2 c) = Some c"
| "exit_code (M_Join_v2_ping c) = Some c"
| "exit_code (M_Join_v2_accept c) = Some c"
| "exit_code (M_Return c) = Some c"
| "exit_code pc = None"

definition adapter_inv :: "('a, 'b, 'w) main_api \<Rightarrow> Args \<Rightarrow> ('a, 'b, 'w) adapter \<Rightarrow> bool" where
  "adapter_inv api args y \<longleftrightarrow>
     servers_inv (mOtdIpcV1 args) (ad_servers y) \<and>
     (ad_pc y \<noteq> M_Terminated \<longrightarrow> pred_option (\<lambda>z. \<not> terminated z) (sv1 (ad_servers y))) \<and>
     (ad_pc y = M_Terminated \<longrightarrow> mOtdIpcV1 args) \<and>
     (ad_pc y = M_Construct \<longrightarrow> gInstance (ad_env y) = No_instance) \<and>
     (tablet_phase (ad_pc y) \<longrightarrow>
        servers_ready (ad_servers y) \<and> (\<exists>t. gInstance (ad_env y) = Live t)) \<and>
     (\<forall>t. gInstance (ad_env y) = Live t \<longrightarrow> tablet_ok (tablet_api api) t) \<and>
     end_ok (tablet_api api) (gInstance (ad_env y)) (ad_pc y) \<and>
     pred_option (\<lambda>c. c = EXIT_SUCCESS \<or> c = EXIT_FAILURE) (exit_code (ad_pc y))"

text \<open>Where the accept threads are; nothing the main thread does in a handler call changes it.\<close>

definition control :: "('a, 'b) servers \<Rightarrow> (V1_pc \<times> bool) option \<times> V2_pc" where
  "control h = (map_option (\<lambda>z. (acc z, terminated z)) (sv1 h), v2_acc (sv2 h))"

abbreviation alive_control :: "(V1_pc \<times> bool) option \<times> V2_pc \<Rightarrow> bool" where
  "alive_control c \<equiv> pred_option (\<lambda>(pc, t). \<not> t) (fst c)"

text \<open>A system on which the adapter starts, with both servers or with one.\<close>

definition sample_main_api :: "(bytes list, unit, nat option \<times> HWND \<times> bool) main_api" where
  "sample_main_api =
     \<lparr>start_api = sample_start_api, v2api = sample_v2_api, v1api = sample_v1_api, request_stop_v2 = (\<lambda>_ a. a),
      request_stop_v1 = (\<lambda>_ b. b), tablet_api = sample_wintab_api True 5 None,
      SemVer = cstr ''1.0.0'', RegisterClassExW = (\<lambda>_ w. w), CreateWindowEx = (\<lambda>_ w. (77, w)), DestroyWindow = (\<lambda>_ w. w),
      DefWindowProcW = (\<lambda>_ _ _ _ w. (0, w))\<rparr>"

definition sample_args :: "bool \<Rightarrow> Args" where
  "sample_args otd1 = \<lparr>mOtdIpcV1 = otd1, mOverwriteDefault = False, mHijackBuggyDriver = None\<rparr>"

definition sample_adapter :: "main_pc \<Rightarrow> (bytes list, unit, nat option \<times> HWND \<times> bool) adapter" where
  "sample_adapter pc =
     \<lparr>ad_env = \<lparr>gInstance = Live sample_tablet, te_handler = sample_servers, te_world = (None, 0, True)\<rparr>,
      ad_window = 77, ad_pc = pc, gExitEvent = False\<rparr>"

section \<open>The servers under the steps of the process\<close>

lemma V2_effect_device: "V2_effect s s' \<Longrightarrow> mDevice s \<noteq> None \<Longrightarrow> mDevice s' \<noteq> None"
  by (induction rule: V2_effect.induct) (auto simp: V2_sent_one_def)

lemma V2_step_keeps:
  assumes "V2_step api y z" and "V2_sys_inv y"
  shows "V2_sys_inv z" and "mDevice (v2_srv y) \<noteq> None \<Longrightarrow> mDevice (v2_srv z) \<noteq> None"
  using V2_step_effect [OF assms] V2_effect_inv V2_effect_device assms(2) by (auto simp: V2_sys_inv_def)

lemma V1_SendRaw_device: "mV1Device (fst (snd (V1_SendRaw api n bs s w))) = mV1Device s"
  by (simp add: V1_SendRaw_def Let_def split: option.splits prod.splits)

lemma V1_accept_device: "mV1Device (srv (V1_accept_thread api z)) = mV1Device (srv z)"
proof -
  have "mV1Device (fst (snd (V1_AcceptLoop_step api pc s w))) = mV1Device s" for pc s w
    using V1_SendRaw_device [of api _ _ s w]
    by (cases pc) (auto simp: V1_AcceptLoop_step_def V1_Send_DeviceInfo_def V1_reset_pipe_simps Let_def split_beta split: option.splits)
  then show ?thesis
    by (auto simp: V1_accept_thread_def split_beta split: sum.splits)
qed

lemma V1_ping_device: "mV1Device (srv (V1_ping_thread api z)) = mV1Device (srv z)"
proof -
  have "mV1Device (fst (snd (V1_PingLoop_step api pc s w))) = mV1Device s" for pc s w
    by (cases pc) (auto simp: V1_PingLoop_step_def V1_ping_def V1_Send_Ping_def V1_SendRaw_device Let_def split_beta)
  then show ?thesis by (auto simp: V1_ping_thread_def split_beta split: sum.splits)
qed

lemma servers_v2_step:
  assumes "servers_inv otd1 sv" and "V2_step api (sv2 sv) z"
  shows "servers_inv otd1 (sv\<lparr>sv2 := z\<rparr>)" and "servers_ready sv \<Longrightarrow> servers_ready (sv\<lparr>sv2 := z\<rparr>)"
  using assms V2_step_keeps [OF assms(2)] by (auto simp: servers_inv_def servers_ready_def)

lemma servers_v1_step:
  assumes "servers_inv otd1 sv" and "pred_option (\<lambda>z. \<not> terminated z) (sv1 sv)"
    and "\<And>z. \<not> terminated z \<Longrightarrow> V1_step api z (f z)" and "\<And>z. mV1Device (srv (f z)) = mV1Device (srv z)"
  shows "servers_inv otd1 (sv\<lparr>sv1 := map_option f (sv1 sv)\<rparr>)"
    and "servers_ready sv \<Longrightarrow> servers_ready (sv\<lparr>sv1 := map_option f (sv1 sv)\<rparr>)"
  using assms V1_step_inv [OF assms(3)] by (cases "sv1 sv"; auto simp: servers_inv_def servers_ready_def)+

lemma ad_servers_simps [simp]:
  "ad_servers (put_servers sv y) = sv" "gInstance (ad_env (put_servers sv y)) = gInstance (ad_env y)"
  "ad_pc (put_servers sv y) = ad_pc y" "gExitEvent (put_servers sv y) = gExitEvent y"
  "ad_servers (set_servers sv y) = sv" "gInstance (ad_env (set_servers sv y)) = gInstance (ad_env y)"
  "gExitEvent (set_servers sv y) = gExitEvent y"
  "ad_servers (y\<lparr>ad_pc := pc\<rparr>) = ad_servers y" "ad_servers (y\<lparr>gExitEvent := x\<rparr>) = ad_servers y"
  "ad_servers (y\<lparr>ad_env := (ad_env y)\<lparr>te_world := w\<rparr>\<rparr>) = ad_servers y"
  by (simp_all add: ad_servers_def set_servers_def put_servers_def)

lemma set_servers_pc:
  "ad_pc (set_servers sv y) =
     (if pred_option (\<lambda>z. \<not> terminated z) (sv1 sv) \<and> \<not> v2_terminated (sv2 sv) then ad_pc y else M_Terminated)"
  by (simp add: set_servers_def)

section \<open>The invariant under the steps of the other threads\<close>

lemma adapter_inv_servers:
  assumes "\<not> process_ended (ad_pc y)" and "adapter_inv api args y" and "servers_inv (mOtdIpcV1 args) sv"
    and "servers_ready (ad_servers y) \<Longrightarrow> servers_ready sv"
  shows "adapter_inv api args (set_servers sv y)"
proof (cases "pred_option (\<lambda>z. \<not> terminated z) (sv1 sv) \<and> \<not> v2_terminated (sv2 sv)")
  case True
  with assms show ?thesis by (auto simp: adapter_inv_def set_servers_pc)
next
  case False
  with assms(3) have "mOtdIpcV1 args" by (auto simp: servers_inv_def V2_sys_inv_def)
  moreover from False have "ad_pc (set_servers sv y) = M_Terminated" by (simp only: set_servers_pc if_False)
  ultimately show ?thesis using assms(2,3) by (simp add: adapter_inv_def)
qed

lemma adapter_inv_v2:
  assumes "\<not> process_ended (ad_pc y)" and "adapter_inv api args y" and "V2_step api2 (sv2 (ad_servers y)) z"
  shows "adapter_inv api args (set_servers ((ad_servers y)\<lparr>sv2 := z\<rparr>) y)"
proof -
  have "servers_inv (mOtdIpcV1 args) (ad_servers y)" using assms(2) by (simp add: adapter_inv_def)
  then show ?thesis using servers_v2_step [OF _ assms(3)] by (intro adapter_inv_servers [OF assms(1,2)])
qed

lemma adapter_inv_v1:
  assumes "\<not> process_ended (ad_pc y)" and "adapter_inv api args y" and "\<And>z. \<not> terminated z \<Longrightarrow> V1_step api1 z (f z)"
    and "\<And>z. mV1Device (srv (f z)) = mV1Device (srv z)"
  shows "adapter_inv api args (set_servers ((ad_servers y)\<lparr>sv1 := map_option f (sv1 (ad_servers y))\<rparr>) y)"
proof -
  have "servers_inv (mOtdIpcV1 args) (ad_servers y)" "pred_option (\<lambda>z. \<not> terminated z) (sv1 (ad_servers y))"
    using assms(1,2) by (auto simp: adapter_inv_def)
  then show ?thesis using servers_v1_step [OF _ _ assms(3,4)] by (intro adapter_inv_servers [OF assms(1,2)])
qed

lemma adapter_inv_environment:
  assumes "\<not> process_ended (ad_pc y)" and "adapter_inv api args y"
  shows "adapter_inv api args
    (set_servers \<lparr>sv2 = (sv2 (ad_servers y))\<lparr>v2_world := a\<rparr>, sv1 = map_option (\<lambda>z. z\<lparr>world := b\<rparr>) (sv1 (ad_servers y))\<rparr>
        (y\<lparr>ad_env := (ad_env y)\<lparr>te_world := w\<rparr>\<rparr>))"
proof (rule adapter_inv_servers)
  show "adapter_inv api args (y\<lparr>ad_env := (ad_env y)\<lparr>te_world := w\<rparr>\<rparr>)" using assms(2) by (simp add: adapter_inv_def)
qed (use assms in \<open>cases "sv1 (ad_servers y)"; auto simp: adapter_inv_def servers_inv_def servers_ready_def V2_sys_inv_def V1_sys_inv_def\<close>)+

section \<open>The invariant under the steps of the main thread\<close>

lemma call_control:
  "call_V1 api c h = (r, h') \<Longrightarrow> control h' = control h"
  "call_V2 api2 c h = (r, h') \<Longrightarrow> control h' = control h"
  by (auto simp: call_V1_def call_V2_def control_def split: option.splits prod.splits)

lemma main_handler_control:
  assumes "SetState (main_handler api otd1) st h = (r, h') \<or> SetDevice (main_handler api otd1) d h = (r, h')"
  shows "control h' = control h"
  using assms
  by (auto simp: main_handler_def MultiHandler_def server_handlers_def push_back_def V2_member_def V1_member_def
      dest: call_control split: if_splits prod.splits sum.splits)
    (metis call_control)+

lemma main_handler_controls [simp]:
  "control (snd (SetState (main_handler api otd1) st h)) = control h"
  "control (snd (SetDevice (main_handler api otd1) d h)) = control h"
  using main_handler_control by (metis surjective_pairing)+

lemma alive_control [simp]: "alive_control (control h) = pred_option (\<lambda>z. \<not> terminated z) (sv1 h)"
  by (cases "sv1 h") (simp_all add: control_def)

text \<open>The handlers the main thread calls keep the invariant of the servers, and anything said of where
  the accept threads are.\<close>

interpretation threads: handler_contract "main_handler api otd1" "\<lambda>h. servers_inv otd1 h \<and> P (control h)" servers_ready
  for api :: "('a, 'b, 'w) main_api" and otd1 :: bool and P :: "(V1_pc \<times> bool) option \<times> V2_pc \<Rightarrow> bool"
proof unfold_locales
  fix h :: "('a, 'b) servers" and d :: DeviceInfo
  assume "servers_inv otd1 h \<and> P (control h)" and "wf_DeviceInfo d"
  then show "fst (SetDevice (main_handler api otd1) d h) = Inr () \<and>
      (servers_inv otd1 (snd (SetDevice (main_handler api otd1) d h)) \<and> P (control (snd (SetDevice (main_handler api otd1) d h)))) \<and>
      servers_ready (snd (SetDevice (main_handler api otd1) d h))"
    unfolding main_handler_controls by (simp add: main_handler_def servers.device_ok)
next
  fix h :: "('a, 'b) servers" and st :: State
  assume "servers_inv otd1 h \<and> P (control h)" and "servers_ready h"
  then show "fst (SetState (main_handler api otd1) st h) = Inr () \<and>
      (servers_inv otd1 (snd (SetState (main_handler api otd1) st h)) \<and> P (control (snd (SetState (main_handler api otd1) st h)))) \<and>
      servers_ready (snd (SetState (main_handler api otd1) st h))"
    unfolding main_handler_controls by (simp add: main_handler_def servers.state_ok)
qed

lemma dispatch_inv:
  assumes "adapter_inv api args y" and "ad_pc y = M_Peek"
  shows "adapter_inv api args (dispatch api (mOtdIpcV1 args) m y)"
proof -
  from assms obtain t where t: "gInstance (ad_env y) = Live t" "tablet_ok (tablet_api api) t"
    and i: "servers_inv (mOtdIpcV1 args) (te_handler (ad_env y)) \<and> alive_control (control (te_handler (ad_env y)))"
    and r: "servers_ready (te_handler (ad_env y))"
    by (auto simp: adapter_inv_def ad_servers_def)
  obtain res e1 where p: "ProcessMessage (tablet_api api) (main_handler api (mOtdIpcV1 args)) (msg_hwnd m) (msg_message m) (msg_wParam m)
      (msg_lParam m) (ad_env y) = (res, e1)" by fastforce
  note ok = threads.message_ok [where P = alive_control, OF t(1) i r p]
  have fn: "\<not> list_all (resolved t) WINTAB_FUNCTIONS \<Longrightarrow> \<not> list_all (GetProcAddress (tablet_api api)) WINTAB_FUNCTIONS"
    using t(2) by (auto simp: tablet_ok_def resolved_def list_all_iff)
  from ok(1) obtain st where g: "gInstance e1 = Live (t\<lparr>mState := st\<rparr>)" by blast
  show ?thesis
  proof (cases res)
    case (Inl f)
    then have "dispatch api (mOtdIpcV1 args) m y = y\<lparr>ad_env := e1, ad_pc := main_catch (M_Destroy_tablet EXIT_FAILURE) f\<rparr>"
      using p by (simp add: dispatch_def WintabWndproc_def)
    then show ?thesis using ok(1) ok(2) [OF Inl] fn g t(2)
      by (auto simp: adapter_inv_def ad_servers_def main_catch_def start_fault_def packet_fault_def)
  next
    case (Inr b)
    obtain w where "dispatch api (mOtdIpcV1 args) m y = y\<lparr>ad_env := e1\<lparr>te_world := w\<rparr>\<rparr>"
      using p Inr by (cases b) (auto simp: dispatch_def WintabWndproc_def Let_def split_beta intro: that [of "te_world e1"])
    then show ?thesis using ok(1) g t(2) assms(2) by (auto simp: adapter_inv_def ad_servers_def tablet_ok_state)
  qed
qed

lemma new_fault_instance:
  assumes "WintabTablet_new api H window inject e = Some (Inl f, e')" and "gInstance e = No_instance"
  shows "gInstance e' \<noteq> Live t"
  using assms
  by (auto simp: WintabTablet_new_def Let_def split: option.splits sum.splits prod.splits if_splits)

lemma construct_inv:
  assumes "adapter_inv api args y" and "ad_pc y = M_Construct" and "construct_tablet api args y = Some z"
  shows "adapter_inv api args z"
proof -
  obtain window w1 where cw: "CreateWintabWindow api (te_world (ad_env y)) = (window, w1)" by fastforce
  let ?e = "(ad_env y)\<lparr>te_world := w1\<rparr>"
  obtain r e where n: "WintabTablet_new (tablet_api api) (main_handler api (mOtdIpcV1 args)) window (mHijackBuggyDriver args) ?e = Some (r, e)"
    using assms(3) cw by (auto simp: construct_tablet_def split: option.splits)
  have i: "servers_inv (mOtdIpcV1 args) (te_handler ?e) \<and> alive_control (control (te_handler ?e))"
    and g: "gInstance ?e = No_instance"
    using assms(1,2) by (simp_all add: adapter_inv_def ad_servers_def)
  note ready = threads.new_ready [where P = alive_control, OF i n]
  show ?thesis
  proof (cases r)
    case (Inl f)
    then have z: "z = y\<lparr>ad_env := e, ad_window := window, ad_pc := main_catch (M_Destroy_window EXIT_FAILURE) f\<rparr>"
      using assms(3) cw n by (simp add: construct_tablet_def)
    show ?thesis
      using threads.new_fault [where P = alive_control, OF i n [unfolded Inl] g] ready new_fault_instance [OF n [unfolded Inl] g]
      by (auto simp: z adapter_inv_def ad_servers_def main_catch_def split: if_splits)
  next
    case (Inr u)
    then have z: "z = y\<lparr>ad_env := e, ad_window := window, ad_pc := M_Wait\<rparr>"
      using assms(3) cw n by (simp add: construct_tablet_def)
    show ?thesis using ready Inr by (auto simp: z adapter_inv_def ad_servers_def)
  qed
qed

lemma destroy_tablet_cases:
  assumes "gInstance (ad_env y) = Live t"
  shows "\<exists>w. destroy_tablet api c y =
      y\<lparr>ad_env := (ad_env y)\<lparr>gInstance := No_instance, te_world := w\<rparr>,
        ad_pc := (if mContext t \<noteq> 0 \<and> \<not> resolved t F_WTClose then M_Undefined Null_function_pointer else M_Destroy_window c)\<rparr>"
  using assms
  by (auto simp: destroy_tablet_def WintabTablet_destroy_def main_catch_def Let_def intro: exI [of _ "te_world (ad_env y)"])

lemma destroy_tablet_inv:
  assumes "adapter_inv api args y" and "ad_pc y = M_Destroy_tablet c"
  shows "adapter_inv api args (destroy_tablet api c y)"
proof -
  obtain t where "gInstance (ad_env y) = Live t" using assms by (auto simp: adapter_inv_def)
  from destroy_tablet_cases [OF this, of api c] assms show ?thesis
    by (auto simp: adapter_inv_def ad_servers_def start_fault_def split: if_splits)
qed

text \<open>The steps of \<^verbatim>\<open>Stop()\<close> change nothing but the worlds, the listening socket and, at the end, the clients.\<close>

lemma servers_inv_v1 [simp]:
  "V1_sys_inv z \<Longrightarrow> V1_sys_inv (V1_ask api t z)" "terminated (V1_ask api t z) = terminated z"
  "V1_sys_inv z \<Longrightarrow> V1_sys_inv (V1_Stop_finish api1 z)" "terminated (V1_Stop_finish api1 z) = terminated z"
  by (auto simp: V1_ask_def V1_Stop_finish_def V1_sys_inv_def split_beta)

lemma servers_inv_v2 [simp]:
  "V2_sys_inv z \<Longrightarrow> V2_sys_inv (V2_ask api t z)"
  "V2_sys_inv z \<Longrightarrow> V2_sys_inv (V2_main_thread api2 Main_stop_begin z)"
  "V2_sys_inv z \<Longrightarrow> V2_sys_inv (V2Server_destroy api1 api2 z)"
proof -
  show "V2_sys_inv z \<Longrightarrow> V2_sys_inv (V2_main_thread api2 Main_stop_begin z)"
    by (rule V2_step_keeps(1) [OF V2_step.main]) (simp_all add: V2_sys_inv_def)
qed (auto simp: V2_ask_def V2Server_destroy_def V2_reset_client_def V2_sys_inv_def V2_srv_inv_def split: option.splits)

lemmas shutdown_defs =
  destroy_window_def stop_v1_def joined_v1_ping_def joined_v1_accept_def stop_v2_def joined_v2_ping_def joined_v2_accept_def

lemma main_step_inv:
  assumes "main_step api args y z" and "adapter_inv api args y"
  shows "adapter_inv api args z"
  using assms
proof (induction rule: main_step.induct)
  case (construct y z)
  then show ?case using construct_inv by blast
next
  case (peek_message y m)
  then show ?case by (simp add: dispatch_inv)
next
  case (tablet y c)
  then show ?case by (simp add: destroy_tablet_inv)
next
  case (v1 y c)
  then show ?case
    by (cases "sv1 (ad_servers y)") (simp_all add: adapter_inv_def stop_v1_def servers_inv_def)
next
  case (v1_ping y c)
  then show ?case
    by (cases "sv1 (ad_servers y)") (simp_all add: adapter_inv_def joined_v1_ping_def servers_inv_def)
next
  case (v1_accept y c)
  then show ?case
    by (cases "sv1 (ad_servers y)") (simp_all add: adapter_inv_def joined_v1_accept_def servers_inv_def)
next
  case (v2 y c)
  then show ?case by (simp add: adapter_inv_def stop_v2_def servers_inv_def)
next
  case (v2_ping y c)
  then show ?case by (simp add: adapter_inv_def joined_v2_ping_def servers_inv_def)
next
  case (v2_accept y c)
  then show ?case by (simp add: adapter_inv_def joined_v2_accept_def servers_inv_def)
qed (simp_all add: adapter_inv_def destroy_window_def ad_servers_def Let_def)

section \<open>The invariant of the process\<close>

lemma adapter_step_inv:
  assumes "adapter_step api args y z" and "adapter_inv api args y"
  shows "adapter_inv api args z"
  using assms
proof (induction rule: adapter_step.induct)
  case (main y z)
  then show ?case by (rule main_step_inv)
next
  case (ctrl y)
  then show ?case by (simp add: ConsoleCtrlHandler_def adapter_inv_def)
next
  case (v2_accept_thread y)
  then have "\<not> v2_terminated (sv2 (ad_servers y))" by (simp add: adapter_inv_def servers_inv_def V2_sys_inv_def)
  then show ?case by (rule adapter_inv_v2 [OF v2_accept_thread V2_step.accept])
next
  case (v2_ping_thread y)
  then have "\<not> v2_terminated (sv2 (ad_servers y))" by (simp add: adapter_inv_def servers_inv_def V2_sys_inv_def)
  then show ?case by (rule adapter_inv_v2 [OF v2_ping_thread V2_step.ping])
next
  case (v1_accept_thread y)
  then show ?case using V1_accept_device by (blast intro: adapter_inv_v1 V1_step.accept)
next
  case (v1_ping_thread y)
  then show ?case using V1_ping_device by (blast intro: adapter_inv_v1 V1_step.ping)
next
  case (environment y a b w)
  then show ?case by (rule adapter_inv_environment)
qed

lemma V2_launched_inv: "V2_Start api (V2Server_init c db) d w = (Inr (), s', d', w') \<Longrightarrow> V2_sys_inv (V2_launched s' w')"
  by (elim V2_Start_success) (simp add: V2_launched_def V2_sys_inv_def V2_srv_inv_def V2Server_init_def)

lemma main_start_inv:
  assumes "main_start api args d a b w = Running y d1"
  shows "adapter_inv api args y"
proof -
  obtain s a1 where n: "V2Server_new (start_api api) (main_config api) (default_behavior args) a = (Inr s, a1)"
    using assms by (auto simp: main_start_def split: prod.splits sum.splits)
  then have s: "s = V2Server_init (main_config api) (default_behavior args)"
    by (auto simp: V2Server_new_def Let_def split: prod.splits if_splits)
  obtain s1 d2 a2 where v: "V2_Start (start_api api) s d a1 = (Inr (), s1, d2, a2)"
    using assms n by (auto simp: main_start_def split: prod.splits sum.splits)
  have "V2_sys_inv (V2_launched s1 a2)" using V2_launched_inv [OF v [unfolded s]] .
  moreover have "\<not> terminated (V1_Start b)" by (simp add: V1_Start_def)
  ultimately show ?thesis
    using assms n v
    by (auto simp: main_start_def adapter_inv_def ad_servers_def servers_inv_def V1_sys_inv_Start split: if_splits)
qed

lemma adapter_reachable_inv: "adapter_reachable api args y \<Longrightarrow> adapter_inv api args y"
  by (induction rule: adapter_reachable.induct) (auto intro: main_start_inv adapter_step_inv)

lemma adapter_steps_reachable: "(adapter_step api args)\<^sup>*\<^sup>* y z \<Longrightarrow> adapter_reachable api args y \<Longrightarrow> adapter_reachable api args z"
  by (induction rule: rtranclp_induct) (auto intro: adapter_reachable.step)

lemma destroy_tablet_pc:
  "ad_pc (destroy_tablet api c y) = M_Destroy_window c \<or> ad_pc (destroy_tablet api c y) = M_Undefined Null_function_pointer"
  "gInstance (ad_env (destroy_tablet api c y)) = gInstance (ad_env y) \<or> gInstance (ad_env (destroy_tablet api c y)) = No_instance"
  "gExitEvent (destroy_tablet api c y) = gExitEvent y"
  by (auto simp: destroy_tablet_def WintabTablet_destroy_def main_catch_def Let_def split: instance_ptr.splits)

text \<open>After the exit event the main thread only takes the way out.\<close>

lemma exit_main_step:
  assumes "main_step api args z z'"
    and "gExitEvent z \<and> (gInstance (ad_env z) = g \<or> gInstance (ad_env z) = No_instance) \<and>
      (ad_pc z = M_Wait \<or> exit_code (ad_pc z) = Some EXIT_SUCCESS \<or> ad_pc z = M_Terminated \<or>
       ad_pc z = M_Undefined Null_function_pointer)"
  shows "gExitEvent z' \<and> (gInstance (ad_env z') = g \<or> gInstance (ad_env z') = No_instance) \<and>
      (ad_pc z' = M_Wait \<or> exit_code (ad_pc z') = Some EXIT_SUCCESS \<or> ad_pc z' = M_Terminated \<or>
       ad_pc z' = M_Undefined Null_function_pointer)"
  using assms
proof (induction rule: main_step.induct)
  case (tablet y c)
  then show ?case using destroy_tablet_pc [of api c y] by auto
next
  case (v1 y c)
  then show ?case by (cases "sv1 (ad_servers y)") (simp_all add: stop_v1_def)
qed (auto simp: shutdown_defs Let_def split_beta)

section \<open>A run\<close>

lemma sample_tablet_starts:
  assumes "\<And>d. wf_DeviceInfo d \<Longrightarrow> fst (SetDevice H d h) = Inr ()"
  shows "\<exists>e. WintabTablet_new (sample_wintab_api True 5 None) H 77 None
      \<lparr>gInstance = No_instance, te_handler = h, te_world = (None, 0, True)\<rparr> = Some (Inr (), e)"
proof -
  let ?api = "sample_wintab_api True 5 None" and ?lib = "\<lparr>lib_loaded = True, lib_functions = WINTAB_FUNCTIONS\<rparr>"
  obtain ov where "ForegroundOverride_window (foreground ?api) 77 (None, 0, True) = (Inr ov, (Some 1, 77, True))"
    by (simp add: sample_wintab_api_def sample_fg_api_def fg_api.truncate_def ForegroundOverride_window_def
        ForegroundOverride_open_def)
  moreover have "\<exists>t' h' w'. ConnectToTablet ?api H (WintabTablet_init 77 ov ?lib) h (Some 1, 77, True) = Some (Inr (), t', h', w')"
    by (rule sample_connects_to [OF assms]) (simp_all add: WintabTablet_init_def wf_DeviceInfo_def DeviceInfo_init_def)
  ultimately show ?thesis by (auto simp: WintabTablet_new_def inject_driver_def sample_library)
qed

lemma sample_main_fields [simp]:
  "start_api sample_main_api = sample_start_api" "tablet_api sample_main_api = sample_wintab_api True 5 None"
  "CreateWindowEx sample_main_api name w = (77, w)" "RegisterClassExW sample_main_api name w = w"
  "WSAStartup sample_start_api a = (0, a)" "sock_socket sample_start_api a = (Some 3, a)"
  "LocalAppData sample_start_api = Some sample_folder"
  by (simp_all add: sample_main_api_def sample_start_api_def)

lemma main_config_cong: "start_api api = start_api api' \<Longrightarrow> SemVer api = SemVer api' \<Longrightarrow> main_config api = main_config api'"
  by (simp add: main_config_def)

text \<open>Any adapter that starts like the sample starts its servers and reaches its message loop.\<close>

lemma sample_main_starts:
  fixes api :: "(bytes list, unit, nat option \<times> HWND \<times> bool) main_api"
  assumes "start_api api = start_api sample_main_api" and "SemVer api = SemVer sample_main_api"
  shows "\<exists>y. adapter_reachable api (sample_args otd1) y \<and> ad_pc y = M_Construct \<and> gInstance (ad_env y) = No_instance \<and>
    sv1 (ad_servers y) = (if otd1 then Some (V1_Start ()) else None) \<and> te_world (ad_env y) = (None, 0, True)"
proof -
  let ?s = "V2Server_init (main_config sample_main_api) SetIfUnset"
  have "fst (V2_Start sample_start_api ?s (sample_disk None) ([] :: bytes list)) = Inr ()" by code_simp
  then obtain s1 d1 a2 where v: "V2_Start sample_start_api ?s (sample_disk None) ([] :: bytes list) = (Inr (), s1, d1, a2)"
    by (cases "V2_Start sample_start_api ?s (sample_disk None) ([] :: bytes list)") auto
  let ?sv = "\<lparr>sv2 = V2_launched s1 a2, sv1 = (if otd1 then Some (V1_Start ()) else None)\<rparr>"
  let ?y = "\<lparr>ad_env = \<lparr>gInstance = No_instance, te_handler = ?sv, te_world = (None, 0, True)\<rparr>, ad_window = 0, ad_pc = M_Construct,
      gExitEvent = False\<rparr>"
  have "main_start api (sample_args otd1) (sample_disk None) [] () (None, 0, True) = Running ?y d1"
    using v assms(1) main_config_cong [OF assms]
    by (simp add: main_start_def V2Server_new_def default_behavior_def sample_args_def)
  then show ?thesis by (intro exI [of _ ?y]) (auto simp: ad_servers_def intro: adapter_reachable.start)
qed

lemma sample_main_waits:
  fixes api :: "(bytes list, unit, nat option \<times> HWND \<times> bool) main_api"
  assumes "start_api api = start_api sample_main_api" and "SemVer api = SemVer sample_main_api"
    and "tablet_api api = tablet_api sample_main_api" and "CreateWindowEx api = CreateWindowEx sample_main_api"
    and "RegisterClassExW api = RegisterClassExW sample_main_api"
  shows "\<exists>y. adapter_reachable api (sample_args otd1) y \<and> ad_pc y = M_Wait"
proof -
  obtain y where y: "adapter_reachable api (sample_args otd1) y" "ad_pc y = M_Construct" "gInstance (ad_env y) = No_instance"
    "te_world (ad_env y) = (None, 0, True)"
    using sample_main_starts [OF assms(1,2)] by blast
  have "servers_inv otd1 (te_handler (ad_env y))"
    using adapter_reachable_inv [OF y(1)] by (simp add: adapter_inv_def ad_servers_def sample_args_def)
  moreover have e: "ad_env y = \<lparr>gInstance = No_instance, te_handler = te_handler (ad_env y), te_world = (None, 0, True)\<rparr>"
    using y(3,4) by (cases "ad_env y") simp
  ultimately obtain e where "WintabTablet_new (sample_wintab_api True 5 None) (main_handler api otd1) 77 None (ad_env y) = Some (Inr (), e)"
    using sample_tablet_starts [of "main_handler api otd1" "te_handler (ad_env y)"] servers.device_ok [of otd1 "te_handler (ad_env y)"]
    by (auto simp: main_handler_def)
  then have "construct_tablet api (sample_args otd1) y = Some (y\<lparr>ad_env := e, ad_window := 77, ad_pc := M_Wait\<rparr>)"
    using assms(3-5) by (simp add: construct_tablet_def CreateWintabWindow_def sample_args_def)
  then have "adapter_step api (sample_args otd1) y (y\<lparr>ad_env := e, ad_window := 77, ad_pc := M_Wait\<rparr>)"
    using y(2) by (intro adapter_step.main main_step.construct)
  then show ?thesis using adapter_reachable.step [OF y(1)] by force
qed

section \<open>Properties\<close>

text \<open>The exit event ends the loop.  Once the console handler has set the event and the main thread
  is at its wait, no further message reaches the tablet, whatever the other threads do: the only thing
  the main thread can do is to leave the loop with success and run the destructors.  The process ends
  in no other way, unless a server thread ends it or the driver's library has no \<^verbatim>\<open>WTClose\<close>.\<close>

theorem exit_event_ends_loop:
  assumes "(adapter_step api args)\<^sup>*\<^sup>* y z" and "gExitEvent y" and "ad_pc y = M_Wait"
  shows "(gInstance (ad_env z) = gInstance (ad_env y) \<or> gInstance (ad_env z) = No_instance) \<and>
    (ad_pc z = M_Wait \<and> (\<forall>z'. main_step api args z z' \<longleftrightarrow> z' = z\<lparr>ad_pc := M_Destroy_tablet EXIT_SUCCESS\<rparr>) \<or>
     exit_code (ad_pc z) = Some EXIT_SUCCESS \<or> ad_pc z = M_Terminated \<or> ad_pc z = M_Undefined Null_function_pointer)"
proof -
  have "gExitEvent z \<and> (gInstance (ad_env z) = gInstance (ad_env y) \<or> gInstance (ad_env z) = No_instance) \<and>
      (ad_pc z = M_Wait \<or> exit_code (ad_pc z) = Some EXIT_SUCCESS \<or> ad_pc z = M_Terminated \<or>
       ad_pc z = M_Undefined Null_function_pointer)"
    using assms(1)
  proof (induction rule: rtranclp_induct)
    case base
    then show ?case using assms(2,3) by simp
  next
    case (step z z')
    from step(2) show ?case
    proof (cases rule: adapter_step.cases)
      case main
      then show ?thesis using step(3) by (rule exit_main_step)
    qed (use step(3) in \<open>auto simp: ConsoleCtrlHandler_def set_servers_pc\<close>)
  qed
  then show ?thesis by (auto elim!: main_stepE intro: main_step.wait_other)
qed

theorem exit_event_ends_loop_witness:
  "main_step sample_main_api (sample_args True) (snd (ConsoleCtrlHandler (sample_adapter M_Wait)))
     ((snd (ConsoleCtrlHandler (sample_adapter M_Wait)))\<lparr>ad_pc := M_Destroy_tablet EXIT_SUCCESS\<rparr>)"
  using exit_event_ends_loop [of sample_main_api "sample_args True" "snd (ConsoleCtrlHandler (sample_adapter M_Wait))"
      "snd (ConsoleCtrlHandler (sample_adapter M_Wait))"]
  by (simp add: ConsoleCtrlHandler_def sample_adapter_def)

text \<open>How long the user's folder may be.  The socket path of the adapter fits the address
  structure exactly when the local application data folder has at most 71 characters; with a
  longer one the program ends with the exit code for failure, and has changed no file but possibly
  a file at the socket's path.\<close>

theorem socket_path_bound:
  assumes "LocalAppData (start_api api) = Some p" and "p \<noteq> []"
    and "WSAStartup (start_api api) a = (0, a1)" and "sock_socket (start_api api) a1 = (Some l, a2)"
  shows "if length (join_path 92 p) \<le> 71
    then length (join_path 92 (socketPath (main_config api))) < sizeof_sun_path
    else \<exists>d1. main_start api args d a b w = Failed (M_Return EXIT_FAILURE) d1 \<and>
      (\<forall>q. q \<noteq> socketPath (main_config api) \<longrightarrow> file_at d1 q = file_at d q)"
proof -
  have len: "length (join_path 92 (socketPath (main_config api))) = length (join_path 92 p) + 36"
    using assms(1,2) by (simp add: main_config_def get_socket_path_def join_path_def cstr_def)
  then show ?thesis
    using assms(3,4)
    by (auto simp: sizeof_sun_path_def main_start_def V2Server_new_def V2Server_init_def V2_Start_def reset_to_socket_def
        main_catch_def prepare_socket_path_file Let_def)
qed

theorem socket_path_bound_witness:
  "length (join_path 92 sample_folder) \<le> 71 \<and>
   length (join_path 92 (socketPath (main_config sample_main_api))) < sizeof_sun_path"
proof -
  have "length (join_path 92 sample_folder) \<le> 71" by code_simp
  then show ?thesis
    using socket_path_bound [of sample_main_api sample_folder "[]" "[]" 3 "[]"]
    by (simp add: sample_folder_def)
qed

end
