(* ===== verification/Adapter_Shutdown.thy ===== *)
theory Adapter_Shutdown
  imports Adapter_Main
begin

text \<open>
  How the process ends: the destructors that \<^verbatim>\<open>main\<close> runs on its way out wait for the threads of the
  servers.  They wait forever for an accept thread that is blocked in a call which nothing ends,
  and they come to an end when the calls of the threads do.
\<close>

section \<open>Definitions\<close>

text \<open>The destructor of the V1 server is over.\<close>

fun v1_stopped :: "main_pc \<Rightarrow> bool" where
  "v1_stopped (M_Stop_v2 c) = True"
| "v1_stopped (M_Join_v2_ping c) = True"
| "v1_stopped (M_Join_v2_accept c) = True"
| "v1_stopped (M_Return c) = True"
| "v1_stopped pc = False"

fun returned :: "main_pc \<Rightarrow> bool" where
  "returned (M_Return c) = True"
| "returned pc = False"

text \<open>
  An accept thread that is blocked for good: the V1 server's in \<^verbatim>\<open>ConnectNamedPipe\<close> when no client
  connects any more, the V2 server's in \<^verbatim>\<open>recv\<close> when its client stays connected and silent.
\<close>

definition v1_blocked :: "('a, 'b, 'w) main_api \<Rightarrow> ('a, 'b, 'w) adapter \<Rightarrow> bool" where
  "v1_blocked api y \<longleftrightarrow>
     (\<forall>p w. ConnectNamedPipe (v1api api) p w = None) \<and> (\<exists>x p. sv1 (ad_servers y) = Some x \<and> acc x = A_Connect p) \<and>
     \<not> v1_stopped (ad_pc y)"

definition v2_blocked :: "('a, 'b, 'w) main_api \<Rightarrow> ('a, 'b, 'w) adapter \<Rightarrow> bool" where
  "v2_blocked api y \<longleftrightarrow>
     (\<forall>sock len w. sock_recv (v2api api) sock len w = None) \<and> (\<exists>buf. v2_acc (sv2 (ad_servers y)) = B_Read buf) \<and>
     \<not> returned (ad_pc y)"

text \<open>A stop request is seen by the thread it was made to, and is not forgotten during a call.\<close>

definition stop_honoured :: "('a, 'b, 'w) main_api \<Rightarrow> bool" where
  "stop_honoured api \<longleftrightarrow>
     (\<forall>t w. v2_stop_requested (v2api api) t (request_stop_v2 api t w)) \<and>
     (\<forall>t w. v2_stop_requested (v2api api) t w \<longrightarrow>
        (\<forall>c. v2_stop_requested (v2api api) t (sock_close (v2api api) c w)) \<and>
        (\<forall>c d. v2_stop_requested (v2api api) t (snd (sock_send (v2api api) c d w))) \<and>
        (\<forall>l r w'. sock_accept (v2api api) l w = Some (r, w') \<longrightarrow> v2_stop_requested (v2api api) t w') \<and>
        (\<forall>c n r w'. sock_recv (v2api api) c n w = Some (r, w') \<longrightarrow> v2_stop_requested (v2api api) t w'))"

text \<open>How many steps the accept thread takes at most once it has been asked to stop.\<close>

fun accept_rank :: "V2_pc \<Rightarrow> nat" where
  "accept_rank B_Done = 0"
| "accept_rank B_Loop = 1"
| "accept_rank B_Accept = 2"
| "accept_rank (B_Serve buf) = 2"
| "accept_rank (B_Read buf) = 2"
| "accept_rank B_Device = 3"
| "accept_rank B_Hello = 4"

text \<open>A system whose world remembers stop requests, and whose clients disconnect.\<close>

definition stop_mark :: "server_thread \<Rightarrow> bytes" where
  "stop_mark t = (if t = Ping_thread then [1] else [2])"

definition stopping_main_api :: "(bytes list, unit, nat option \<times> HWND \<times> bool) main_api" where
  "stopping_main_api = sample_main_api
     \<lparr>v2api := sample_v2_api\<lparr>v2_stop_requested := (\<lambda>t a. stop_mark t \<in> set a), sock_accept := (\<lambda>_ a. Some (None, a)),
        sock_recv := (\<lambda>_ _ a. Some (Recv_zero, a))\<rparr>,
      request_stop_v2 := (\<lambda>t a. stop_mark t # a)\<rparr>"

definition silent_main_api :: "(bytes list, unit, nat option \<times> HWND \<times> bool) main_api" where
  "silent_main_api = sample_main_api\<lparr>v1api := sample_v1_api\<lparr>ConnectNamedPipe := (\<lambda>_ _. None)\<rparr>\<rparr>"

section \<open>Blocked threads stay blocked\<close>

lemma message_control:
  assumes "adapter_inv api args y" and "ad_pc y = M_Peek"
  shows "control (ad_servers (dispatch api (mOtdIpcV1 args) m y)) = control (ad_servers y)"
proof -
  let ?P = "\<lambda>c. c = control (ad_servers y)"
  from assms obtain t where t: "gInstance (ad_env y) = Live t" and r: "servers_ready (te_handler (ad_env y))"
    and i: "servers_inv (mOtdIpcV1 args) (te_handler (ad_env y)) \<and> ?P (control (te_handler (ad_env y)))"
    by (auto simp: adapter_inv_def ad_servers_def)
  obtain res e1 where p: "ProcessMessage (tablet_api api) (main_handler api (mOtdIpcV1 args)) (msg_hwnd m) (msg_message m) (msg_wParam m)
      (msg_lParam m) (ad_env y) = (res, e1)" by fastforce
  from threads.message_ok(1) [where P = ?P, OF t i r p] p show ?thesis
    by (auto simp: dispatch_def WintabWndproc_def ad_servers_def Let_def split_beta split: sum.splits bool.splits)
qed

lemma construct_control:
  assumes "adapter_inv api args y" and "construct_tablet api args y = Some z"
  shows "control (ad_servers z) = control (ad_servers y)"
proof -
  let ?P = "\<lambda>c. c = control (ad_servers y)"
  obtain window w1 where cw: "CreateWintabWindow api (te_world (ad_env y)) = (window, w1)" by fastforce
  let ?e = "(ad_env y)\<lparr>te_world := w1\<rparr>"
  obtain r e where n: "WintabTablet_new (tablet_api api) (main_handler api (mOtdIpcV1 args)) window (mHijackBuggyDriver args) ?e = Some (r, e)"
    using assms(2) cw by (auto simp: construct_tablet_def split: option.splits)
  have i: "servers_inv (mOtdIpcV1 args) (te_handler ?e) \<and> ?P (control (te_handler ?e))"
    using assms(1) by (simp add: adapter_inv_def ad_servers_def)
  from threads.new_ready(1) [where P = ?P, OF i n] assms(2) cw n show ?thesis
    by (auto simp: construct_tablet_def ad_servers_def split: sum.splits)
qed

lemma asked_control [simp]:
  "acc (V1_ask api t x) = acc x" "terminated (V1_ask api t x) = terminated x" "acc (V1_Stop_finish api1 x) = acc x"
  "v2_acc (V2_ask api t z) = v2_acc z" "v2_acc (V2_main_thread api2 Main_stop_begin z) = v2_acc z"
  "v2_acc (V2Server_destroy api3 api2 z) = v2_acc z"
  by (auto simp: V1_ask_def V1_Stop_finish_def V2_ask_def V2_main_thread_def V2Server_destroy_def split_beta split: sum.splits)

lemma main_step_control:
  assumes "main_step api args y z" and "adapter_inv api args y"
  shows "control (ad_servers z) = control (ad_servers y)"
  using assms
proof (induction rule: main_step.induct)
  case (construct y z)
  then show ?case by (simp add: construct_control)
next
  case (peek_message y m)
  then show ?case by (simp add: message_control)
next
  case (tablet y c)
  then obtain t where "gInstance (ad_env y) = Live t" by (auto simp: adapter_inv_def)
  from destroy_tablet_cases [OF this, of api c] show ?case by (auto simp: ad_servers_def)
next
  case (v1 y c)
  then show ?case by (cases "sv1 (ad_servers y)") (simp_all add: stop_v1_def control_def)
next
  case (v1_ping y c)
  then show ?case by (simp add: joined_v1_ping_def control_def option.map_comp comp_def)
next
  case (v1_accept y c)
  then show ?case by (simp add: joined_v1_accept_def control_def option.map_comp comp_def)
qed (simp_all add: shutdown_defs control_def Let_def split_beta ad_servers_def put_servers_def)

lemma returned_stopped: "returned pc \<Longrightarrow> v1_stopped pc"
  by (cases pc) simp_all

lemma early_pc:
  "construct_tablet api args y = Some z \<Longrightarrow> \<not> v1_stopped (ad_pc z)"
  "ad_pc y = M_Peek \<Longrightarrow> \<not> v1_stopped (ad_pc (dispatch api otd1 m y))"
  "\<not> v1_stopped (ad_pc (destroy_tablet api c y))"
  using destroy_tablet_pc(1) [of api c y]
  by (auto simp: construct_tablet_def dispatch_def Let_def main_catch_def split_beta split: option.splits sum.splits fault.splits if_splits)

lemma early_returned:
  "construct_tablet api args y = Some z \<Longrightarrow> \<not> returned (ad_pc z)"
  "ad_pc y = M_Peek \<Longrightarrow> \<not> returned (ad_pc (dispatch api otd1 m y))"
  "\<not> returned (ad_pc (destroy_tablet api c y))"
  using early_pc returned_stopped by blast+

lemma v1_stopped_step:
  assumes "main_step api args y z" and "v1_stopped (ad_pc z)" and "sv1 (ad_servers y) = Some x" and "acc x \<noteq> A_Done"
  shows "v1_stopped (ad_pc y)"
  using assms
  by (induction rule: main_step.induct) (auto simp: early_pc shutdown_defs V1_Stop_returns_def Let_def)

lemma returned_step:
  assumes "main_step api args y z" and "returned (ad_pc z)" and "v2_acc (sv2 (ad_servers y)) \<noteq> B_Done"
  shows "returned (ad_pc y)"
  using assms
proof (induction rule: main_step.induct)
  case (v1 y c)
  then show ?case by (cases "sv1 (ad_servers y)") (simp_all add: stop_v1_def)
qed (auto simp: early_returned shutdown_defs V2_Stop_returns_def Let_def split_beta)

lemma blocked_threads:
  "\<forall>p w. ConnectNamedPipe api1 p w = None \<Longrightarrow> acc x = A_Connect p \<Longrightarrow> V1_accept_thread api1 x = x"
  "\<forall>sock len w. sock_recv api2 sock len w = None \<Longrightarrow> v2_acc z = B_Read buf \<Longrightarrow> V2_accept_thread api2 z = z"
  "acc (V1_ping_thread api1 x) = acc x" "v2_acc (V2_ping_thread api2 z) = v2_acc z"
  by (simp_all add: V1_accept_thread_def V1_AcceptLoop_step_def V2_accept_thread_def V2_AcceptLoop_step_def
      V1_ping_thread_def V2_ping_thread_def read_message_blocks split: prod.splits sum.splits)

lemma v1_blocked_step:
  assumes "adapter_step api args y z" and "adapter_inv api args y" and "v1_blocked api y"
  shows "v1_blocked api z"
  using assms
proof (induction rule: adapter_step.induct)
  case (main y z)
  then have "control (ad_servers z) = control (ad_servers y)" by (simp add: main_step_control)
  with main v1_stopped_step [OF main(1)] show ?case by (auto simp: v1_blocked_def control_def)
next
  case (v1_accept_thread y)
  then show ?case by (auto simp: v1_blocked_def set_servers_pc blocked_threads(1))
qed (auto simp: v1_blocked_def ConsoleCtrlHandler_def set_servers_pc blocked_threads(3))

lemma v2_blocked_step:
  assumes "adapter_step api args y z" and "adapter_inv api args y" and "v2_blocked api y"
  shows "v2_blocked api z"
  using assms
proof (induction rule: adapter_step.induct)
  case (main y z)
  then have "control (ad_servers z) = control (ad_servers y)" by (simp add: main_step_control)
  with main returned_step [OF main(1)] show ?case by (auto simp: v2_blocked_def control_def)
next
  case (v2_accept_thread y)
  then show ?case by (auto simp: v2_blocked_def set_servers_pc blocked_threads(2))
qed (auto simp: v2_blocked_def ConsoleCtrlHandler_def set_servers_pc blocked_threads(4))

lemma blocked_steps:
  assumes "(adapter_step api args)\<^sup>*\<^sup>* y z" and "adapter_reachable api args y" and "v1_blocked api y \<or> v2_blocked api y"
  shows "v1_blocked api z \<or> v2_blocked api z"
  using assms(1)
proof (induction rule: rtranclp_induct)
  case base
  then show ?case using assms(3) .
next
  case (step z z')
  have "adapter_inv api args z" using adapter_steps_reachable [OF step(1) assms(2)] by (rule adapter_reachable_inv)
  then show ?case using step(2,3) v1_blocked_step v2_blocked_step by blast
qed

section \<open>Threads that end\<close>

text \<open>A step of a thread of the V2 server in the process.\<close>

lemma v2_thread:
  assumes "adapter_inv api args y" and "\<not> process_ended (ad_pc y)" and "V2_step api2 (sv2 (ad_servers y)) z"
  shows "ad_pc (set_servers ((ad_servers y)\<lparr>sv2 := z\<rparr>) y) = ad_pc y" and "adapter_inv api args (set_servers ((ad_servers y)\<lparr>sv2 := z\<rparr>) y)"
proof -
  have "V2_sys_inv z" using assms V2_step_keeps(1) [OF assms(3)] by (simp add: adapter_inv_def servers_inv_def)
  then show "ad_pc (set_servers ((ad_servers y)\<lparr>sv2 := z\<rparr>) y) = ad_pc y"
    using assms(1,2) by (auto simp: set_servers_pc adapter_inv_def V2_sys_inv_def)
qed (rule adapter_inv_v2 [OF assms(2,1,3)])

lemma v2_not_terminated: "adapter_inv api args y \<Longrightarrow> \<not> v2_terminated (sv2 (ad_servers y))"
  by (simp add: adapter_inv_def servers_inv_def V2_sys_inv_def)

lemma ping_ends:
  assumes "v2_stop_requested api2 Ping_thread (v2_world z)"
  shows "V2_ping_thread api2 z = z\<lparr>v2_png := Q_Done\<rparr>"
  using assms by (cases "v2_png z") (simp_all add: V2_ping_thread_def V2_PingLoop_step_def)

lemma map_sum_Inr: "map_sum id g r = Inr x \<longleftrightarrow> (\<exists>u. r = Inr u \<and> x = g u)"
  by (cases r) auto

lemma stop_kept:
  assumes "stop_honoured api" and "v2_stop_requested (v2api api) t w"
  shows "v2_stop_requested (v2api api) t (sock_close (v2api api) c w)"
    and "v2_stop_requested (v2api api) t (snd (sock_send (v2api api) c d w))"
    and "sock_accept (v2api api) l w = Some (r, w') \<Longrightarrow> v2_stop_requested (v2api api) t w'"
    and "sock_recv (v2api api) sock n w = Some (q, w'') \<Longrightarrow> v2_stop_requested (v2api api) t w''"
  using assms unfolding stop_honoured_def by blast+

lemma send_keeps_stop:
  assumes "stop_honoured api" and "v2_stop_requested (v2api api) t w"
  shows "v2_stop_requested (v2api api) t (snd (snd (V2_SendRaw (v2api api) n bs s w)))"
    and "mListenSocket (fst (snd (V2_SendRaw (v2api api) n bs s w))) = mListenSocket s"
  by (simp_all add: V2_SendRaw_def V2_reset_client_def stop_kept(1,2) [OF assms(1)] assms(2) Let_def split_beta split: option.splits)

lemma accept_progress:
  assumes "stop_honoured api" and "v2_stop_requested (v2api api) Accept_thread (v2_world z)" and "mListenSocket (v2_srv z) = None"
    and "\<forall>w. \<exists>w'. sock_accept (v2api api) None w = Some (None, w')"
    and "\<forall>sock len w. v2_stop_requested (v2api api) Accept_thread w \<longrightarrow> (\<exists>w'. sock_recv (v2api api) sock len w = Some (Recv_zero, w'))"
    and "\<not> v2_terminated (V2_accept_thread (v2api api) z)" and "v2_acc z \<noteq> B_Done" and "\<not> v2_terminated z"
  shows "accept_rank (v2_acc (V2_accept_thread (v2api api) z)) < accept_rank (v2_acc z)"
    and "v2_stop_requested (v2api api) Accept_thread (v2_world (V2_accept_thread (v2api api) z))"
    and "mListenSocket (v2_srv (V2_accept_thread (v2api api) z)) = None"
proof -
  have "accept_rank (v2_acc (V2_accept_thread (v2api api) z)) < accept_rank (v2_acc z) \<and>
      v2_stop_requested (v2api api) Accept_thread (v2_world (V2_accept_thread (v2api api) z)) \<and>
      mListenSocket (v2_srv (V2_accept_thread (v2api api) z)) = None"
  proof (cases "v2_acc z")
    case B_Accept
    obtain w' where "sock_accept (v2api api) None (v2_world z) = Some (None, w')" using assms(4) by blast
    moreover from this have "v2_stop_requested (v2api api) Accept_thread w'" by (rule stop_kept(3) [OF assms(1,2)])
    ultimately show ?thesis using assms(3) B_Accept by (simp add: V2_accept_thread_def V2_AcceptLoop_step_def)
  next
    case (B_Read buf)
    obtain w' where w: "sock_recv (v2api api) (mClientSocket (v2_srv z)) (to_int32 sizeof_Header) (v2_world z) = Some (Recv_zero, w')"
      using assms(2,5) by blast
    then have "read_message (v2api api) (mClientSocket (v2_srv z)) buf (v2_world z) = Some (Inl Socket_closed, buf, w')"
      unfolding read_message_def by (subst ReadNBytes.simps) (simp add: sizeof_Header_def)
    moreover have "v2_stop_requested (v2api api) Accept_thread w'" using w by (rule stop_kept(4) [OF assms(1,2)])
    ultimately show ?thesis using assms(3) B_Read by (simp add: V2_accept_thread_def V2_AcceptLoop_step_def)
  next
    case B_Hello
    then show ?thesis using assms(6) send_keeps_stop [OF assms(1,2)] assms(3)
      by (auto simp: V2_accept_thread_def V2_AcceptLoop_step_def V2_Send_Hello_def map_sum_Inr split_beta split: sum.splits)
  next
    case B_Device
    then show ?thesis using assms(2,6) send_keeps_stop [OF assms(1,2)] assms(3)
      by (auto simp: V2_accept_thread_def V2_AcceptLoop_step_def V2_Send_DeviceInfo_def map_sum_Inr split_beta split: sum.splits option.splits)
  next
    case (B_Serve buf)
    then show ?thesis using assms(2,3) stop_kept(1) [OF assms(1,2)]
      by (auto simp: V2_accept_thread_def V2_AcceptLoop_step_def V2_reset_client_def split: option.splits)
  qed (use assms(2,3,7) in \<open>simp_all add: V2_accept_thread_def V2_AcceptLoop_step_def V2_reset_listen_def\<close>)
  then show "accept_rank (v2_acc (V2_accept_thread (v2api api) z)) < accept_rank (v2_acc z)"
    and "v2_stop_requested (v2api api) Accept_thread (v2_world (V2_accept_thread (v2api api) z))"
    and "mListenSocket (v2_srv (V2_accept_thread (v2api api) z)) = None" by auto
qed

text \<open>The accept thread runs to its end while the main thread waits for it.\<close>

lemma accept_ends:
  assumes "stop_honoured api" and "\<forall>w. \<exists>w'. sock_accept (v2api api) None w = Some (None, w')"
    and "\<forall>sock len w. v2_stop_requested (v2api api) Accept_thread w \<longrightarrow> (\<exists>w'. sock_recv (v2api api) sock len w = Some (Recv_zero, w'))"
    and "adapter_inv api args y" and "ad_pc y = M_Join_v2_accept c" and "v2_png (sv2 (ad_servers y)) = Q_Done"
    and "v2_stop_requested (v2api api) Accept_thread (v2_world (sv2 (ad_servers y)))"
    and "mListenSocket (v2_srv (sv2 (ad_servers y))) = None"
  shows "\<exists>z. (adapter_step api args)\<^sup>*\<^sup>* y z \<and> ad_pc z = M_Join_v2_accept c \<and> V2_Stop_returns (sv2 (ad_servers z))"
  using assms(4-8)
proof (induction "accept_rank (v2_acc (sv2 (ad_servers y)))" arbitrary: y rule: less_induct)
  case less
  let ?v = "sv2 (ad_servers y)"
  show ?case
  proof (cases "v2_acc ?v = B_Done")
    case True
    then show ?thesis using less.prems by (auto simp: V2_Stop_returns_def)
  next
    case False
    let ?z = "set_servers ((ad_servers y)\<lparr>sv2 := V2_accept_thread (v2api api) ?v\<rparr>) y"
    have n: "\<not> process_ended (ad_pc y)" using less.prems by simp
    have s: "V2_step (v2api api) ?v (V2_accept_thread (v2api api) ?v)"
      using v2_not_terminated [OF less.prems(1)] by (rule V2_step.accept)
    note k = v2_thread [OF less.prems(1) n s]
    have t: "\<not> v2_terminated (V2_accept_thread (v2api api) ?v)" using v2_not_terminated [OF k(2)] by simp
    note p = accept_progress [OF assms(1) less.prems(4,5) assms(2,3) t False v2_not_terminated [OF less.prems(1)]]
    have "v2_png (V2_accept_thread (v2api api) ?v) = Q_Done"
      using less.prems(3) by (simp add: V2_accept_thread_def split: prod.splits sum.splits)
    then obtain z where "(adapter_step api args)\<^sup>*\<^sup>* ?z z" "ad_pc z = M_Join_v2_accept c" "V2_Stop_returns (sv2 (ad_servers z))"
      using less.hyps [of ?z] p k less.prems(2) by auto
    moreover have "adapter_step api args y ?z" using n by (rule adapter_step.v2_accept_thread)
    ultimately show ?thesis by (meson converse_rtranclp_into_rtranclp)
  qed
qed

text \<open>From the request to the ping thread on.\<close>

lemma v2_stops:
  assumes "stop_honoured api" and "\<forall>w. \<exists>w'. sock_accept (v2api api) None w = Some (None, w')"
    and "\<forall>sock len w. v2_stop_requested (v2api api) Accept_thread w \<longrightarrow> (\<exists>w'. sock_recv (v2api api) sock len w = Some (Recv_zero, w'))"
    and "adapter_inv api args y" and "ad_pc y = M_Stop_v2 c"
  shows "\<exists>z. (adapter_step api args)\<^sup>*\<^sup>* y z \<and> ad_pc z = M_Return c"
proof -
  let ?y1 = "stop_v2 api c y"
  let ?v1 = "sv2 (ad_servers ?y1)"
  let ?y2 = "set_servers ((ad_servers ?y1)\<lparr>sv2 := V2_ping_thread (v2api api) ?v1\<rparr>) ?y1"
  let ?y3 = "joined_v2_ping api c ?y2"
  have s1: "adapter_step api args y ?y1" using assms(5) by (intro adapter_step.main main_step.v2)
  have i1: "adapter_inv api args ?y1" using adapter_step_inv [OF s1 assms(4)] .
  have p1: "ad_pc ?y1 = M_Join_v2_ping c" by (simp add: stop_v2_def)
  have l1: "mListenSocket (v2_srv ?v1) = None"
    by (auto simp: stop_v2_def V2_ask_def V2_main_thread_def V2_main_def V2_reset_listen_def split: option.splits)
  have "v2_stop_requested (v2api api) Ping_thread (v2_world ?v1)"
    using assms(1) by (simp add: stop_v2_def V2_ask_def stop_honoured_def)
  then have v2: "V2_ping_thread (v2api api) ?v1 = ?v1\<lparr>v2_png := Q_Done\<rparr>" by (rule ping_ends)
  have n1: "\<not> process_ended (ad_pc ?y1)" using p1 by simp
  note k2 = v2_thread [OF i1 n1 V2_step.ping [OF v2_not_terminated [OF i1]], of "v2api api"]
  have s2: "adapter_step api args ?y1 ?y2" using n1 by (rule adapter_step.v2_ping_thread)
  have s3: "adapter_step api args ?y2 ?y3"
    by (intro adapter_step.main main_step.v2_ping) (use k2(1) p1 in simp, simp add: v2)
  have "v2_stop_requested (v2api api) Accept_thread (v2_world (sv2 (ad_servers ?y3)))"
    using assms(1) by (simp add: joined_v2_ping_def V2_ask_def stop_honoured_def)
  then obtain z where z: "(adapter_step api args)\<^sup>*\<^sup>* ?y3 z" "ad_pc z = M_Join_v2_accept c" "V2_Stop_returns (sv2 (ad_servers z))"
    using accept_ends [OF assms(1-3) adapter_step_inv [OF s3 k2(2)], of c] l1
    by (auto simp: joined_v2_ping_def V2_ask_def v2)
  have "adapter_step api args z (joined_v2_accept api c z)" using z(2,3) by (intro adapter_step.main main_step.v2_accept)
  moreover have "ad_pc (joined_v2_accept api c z) = M_Return c" by (simp add: joined_v2_accept_def Let_def split_beta)
  ultimately show ?thesis using s1 s2 s3 z(1)
    by (meson converse_rtranclp_into_rtranclp rtranclp.rtrancl_into_rtrancl)
qed

section \<open>Properties\<close>





end
