(* ===== verification/V2Race.thy ===== *)
theory V2Race
  imports V2Server
begin

text \<open>
  The V2 server with sends that are not atomic.  \<^verbatim>\<open>SendRaw\<close> tests the client's socket, sends, and
  resets the socket if the send failed, without a lock, while the ping thread, the accept thread and the
  main thread all call it and the accept thread replaces the socket.  Here each of the three
  accesses to the socket is a step of its own, and a thread that is sending has a send in flight.
\<close>

section \<open>A send in three steps\<close>

datatype send_pc = S_Check | S_Send | S_Reset

record flight =
  fl_pc :: send_pc
  fl_size :: u32
  fl_data :: bytes

datatype send_next = In_flight flight | Sent "bool result"

text \<open>\<open>bad\<close> is \<^verbatim>\<open>send\<close> on the invalid socket, which is what the second access finds if another thread
  has reset the socket after the first.\<close>

definition SendRaw_step ::
  "'w v2_api \<Rightarrow> (bytes \<Rightarrow> 'w \<Rightarrow> int \<times> 'w) \<Rightarrow> flight \<Rightarrow> V2Server \<Rightarrow> 'w \<Rightarrow> send_next \<times> V2Server \<times> 'w" where
  "SendRaw_step api bad f s w =
     (case fl_pc f of
        S_Check \<Rightarrow>
          if unat (fl_size f) \<noteq> length (fl_data f)
          then (Sent (Inl (Throw (Runtime_error (cstr ''Header size mismatch'')))), s, w)
          else if mClientSocket s = None then (Sent (Inr False), s, w)
          else (In_flight (f\<lparr>fl_pc := S_Send\<rparr>), s, w)
      | S_Send \<Rightarrow>
          let ((res, w1), s1) =
            (case mClientSocket s of
               None \<Rightarrow> (bad (fl_data f) w, s)
             | Some c \<Rightarrow> (sock_send api c (fl_data f) w, s\<lparr>v2_sent := v2_sent s @ [(c, fl_data f)]\<rparr>))
          in if res = SOCKET_ERROR then (In_flight (f\<lparr>fl_pc := S_Reset\<rparr>), s1, w1)
             else (Sent (Inr True), s1, w1)
      | S_Reset \<Rightarrow> let (s1, w1) = V2_reset_client api s w in (Sent (Inr False), s1, w1))"

definition start_send :: "u32 \<Rightarrow> bytes \<Rightarrow> flight" where
  "start_send n data = \<lparr>fl_pc = S_Check, fl_size = n, fl_data = data\<rparr>"

section \<open>The threads\<close>

record 'w racing =
  r_sys :: "'w V2_sys"
  r_acc :: "flight option"
  r_png :: "flight option"
  r_main :: "flight option"

text \<open>What the accept thread sends at its program counter, and where it goes on after that.\<close>

fun accept_sends :: "'w v2_api \<Rightarrow> V2_pc \<Rightarrow> V2Server \<Rightarrow> 'w \<Rightarrow> flight option" where
  "accept_sends api B_Hello s w =
     (let h = hello_message (mConfig s)
      in Some (start_send (msg_size (hello_header h)) (struct_bytes (v2_padding api w) (Hello_fields h))))"
| "accept_sends api B_Device s w =
     map_option (\<lambda>d. start_send (msg_size d) (struct_bytes (v2_padding api w) (DeviceInfo_fields d))) (mDevice s)"
| "accept_sends api pc s w = None"

fun after_send :: "V2_pc \<Rightarrow> V2_pc" where
  "after_send B_Hello = B_Device"
| "after_send B_Device = B_Serve (replicate 1024 0)"
| "after_send pc = pc"

text \<open>A step of a thread's send: \<open>put\<close> sets the thread's flight, and \<open>nxt\<close> is what follows the send.\<close>

definition send_on ::
  "'w v2_api \<Rightarrow> (bytes \<Rightarrow> 'w \<Rightarrow> int \<times> 'w) \<Rightarrow> (flight option \<Rightarrow> 'w racing \<Rightarrow> 'w racing) \<Rightarrow> ('w V2_sys \<Rightarrow> 'w V2_sys)
     \<Rightarrow> flight \<Rightarrow> 'w racing \<Rightarrow> 'w racing" where
  "send_on api bad put nxt f y =
     (let v = r_sys y
      in case SendRaw_step api bad f (v2_srv v) (v2_world v) of
           (In_flight f1, s, w) \<Rightarrow> put (Some f1) (y\<lparr>r_sys := v\<lparr>v2_srv := s, v2_world := w\<rparr>\<rparr>)
         | (Sent (Inl e), s, w) \<Rightarrow> put None (y\<lparr>r_sys := v\<lparr>v2_srv := s, v2_world := w, v2_terminated := True\<rparr>\<rparr>)
         | (Sent (Inr b), s, w) \<Rightarrow> put None (y\<lparr>r_sys := nxt (v\<lparr>v2_srv := s, v2_world := w\<rparr>)\<rparr>))"

definition racing_accept :: "'w v2_api \<Rightarrow> (bytes \<Rightarrow> 'w \<Rightarrow> int \<times> 'w) \<Rightarrow> 'w racing \<Rightarrow> 'w racing" where
  "racing_accept api bad y =
     (let v = r_sys y
      in case r_acc y of
           Some f \<Rightarrow> send_on api bad (\<lambda>g z. z\<lparr>r_acc := g\<rparr>) (\<lambda>v. v\<lparr>v2_acc := after_send (v2_acc v)\<rparr>) f y
         | None \<Rightarrow>
             (case accept_sends api (v2_acc v) (v2_srv v) (v2_world v) of
                Some f \<Rightarrow> y\<lparr>r_acc := Some f\<rparr>
              | None \<Rightarrow> y\<lparr>r_sys := V2_accept_thread api v\<rparr>))"

definition racing_ping :: "'w v2_api \<Rightarrow> (bytes \<Rightarrow> 'w \<Rightarrow> int \<times> 'w) \<Rightarrow> 'w racing \<Rightarrow> 'w racing" where
  "racing_ping api bad y =
     (let v = r_sys y; s = v2_srv v; w = v2_world v
      in case r_png y of
           Some f \<Rightarrow> send_on api bad (\<lambda>g z. z\<lparr>r_png := g\<rparr>) (\<lambda>v. v\<lparr>v2_png := Q_Loop\<rparr>) f y
         | None \<Rightarrow>
             if v2_png v = Q_Sleep \<and> \<not> v2_stop_requested api Ping_thread w \<and> mClientSocket s \<noteq> None
             then
               let m = V2_ping_message s
               in y\<lparr>r_sys := v\<lparr>v2_srv := s\<lparr>ping_seq := ping_seq s + 1\<rparr>\<rparr>,
                    r_png := Some (start_send (msg_size m) (struct_bytes (v2_padding api w) (Ping_fields m)))\<rparr>
             else y\<lparr>r_sys := V2_ping_thread api v\<rparr>)"

text \<open>A call of the main thread up to its send.\<close>

definition main_sends :: "'w v2_api \<Rightarrow> V2_main_op \<Rightarrow> V2Server \<Rightarrow> 'w \<Rightarrow> (V2Server \<times> flight) option" where
  "main_sends api m s w =
     (case m of
        Main_call (Call_SetDevice device) \<Rightarrow>
          let d = InitHeader MT_DeviceInfo sizeof_DeviceInfo (nonPersistentTabletId device) device
          in Some (s\<lparr>mDevice := Some d\<rparr>, start_send (msg_size d) (struct_bytes (v2_padding api w) (DeviceInfo_fields d)))
      | Main_call (Call_SetState state) \<Rightarrow>
          map_option (\<lambda>d.
            let st = InitHeader MT_State sizeof_State (nonPersistentTabletId d) state
            in (s, start_send (msg_size st) (struct_bytes (v2_padding api w) (State_fields st)))) (mDevice s)
      | Main_debug message \<Rightarrow>
          let h = InitHeader MT_DebugMessage (sizeof_Header + length message) 0
                    \<lparr>messageType = 0, msg_size = 0, nonPersistentTabletId = 0\<rparr>
          in Some (s, start_send (msg_size h) (DebugMessage_bytes h message))
      | Main_stop_begin \<Rightarrow> None)"

definition racing_main :: "'w v2_api \<Rightarrow> V2_main_op \<Rightarrow> 'w racing \<Rightarrow> 'w racing" where
  "racing_main api m y =
     (let v = r_sys y
      in case main_sends api m (v2_srv v) (v2_world v) of
           Some (s, f) \<Rightarrow> y\<lparr>r_sys := v\<lparr>v2_srv := s\<rparr>, r_main := Some f\<rparr>
         | None \<Rightarrow> y\<lparr>r_sys := V2_main_thread api m v\<rparr>)"

definition racing_main_send :: "'w v2_api \<Rightarrow> (bytes \<Rightarrow> 'w \<Rightarrow> int \<times> 'w) \<Rightarrow> flight \<Rightarrow> 'w racing \<Rightarrow> 'w racing" where
  "racing_main_send api bad f y = send_on api bad (\<lambda>g z. z\<lparr>r_main := g\<rparr>) id f y"

inductive racing_step :: "'w v2_api \<Rightarrow> (bytes \<Rightarrow> 'w \<Rightarrow> int \<times> 'w) \<Rightarrow> 'w racing \<Rightarrow> 'w racing \<Rightarrow> bool" for api bad where
  accept: "\<not> v2_terminated (r_sys y) \<Longrightarrow> racing_step api bad y (racing_accept api bad y)"
| ping: "\<not> v2_terminated (r_sys y) \<Longrightarrow> racing_step api bad y (racing_ping api bad y)"
| main: "\<not> v2_terminated (r_sys y) \<Longrightarrow> r_main y = None \<Longrightarrow> main_op_ok m (v2_srv (r_sys y)) \<Longrightarrow>
    racing_step api bad y (racing_main api m y)"
| main_send: "\<not> v2_terminated (r_sys y) \<Longrightarrow> r_main y = Some f \<Longrightarrow> racing_step api bad y (racing_main_send api bad f y)"
| environment: "\<not> v2_terminated (r_sys y) \<Longrightarrow> racing_step api bad y (y\<lparr>r_sys := (r_sys y)\<lparr>v2_world := w\<rparr>\<rparr>)"

text \<open>No send in flight.\<close>

definition quiet :: "'w V2_sys \<Rightarrow> 'w racing" where
  "quiet v = \<lparr>r_sys = v, r_acc = None, r_png = None, r_main = None\<rparr>"

inductive racing_reachable ::
  "'w v2_api \<Rightarrow> (bytes \<Rightarrow> 'w \<Rightarrow> int \<times> 'w) \<Rightarrow> Config \<Rightarrow> DefaultBehavior \<Rightarrow> SOCKET \<Rightarrow> 'w racing \<Rightarrow> bool"
  for api bad config db l where
  start: "racing_reachable api bad config db l (quiet (V2_running config db l w))"
| step: "racing_reachable api bad config db l y \<Longrightarrow> racing_step api bad y z \<Longrightarrow> racing_reachable api bad config db l z"

section \<open>What is promised\<close>

definition flight_ok :: "flight \<Rightarrow> bool" where
  "flight_ok f \<longleftrightarrow> unat (fl_size f) = length (fl_data f) \<and> V2_frame_ok (fl_data f)"

text \<open>A flight of the accept thread belongs to one of the program counters that send.\<close>

definition racing_inv :: "'w racing \<Rightarrow> bool" where
  "racing_inv y \<longleftrightarrow> V2_sys_inv (r_sys y) \<and> pred_option flight_ok (r_acc y) \<and> pred_option flight_ok (r_png y) \<and>
     pred_option flight_ok (r_main y)"

text \<open>A system whose sends fail and whose client has gone.\<close>

definition failing_v2_api :: "bytes list v2_api" where
  "failing_v2_api = sample_v2_api\<lparr>sock_send := (\<lambda>_ _ w. (SOCKET_ERROR, w)), sock_recv := (\<lambda>_ _ w. Some (Recv_zero, w))\<rparr>"

definition bad_send :: "bytes \<Rightarrow> bytes list \<Rightarrow> int \<times> bytes list" where
  "bad_send d w = (SOCKET_ERROR, w)"

text \<open>A run of the accept thread (\<open>True\<close>) and the ping thread (\<open>False\<close>).\<close>

definition racing_run :: "'w v2_api \<Rightarrow> (bytes \<Rightarrow> 'w \<Rightarrow> int \<times> 'w) \<Rightarrow> bool list \<Rightarrow> 'w racing \<Rightarrow> 'w racing" where
  "racing_run api bad ts y = foldl (\<lambda>z t. if t then racing_accept api bad z else racing_ping api bad z) y ts"

text \<open>The client connects and is pinged in vain, then its handler finds it gone and waits for another.\<close>

definition racing_sample :: "bytes list racing" where
  "racing_sample = racing_run failing_v2_api bad_send
     [True, True, False, False, False, False, True, True, True, True, True, True, True, True]
     (quiet (V2_running sample_config AlwaysSet 3 []))"

section \<open>Sends\<close>

lemma SendRaw_step_inv:
  assumes "flight_ok f" and "V2_srv_inv s" and "SendRaw_step api bad f s w = (r, s', w')"
  shows "V2_srv_inv s'" and "r = In_flight g \<Longrightarrow> flight_ok g" and "r \<noteq> Sent (Inl e)"
  using assms
  by (auto simp: SendRaw_step_def flight_ok_def V2_reset_client_def V2_srv_inv_def Let_def split_beta
      split: send_pc.splits option.splits if_splits)

text \<open>What the sends of the three threads have in common.\<close>

locale sending_thread =
  fixes api :: "'w v2_api" and bad :: "bytes \<Rightarrow> 'w \<Rightarrow> int \<times> 'w"
    and get :: "'w racing \<Rightarrow> flight option" and put :: "flight option \<Rightarrow> 'w racing \<Rightarrow> 'w racing"
    and nxt :: "'w V2_sys \<Rightarrow> 'w V2_sys"
  assumes get_put: "get (put f y) = f" and sys_put: "r_sys (put f y) = r_sys y" and put_put: "put f (put g y) = put f y"
    and put_sys: "(put f y)\<lparr>r_sys := v\<rparr> = put f (y\<lparr>r_sys := v\<rparr>)"
    and flies: "\<not> v2_terminated (r_sys y) \<Longrightarrow> get y = Some h \<Longrightarrow> racing_step api bad y (send_on api bad put nxt h y)"
begin

text \<open>Left alone, a send in flight does what \<open>V2_SendRaw\<close> does.\<close>

lemma send_completes:
  assumes "\<not> v2_terminated v" and "V2_SendRaw api n data (v2_srv v) (v2_world v) = (Inr b, s, w)"
  shows "(racing_step api bad)\<^sup>*\<^sup>* (put (Some (start_send n data)) (y\<lparr>r_sys := v\<rparr>)) (put None (y\<lparr>r_sys := nxt (v\<lparr>v2_srv := s, v2_world := w\<rparr>)\<rparr>))"
proof -
  let ?f = "start_send n data"
  let ?y = "\<lambda>f v. put (Some f) (y\<lparr>r_sys := v\<rparr>)" and ?z = "put None (y\<lparr>r_sys := nxt (v\<lparr>v2_srv := s, v2_world := w\<rparr>)\<rparr>)"
  have fly: "racing_step api bad (?y f x) (send_on api bad put nxt f (?y f x))" if "\<not> v2_terminated x" for f x
    using that by (intro flies) (simp_all add: get_put sys_put)
  have on: "send_on api bad put nxt f (?y f x) =
     (case SendRaw_step api bad f (v2_srv x) (v2_world x) of
        (In_flight g, s1, w1) \<Rightarrow> ?y g (x\<lparr>v2_srv := s1, v2_world := w1\<rparr>)
      | (Sent (Inl e), s1, w1) \<Rightarrow> put None (y\<lparr>r_sys := x\<lparr>v2_srv := s1, v2_world := w1, v2_terminated := True\<rparr>\<rparr>)
      | (Sent (Inr b), s1, w1) \<Rightarrow> put None (y\<lparr>r_sys := nxt (x\<lparr>v2_srv := s1, v2_world := w1\<rparr>)\<rparr>))" for f x
    by (simp add: send_on_def sys_put put_sys put_put Let_def split: prod.splits send_next.splits sum.splits)
  show ?thesis
  proof (cases "mClientSocket (v2_srv v)")
    case None
    then have "send_on api bad put nxt ?f (?y ?f v) = ?z"
      using assms(2) unfolding on by (auto simp: SendRaw_step_def start_send_def V2_SendRaw_def split: if_splits)
    then show ?thesis using fly [OF assms(1), of ?f] by auto
  next
    case (Some c)
    let ?v1 = "v\<lparr>v2_srv := (v2_srv v)\<lparr>v2_sent := v2_sent (v2_srv v) @ [(c, data)]\<rparr>, v2_world := snd (sock_send api c data (v2_world v))\<rparr>"
    have n: "unat n = length data" using assms(2) by (auto simp: V2_SendRaw_def split: if_splits)
    have 1: "send_on api bad put nxt ?f (?y ?f v) = ?y (?f\<lparr>fl_pc := S_Send\<rparr>) v"
      unfolding on using Some n by (simp add: SendRaw_step_def start_send_def)
    have 2: "send_on api bad put nxt (?f\<lparr>fl_pc := S_Send\<rparr>) (?y (?f\<lparr>fl_pc := S_Send\<rparr>) v) =
        (if fst (sock_send api c data (v2_world v)) = SOCKET_ERROR then ?y (?f\<lparr>fl_pc := S_Reset\<rparr>) ?v1 else ?z)"
      unfolding on using Some n assms(2) by (auto simp: SendRaw_step_def start_send_def V2_SendRaw_def Let_def split_beta)
    have 3: "fst (sock_send api c data (v2_world v)) = SOCKET_ERROR \<Longrightarrow>
        send_on api bad put nxt (?f\<lparr>fl_pc := S_Reset\<rparr>) (?y (?f\<lparr>fl_pc := S_Reset\<rparr>) ?v1) = ?z"
      unfolding on using Some n assms(2)
      by (auto simp: SendRaw_step_def start_send_def V2_SendRaw_def V2_reset_client_def Let_def split_beta)
    have "racing_step api bad (?y ?f v) (?y (?f\<lparr>fl_pc := S_Send\<rparr>) v)" using fly [OF assms(1), of ?f] 1 by simp
    moreover have "(racing_step api bad)\<^sup>*\<^sup>* (?y (?f\<lparr>fl_pc := S_Send\<rparr>) v) ?z"
      using fly [OF assms(1), of "?f\<lparr>fl_pc := S_Send\<rparr>"] fly [of ?v1 "?f\<lparr>fl_pc := S_Reset\<rparr>"] assms(1) 2 3
      by (cases "fst (sock_send api c data (v2_world v)) = SOCKET_ERROR") auto
    ultimately show ?thesis by (meson converse_rtranclp_into_rtranclp)
  qed
qed

lemma send_on_inv:
  assumes "V2_sys_inv (r_sys y)" and "flight_ok f" and "\<And>v. V2_sys_inv v \<Longrightarrow> V2_sys_inv (nxt v)"
  shows "V2_sys_inv (r_sys (send_on api bad put nxt f y)) \<and> pred_option flight_ok (get (send_on api bad put nxt f y))"
proof -
  obtain r s w where r: "SendRaw_step api bad f (v2_srv (r_sys y)) (v2_world (r_sys y)) = (r, s, w)" by (metis prod_cases3)
  have i: "V2_srv_inv (v2_srv (r_sys y))" using assms(1) by (simp add: V2_sys_inv_def)
  from SendRaw_step_inv [OF assms(2) i r] assms(1,3) r show ?thesis
    by (cases r) (auto simp: send_on_def get_put sys_put V2_sys_inv_def Let_def split: sum.splits)
qed

end

interpretation accept_send: sending_thread api bad r_acc "\<lambda>g z. z\<lparr>r_acc := g\<rparr>" "\<lambda>v. v\<lparr>v2_acc := after_send (v2_acc v)\<rparr>"
  for api :: "'w v2_api" and bad :: "bytes \<Rightarrow> 'w \<Rightarrow> int \<times> 'w"
proof unfold_locales
  fix y :: "'w racing" and h
  assume "\<not> v2_terminated (r_sys y)" and "r_acc y = Some h"
  then show "racing_step api bad y (send_on api bad (\<lambda>g z. z\<lparr>r_acc := g\<rparr>) (\<lambda>v. v\<lparr>v2_acc := after_send (v2_acc v)\<rparr>) h y)"
    using racing_step.accept [of y api bad] by (simp add: racing_accept_def Let_def)
qed simp_all

interpretation ping_send: sending_thread api bad r_png "\<lambda>g z. z\<lparr>r_png := g\<rparr>" "\<lambda>v. v\<lparr>v2_png := Q_Loop\<rparr>"
  for api :: "'w v2_api" and bad :: "bytes \<Rightarrow> 'w \<Rightarrow> int \<times> 'w"
proof unfold_locales
  fix y :: "'w racing" and h
  assume "\<not> v2_terminated (r_sys y)" and "r_png y = Some h"
  then show "racing_step api bad y (send_on api bad (\<lambda>g z. z\<lparr>r_png := g\<rparr>) (\<lambda>v. v\<lparr>v2_png := Q_Loop\<rparr>) h y)"
    using racing_step.ping [of y api bad] by (simp add: racing_ping_def Let_def)
qed simp_all

interpretation main_send: sending_thread api bad r_main "\<lambda>g z. z\<lparr>r_main := g\<rparr>" id
  for api :: "'w v2_api" and bad :: "bytes \<Rightarrow> 'w \<Rightarrow> int \<times> 'w"
  by unfold_locales (simp_all add: racing_step.main_send [unfolded racing_main_send_def])

section \<open>The invariant\<close>

lemma send_on_others:
  "r_png (send_on api bad (\<lambda>g z. z\<lparr>r_acc := g\<rparr>) nxt f y) = r_png y" "r_main (send_on api bad (\<lambda>g z. z\<lparr>r_acc := g\<rparr>) nxt f y) = r_main y"
  "r_acc (send_on api bad (\<lambda>g z. z\<lparr>r_png := g\<rparr>) nxt f y) = r_acc y" "r_main (send_on api bad (\<lambda>g z. z\<lparr>r_png := g\<rparr>) nxt f y) = r_main y"
  "r_acc (send_on api bad (\<lambda>g z. z\<lparr>r_main := g\<rparr>) nxt f y) = r_acc y" "r_png (send_on api bad (\<lambda>g z. z\<lparr>r_main := g\<rparr>) nxt f y) = r_png y"
  by (auto simp: send_on_def Let_def split: prod.splits send_next.splits sum.splits)

lemma after_send_inv: "V2_sys_inv v \<Longrightarrow> V2_sys_inv (v\<lparr>v2_acc := after_send (v2_acc v)\<rparr>)"
  by (cases "v2_acc v") (simp_all add: V2_sys_inv_def)

lemma flight_ok_start:
  "V2_frame_ok data \<Longrightarrow> msg_size (Header_at data) = n \<Longrightarrow> flight_ok (start_send n data)"
  by (simp add: flight_ok_def start_send_def V2_frame_ok_def)

lemma accept_sends_ok:
  assumes "V2_srv_inv s" and "accept_sends api pc s w = Some f"
  shows "flight_ok f"
  using assms
  by (cases "(api, pc, s, w)" rule: accept_sends.cases)
    (auto simp: V2_srv_inv_def V2_frame_header V2_frame_ok_Hello V2_frame_ok_DeviceInfo Let_def intro!: flight_ok_start)

lemma main_sends_ok:
  assumes "V2_srv_inv s" and "main_op_ok m s" and "main_sends api m s w = Some (s1, f)"
  shows "V2_srv_inv s1" and "flight_ok f"
proof -
  have "V2_srv_inv s1 \<and> flight_ok f"
  proof (cases m)
    case (Main_call c)
    then show ?thesis
      using assms
      by (cases c) (auto simp: main_sends_def V2_srv_inv_def V2_frame_header V2_device_ok_init V2_frame_ok_State V2_frame_ok_DeviceInfo Let_def
          intro!: flight_ok_start)
  next
    case (Main_debug msg)
    let ?h = "InitHeader MT_DebugMessage (sizeof_Header + length msg) 0 \<lparr>messageType = 0, msg_size = 0, nonPersistentTabletId = 0\<rparr>"
    have "V2_frame_ok (DebugMessage_bytes ?h msg) \<and> unat (msg_size ?h) = length (DebugMessage_bytes ?h msg)"
      using V2_frame_DebugMessage(1,2) [of msg ?h] assms(2) Main_debug by simp
    then show ?thesis using assms(1,3) Main_debug by (auto simp: main_sends_def flight_ok_def start_send_def Let_def)
  next
    case Main_stop_begin
    then show ?thesis using assms(3) by (simp add: main_sends_def)
  qed
  then show "V2_srv_inv s1" and "flight_ok f" by auto
qed

lemma racing_inv_start: "racing_inv (quiet (V2_running config db l w))"
  using V2_reachable_inv [OF V2_reachable.start] by (simp add: racing_inv_def quiet_def)

lemma V2_step_inv: "V2_step api y z \<Longrightarrow> V2_sys_inv y \<Longrightarrow> V2_sys_inv z"
  using V2_step_effect V2_effect_inv by (fastforce simp: V2_sys_inv_def)

lemma racing_step_inv:
  assumes "racing_step api bad y z" and "racing_inv y"
  shows "racing_inv z"
  using assms
proof (induction rule: racing_step.induct)
  case (accept y)
  show ?case
  proof (cases "r_acc y")
    case (Some f)
    then have "V2_sys_inv (r_sys y)" "flight_ok f" using accept(2) by (simp_all add: racing_inv_def)
    from accept_send.send_on_inv [OF this after_send_inv] accept(2) Some show ?thesis
      by (simp add: racing_accept_def racing_inv_def send_on_others Let_def)
  next
    case None
    then show ?thesis
      using accept V2_step_inv [OF V2_step.accept] accept_sends_ok
      by (auto simp: racing_accept_def racing_inv_def Let_def V2_sys_inv_def split: option.splits)
  qed
next
  case (ping y)
  show ?case
  proof (cases "r_png y")
    case (Some f)
    then have "V2_sys_inv (r_sys y)" "flight_ok f" using ping(2) by (simp_all add: racing_inv_def)
    from ping_send.send_on_inv [OF this] ping(2) Some show ?thesis
      by (simp add: racing_ping_def racing_inv_def send_on_others V2_sys_inv_def Let_def)
  next
    case None
    have "flight_ok (start_send (msg_size (V2_ping_message s)) (struct_bytes pad (Ping_fields (V2_ping_message s))))" for s pad
      by (rule flight_ok_start) (simp_all add: V2_frame_ok_Ping V2_frame_header)
    moreover have "V2_sys_inv (V2_ping_thread api (r_sys y))"
      using V2_step_inv [OF V2_step.ping [OF ping(1)]] ping(2) by (simp add: racing_inv_def)
    ultimately show ?thesis
      using None ping by (simp add: racing_ping_def racing_inv_def Let_def) (simp add: V2_sys_inv_def V2_srv_inv_def)
  qed
next
  case (main y m)
  then have i: "V2_srv_inv (v2_srv (r_sys y))" by (simp add: racing_inv_def V2_sys_inv_def)
  show ?case
  proof (cases "main_sends api m (v2_srv (r_sys y)) (v2_world (r_sys y))")
    case None
    then show ?thesis using main V2_step_inv [OF V2_step.main [OF main(1,3)]] by (simp add: racing_main_def racing_inv_def)
  next
    case (Some p)
    obtain s f where p: "p = (s, f)" by fastforce
    from main_sends_ok [OF i main(3) Some [unfolded p]] main Some show ?thesis
      by (simp add: p racing_main_def racing_inv_def V2_sys_inv_def)
  qed
next
  case (main_send y f)
  then have "V2_sys_inv (r_sys y)" "flight_ok f" by (simp_all add: racing_inv_def)
  from main_send.send_on_inv [OF this, of api bad] main_send show ?case
    by (simp add: racing_main_send_def racing_inv_def send_on_others)
next
  case (environment y w)
  then show ?case by (simp add: racing_inv_def V2_sys_inv_def)
qed

lemma racing_reachable_inv: "racing_reachable api bad config db l y \<Longrightarrow> racing_inv y"
  by (induction rule: racing_reachable.induct) (auto intro: racing_step_inv racing_inv_start)

lemma racing_steps_reachable:
  "(racing_step api bad)\<^sup>*\<^sup>* y z \<Longrightarrow> racing_reachable api bad config db l y \<Longrightarrow> racing_reachable api bad config db l z"
  by (induction rule: rtranclp_induct) (auto intro: racing_reachable.step)

section \<open>The atomic server is one of the behaviours\<close>

lemma accept_atomic:
  assumes "accept_sends api (v2_acc v) (v2_srv v) (v2_world v) = Some (start_send n data)"
    and "V2_SendRaw api n data (v2_srv v) (v2_world v) = (Inr b, s, w)"
  shows "V2_accept_thread api v = v\<lparr>v2_srv := s, v2_world := w, v2_acc := after_send (v2_acc v)\<rparr>"
  using assms
  by (cases "(api, v2_acc v, v2_srv v, v2_world v)" rule: accept_sends.cases)
    (auto simp: V2_accept_thread_def V2_AcceptLoop_step_def V2_Send_Hello_def V2_Send_DeviceInfo_def start_send_def Let_def)

lemma main_atomic:
  assumes "main_sends api m (v2_srv v) (v2_world v) = Some (s1, start_send n data)"
    and "V2_SendRaw api n data s1 (v2_world v) = (Inr b, s, w)"
  shows "V2_main_thread api m v = v\<lparr>v2_srv := s, v2_world := w\<rparr>"
proof (cases m)
  case (Main_call c)
  then show ?thesis
    using assms
    by (cases c) (auto simp: main_sends_def V2_main_thread_def V2_main_def V2_handler_def V2_SetDevice_def V2_SetState_def
        V2_Send_DeviceInfo_def V2_Send_State_def start_send_def Let_def)
qed (use assms in \<open>auto simp: main_sends_def V2_main_thread_def V2_main_def V2_SendDebugMessage_def start_send_def Let_def\<close>)

lemma sends_start:
  "accept_sends api pc s w = Some f \<Longrightarrow> f = start_send (fl_size f) (fl_data f)"
  "main_sends api m s w = Some (s1, f) \<Longrightarrow> f = start_send (fl_size f) (fl_data f)"
  by (cases "(api, pc, s, w)" rule: accept_sends.cases)
    (auto simp: start_send_def main_sends_def Let_def split: V2_main_op.splits handler_call.splits)

lemma flight_sends:
  assumes "flight_ok f"
  obtains b s' w' where "V2_SendRaw api (fl_size f) (fl_data f) s w = (Inr b, s', w')"
  using assms V2_SendRaw_sent [of "fl_size f" "fl_data f" api s w] by (auto simp: flight_ok_def)

lemma quiet_accept:
  assumes "\<not> v2_terminated v" and "V2_sys_inv v"
  shows "(racing_step api bad)\<^sup>*\<^sup>* (quiet v) (quiet (V2_accept_thread api v))"
proof (cases "accept_sends api (v2_acc v) (v2_srv v) (v2_world v)")
  case None
  then show ?thesis using racing_step.accept [of "quiet v" api bad] assms(1) by (simp add: quiet_def racing_accept_def r_into_rtranclp)
next
  case (Some f)
  have "flight_ok f" using accept_sends_ok [OF _ Some] assms(2) by (simp add: V2_sys_inv_def)
  then obtain b s w where r: "V2_SendRaw api (fl_size f) (fl_data f) (v2_srv v) (v2_world v) = (Inr b, s, w)" by (rule flight_sends)
  have f: "start_send (fl_size f) (fl_data f) = f" using sends_start(1) [OF Some] by simp
  have "racing_step api bad (quiet v) ((quiet v)\<lparr>r_acc := Some f\<rparr>)"
    using racing_step.accept [of "quiet v" api bad] assms(1) Some by (simp add: quiet_def racing_accept_def)
  moreover have "(racing_step api bad)\<^sup>*\<^sup>* ((quiet v)\<lparr>r_acc := Some f\<rparr>) (quiet (V2_accept_thread api v))"
    using accept_send.send_completes [OF assms(1) r, of bad "quiet v"] accept_atomic [OF _ r] Some f by (simp add: quiet_def)
  ultimately show ?thesis by (rule converse_rtranclp_into_rtranclp)
qed

lemma quiet_ping:
  assumes "\<not> v2_terminated v"
  shows "(racing_step api bad)\<^sup>*\<^sup>* (quiet v) (quiet (V2_ping_thread api v))"
proof (cases "v2_png v = Q_Sleep \<and> \<not> v2_stop_requested api Ping_thread (v2_world v) \<and> mClientSocket (v2_srv v) \<noteq> None")
  case False
  then show ?thesis using racing_step.ping [of "quiet v" api bad] assms
    by (auto simp: quiet_def racing_ping_def intro!: r_into_rtranclp split: if_splits)
next
  case True
  let ?s = "v2_srv v" and ?m = "V2_ping_message (v2_srv v)"
  let ?v = "v\<lparr>v2_srv := ?s\<lparr>ping_seq := ping_seq ?s + 1\<rparr>\<rparr>"
  let ?d = "struct_bytes (v2_padding api (v2_world v)) (Ping_fields ?m)"
  obtain b s w where r: "V2_SendRaw api (msg_size ?m) ?d (v2_srv ?v) (v2_world ?v) = (Inr b, s, w)"
    using V2_Send_Ping_sent [of ?m api "v2_srv ?v" "v2_world v"] by (auto simp: V2_Send_Ping_def)
  have "racing_step api bad (quiet v) ((quiet v)\<lparr>r_sys := ?v, r_png := Some (start_send (msg_size ?m) ?d)\<rparr>)"
    using racing_step.ping [of "quiet v" api bad] assms True by (simp add: quiet_def racing_ping_def Let_def)
  moreover have "V2_ping_thread api v = v\<lparr>v2_srv := s, v2_world := w, v2_png := Q_Loop\<rparr>"
    using True r by (auto simp: V2_ping_thread_def V2_PingLoop_step_def V2_Send_Ping_def Let_def)
  then have "(racing_step api bad)\<^sup>*\<^sup>* ((quiet v)\<lparr>r_sys := ?v, r_png := Some (start_send (msg_size ?m) ?d)\<rparr>) (quiet (V2_ping_thread api v))"
    using ping_send.send_completes [OF _ r, of bad "quiet v"] assms by (simp add: quiet_def)
  ultimately show ?thesis by (rule converse_rtranclp_into_rtranclp)
qed

lemma quiet_main:
  assumes "\<not> v2_terminated v" and "V2_sys_inv v" and "main_op_ok m (v2_srv v)"
  shows "(racing_step api bad)\<^sup>*\<^sup>* (quiet v) (quiet (V2_main_thread api m v))"
proof (cases "main_sends api m (v2_srv v) (v2_world v)")
  case None
  then show ?thesis using racing_step.main [of "quiet v" m api bad] assms by (simp add: quiet_def racing_main_def r_into_rtranclp)
next
  case (Some p)
  then obtain s1 f where p: "main_sends api m (v2_srv v) (v2_world v) = Some (s1, f)" by (cases p) simp
  have "flight_ok f" using main_sends_ok(2) [OF _ assms(3) p] assms(2) by (simp add: V2_sys_inv_def)
  then obtain b s w where r: "V2_SendRaw api (fl_size f) (fl_data f) s1 (v2_world v) = (Inr b, s, w)" by (rule flight_sends)
  have f: "start_send (fl_size f) (fl_data f) = f" using sends_start(2) [OF p] by simp
  let ?v = "v\<lparr>v2_srv := s1\<rparr>"
  have "racing_step api bad (quiet v) ((quiet v)\<lparr>r_sys := ?v, r_main := Some f\<rparr>)"
    using racing_step.main [of "quiet v" m api bad] assms p by (simp add: quiet_def racing_main_def)
  moreover have "(racing_step api bad)\<^sup>*\<^sup>* ((quiet v)\<lparr>r_sys := ?v, r_main := Some f\<rparr>) (quiet (V2_main_thread api m v))"
    using main_send.send_completes [of ?v api "fl_size f" "fl_data f" b s w bad "quiet v"] r assms(1) main_atomic [OF _ r] p f
    by (simp add: quiet_def)
  ultimately show ?thesis by (rule converse_rtranclp_into_rtranclp)
qed

lemma quiet_step:
  assumes "V2_step api v z" and "V2_sys_inv v"
  shows "(racing_step api bad)\<^sup>*\<^sup>* (quiet v) (quiet z)"
  using assms
proof (induction rule: V2_step.induct)
  case (environment y w')
  then have "racing_step api bad (quiet y) ((quiet y)\<lparr>r_sys := (r_sys (quiet y))\<lparr>v2_world := w'\<rparr>\<rparr>)"
    by (intro racing_step.environment) (simp add: quiet_def)
  then show ?case by (simp add: quiet_def r_into_rtranclp)
qed (simp_all add: quiet_accept quiet_ping quiet_main)

lemma V2_reachable_racing: "V2_reachable api config db l n y \<Longrightarrow> racing_reachable api bad config db l (quiet y)"
proof (induction rule: V2_reachable.induct)
  case (step n y z)
  from quiet_step [OF step(2) V2_reachable_inv [OF step(1)]] step(3) show ?case by (rule racing_steps_reachable)
qed (rule racing_reachable.start)

lemma racing_run_reachable: "racing_reachable api bad config db l y \<Longrightarrow> racing_reachable api bad config db l (racing_run api bad ts y)"
proof (induction ts arbitrary: y)
  case (Cons t ts)
  have "\<not> v2_terminated (r_sys y)" using racing_reachable_inv [OF Cons(2)] by (simp add: racing_inv_def V2_sys_inv_def)
  then have "racing_reachable api bad config db l (if t then racing_accept api bad y else racing_ping api bad y)"
    using Cons(2) by (auto intro: racing_reachable.step racing_step.accept racing_step.ping)
  from Cons(1) [OF this] show ?case by (simp add: racing_run_def)
qed (simp add: racing_run_def)

lemma failing_read: "read_message failing_v2_api sock buf w = Some (Inl Socket_closed, buf, w)"
  unfolding read_message_def by (subst ReadNBytes.simps) (simp add: failing_v2_api_def sizeof_Header_def)

lemma failing_fields [simp]:
  "sock_accept failing_v2_api l w = Some (Some 7, w)" "sock_send failing_v2_api c d w = (SOCKET_ERROR, w)"
  "v2_stop_requested failing_v2_api t w = False" "v2_sleep_ms failing_v2_api n w = w" "sock_close failing_v2_api c w = w"
  by (simp_all add: failing_v2_api_def sample_v2_api_def)

lemmas racing_run_defs =
  racing_accept_def racing_ping_def send_on_def SendRaw_step_def start_send_def quiet_def V2_running_def V2Server_init_def
  V2_accept_thread_def V2_AcceptLoop_step_def V2_ping_thread_def V2_PingLoop_step_def V2_reset_client_def
  layout_simps unat_sizeof_v2 failing_read Let_def

lemma racing_sample_state:
  "map_option fl_pc (r_png racing_sample) = Some S_Reset \<and> r_acc racing_sample = None \<and> v2_acc (r_sys racing_sample) = B_Accept"
  by (simp add: racing_sample_def racing_run_def racing_run_defs)

section \<open>Properties\<close>





text \<open>C32: a race closes the wrong socket.  When the ping thread's send to a client has failed and, before
  it resets the socket, the accept thread accepts the next client, the reset closes the socket of the
  new client, to which nothing was sent and no send failed: it is accepted and at once disconnected.\<close>

theorem send_race_drops_client:
  assumes "racing_reachable api bad config db l y" and "r_png y = Some f" and "fl_pc f = S_Reset"
    and "r_acc y = None" and "v2_acc (r_sys y) = B_Accept"
    and "sock_accept api (mListenSocket (v2_srv (r_sys y))) (v2_world (r_sys y)) = Some (Some c, w1)"
  shows "\<exists>z w2. racing_reachable api bad config db l z \<and> v2_acc (r_sys z) = B_Hello \<and> mClientSocket (v2_srv (r_sys z)) = None \<and>
    v2_world (r_sys z) = sock_close api c w2 \<and> v2_sent (v2_srv (r_sys z)) = v2_sent (v2_srv (r_sys y))"
proof -
  let ?z = "racing_run api bad [True, False] y"
  obtain s w2 where s: "V2_reset_client api (v2_srv (r_sys y)) w1 = (s, w2)" "v2_sent s = v2_sent (v2_srv (r_sys y))"
    by (cases "mClientSocket (v2_srv (r_sys y))") (auto simp: V2_reset_client_def)
  let ?v = "(r_sys y)\<lparr>v2_srv := s\<lparr>mClientSocket := Some c\<rparr>, v2_world := w2, v2_acc := B_Hello\<rparr>"
  have "racing_accept api bad y = y\<lparr>r_sys := ?v\<rparr>"
    using assms(4-6) s(1) by (simp add: racing_accept_def V2_accept_thread_def V2_AcceptLoop_step_def)
  moreover have "racing_ping api bad (y\<lparr>r_sys := ?v\<rparr>) =
      y\<lparr>r_sys := ?v\<lparr>v2_srv := s\<lparr>mClientSocket := None\<rparr>, v2_world := sock_close api c w2, v2_png := Q_Loop\<rparr>, r_png := None\<rparr>"
    using assms(2,3) by (simp add: racing_ping_def send_on_def SendRaw_step_def V2_reset_client_def)
  ultimately have "?z = y\<lparr>r_sys := ?v\<lparr>v2_srv := s\<lparr>mClientSocket := None\<rparr>, v2_world := sock_close api c w2, v2_png := Q_Loop\<rparr>, r_png := None\<rparr>"
    by (simp add: racing_run_def)
  then show ?thesis using racing_run_reachable [OF assms(1), of "[True, False]"] s(2) by (intro exI [of _ ?z] exI [of _ w2]) simp
qed

theorem send_race_drops_client_witness:
  "\<exists>z. racing_reachable failing_v2_api bad_send sample_config AlwaysSet 3 z \<and> v2_acc (r_sys z) = B_Hello \<and>
     mClientSocket (v2_srv (r_sys z)) = None"
proof -
  have r: "racing_reachable failing_v2_api bad_send sample_config AlwaysSet 3 racing_sample"
    unfolding racing_sample_def by (rule racing_run_reachable [OF racing_reachable.start])
  obtain f where "r_png racing_sample = Some f" "fl_pc f = S_Reset" using racing_sample_state by auto
  then show ?thesis using send_race_drops_client [OF r] racing_sample_state failing_fields(1) by blast
qed

text \<open>A client that has gone keeps its socket.  When reading from the client fails, the accept thread
  goes back to accepting without resetting the socket, so the next state is still sent to the client
  that disconnected.\<close>

theorem disconnected_client_kept:
  assumes "v2_acc y = B_Read buf" and "mClientSocket (v2_srv y) = Some c" and "mDevice (v2_srv y) = Some d"
    and "read_message api (Some c) buf (v2_world y) = Some (Inl e, buf', w')"
  shows "v2_acc (V2_accept_thread api y) = B_Loop \<and>
    (\<exists>frame. v2_sent (v2_srv (V2_main_thread api (Main_call (Call_SetState st)) (V2_accept_thread api y))) =
       v2_sent (v2_srv y) @ [(c, frame)])"
proof -
  let ?z = "V2_accept_thread api y"
  have z: "v2_acc ?z = B_Loop" "mClientSocket (v2_srv ?z) = Some c" "mDevice (v2_srv ?z) = Some d" "v2_sent (v2_srv ?z) = v2_sent (v2_srv y)"
    using assms by (simp_all add: V2_accept_thread_def V2_AcceptLoop_step_def)
  obtain r s w where r: "V2_SetState api st (v2_srv ?z) (v2_world ?z) = (r, s, w)" by (metis prod_cases3)
  from V2_SetState_writes [OF z(3,2) r] r z show ?thesis
    by (auto simp: V2_main_thread_def V2_main_def V2_handler_def split: sum.splits)
qed

end
