(* ===== verification/V1Race.thy ===== *)
theory V1Race
  imports V1Server V2Race
begin

text \<open>
  The V1 server with sends that are not atomic.  Its \<^verbatim>\<open>SendRaw\<close> has the same shape as that of the V2 server
  and shares the pipe with the accept thread in the same way: it tests the pipe, writes, and resets the
  pipe if the write failed, without a lock.  A send in flight is that of \<open>V2Race\<close>.
\<close>

section \<open>A send in three steps\<close>

text \<open>\<open>bad\<close> is \<^verbatim>\<open>WriteFile\<close> on the invalid handle.\<close>

definition V1_SendRaw_step ::
  "'w v1_api \<Rightarrow> (bytes \<Rightarrow> 'w \<Rightarrow> (bool \<times> nat) \<times> 'w) \<Rightarrow> flight \<Rightarrow> V1Server \<Rightarrow> 'w \<Rightarrow> send_next \<times> V1Server \<times> 'w" where
  "V1_SendRaw_step api bad f s w =
     (case fl_pc f of
        S_Check \<Rightarrow>
          if unat (fl_size f) \<noteq> length (fl_data f)
          then (Sent (Inl (Throw (Logic_error (cstr ''header size mismatch'')))), s, w)
          else if mPipe s = None then (Sent (Inr False), s, w)
          else (In_flight (f\<lparr>fl_pc := S_Send\<rparr>), s, w)
      | S_Send \<Rightarrow>
          let (((ok, written), w1), s1) =
            (case mPipe s of
               None \<Rightarrow> (bad (fl_data f) w, s)
             | Some p \<Rightarrow> (WriteFile api p (fl_data f) w, s\<lparr>v1_written := v1_written s @ [(p, fl_data f)]\<rparr>))
          in if \<not> ok then (In_flight (f\<lparr>fl_pc := S_Reset\<rparr>), s1, w1)
             else (Sent (Inr (written = length (fl_data f))), s1, w1)
      | S_Reset \<Rightarrow> let (s1, w1) = V1_reset_pipe api s w in (Sent (Inr False), s1, w1))"

section \<open>The threads\<close>

record 'w v1_racing =
  q_sys :: "'w V1_sys"
  q_acc :: "flight option"
  q_png :: "flight option"
  q_main :: "flight option"

definition v1_send_on ::
  "'w v1_api \<Rightarrow> (bytes \<Rightarrow> 'w \<Rightarrow> (bool \<times> nat) \<times> 'w) \<Rightarrow> (flight option \<Rightarrow> 'w v1_racing \<Rightarrow> 'w v1_racing) \<Rightarrow> ('w V1_sys \<Rightarrow> 'w V1_sys)
     \<Rightarrow> flight \<Rightarrow> 'w v1_racing \<Rightarrow> 'w v1_racing" where
  "v1_send_on api bad put nxt f y =
     (let v = q_sys y
      in case V1_SendRaw_step api bad f (srv v) (world v) of
           (In_flight f1, s, w) \<Rightarrow> put (Some f1) (y\<lparr>q_sys := v\<lparr>srv := s, world := w\<rparr>\<rparr>)
         | (Sent (Inl e), s, w) \<Rightarrow> put None (y\<lparr>q_sys := v\<lparr>srv := s, world := w, terminated := True\<rparr>\<rparr>)
         | (Sent (Inr b), s, w) \<Rightarrow> put None (y\<lparr>q_sys := nxt (v\<lparr>srv := s, world := w\<rparr>)\<rparr>))"

text \<open>The greeting is the only message the accept thread sends.\<close>

definition v1_racing_accept :: "'w v1_api \<Rightarrow> (bytes \<Rightarrow> 'w \<Rightarrow> (bool \<times> nat) \<times> 'w) \<Rightarrow> 'w v1_racing \<Rightarrow> 'w v1_racing" where
  "v1_racing_accept api bad y =
     (let v = q_sys y; d = mV1Device (srv v)
      in case q_acc y of
           Some f \<Rightarrow> v1_send_on api bad (\<lambda>g z. z\<lparr>q_acc := g\<rparr>) (\<lambda>v. v\<lparr>acc := A_Wait\<rparr>) f y
         | None \<Rightarrow>
             if acc v = A_Greet \<and> v1_isValid d
             then y\<lparr>q_acc := Some (start_send (v1_size d) (struct_bytes (v1_padding api (world v)) (V1_DeviceInfo_fields d)))\<rparr>
             else y\<lparr>q_sys := V1_accept_thread api v\<rparr>)"

definition v1_racing_ping :: "'w v1_api \<Rightarrow> (bytes \<Rightarrow> 'w \<Rightarrow> (bool \<times> nat) \<times> 'w) \<Rightarrow> 'w v1_racing \<Rightarrow> 'w v1_racing" where
  "v1_racing_ping api bad y =
     (let v = q_sys y; s = srv v
      in case q_png y of
           Some f \<Rightarrow> v1_send_on api bad (\<lambda>g z. z\<lparr>q_png := g\<rparr>) (\<lambda>v. v\<lparr>png := P_Loop\<rparr>) f y
         | None \<Rightarrow>
             if png v = P_Sleep
             then
               let w1 = sleep_for_ms api 1000 (world v); m = V1_ping_message api s
               in y\<lparr>q_sys := v\<lparr>srv := s\<lparr>mPingSequenceNumber := (mPingSequenceNumber s + 1) mod 2 ^ v1_size_t_bits api\<rparr>, world := w1\<rparr>,
                    q_png := Some (start_send (v1_size m) (struct_bytes (v1_padding api w1) (V1_Ping_fields m)))\<rparr>
             else y\<lparr>q_sys := V1_ping_thread api v\<rparr>)"

text \<open>A call of the handler up to its send.\<close>

definition v1_main_sends :: "'w v1_api \<Rightarrow> handler_call \<Rightarrow> V1Server \<Rightarrow> 'w \<Rightarrow> V1Server \<times> flight" where
  "v1_main_sends api c s w =
     (case c of
        Call_SetDevice device \<Rightarrow>
          let d = V1_device_of api device
          in (s\<lparr>mV1Device := d\<rparr>, start_send (v1_size d) (struct_bytes (v1_padding api w) (V1_DeviceInfo_fields d)))
      | Call_SetState state \<Rightarrow>
          let st = V1_state_of (mV1Device s) state
          in (s\<lparr>mV1State := st\<rparr>, start_send (v1_size st) (struct_bytes (v1_padding api w) (V1_State_fields st))))"

definition v1_racing_main :: "'w v1_api \<Rightarrow> handler_call \<Rightarrow> 'w v1_racing \<Rightarrow> 'w v1_racing" where
  "v1_racing_main api c y =
     (let v = q_sys y; (s, f) = v1_main_sends api c (srv v) (world v)
      in y\<lparr>q_sys := v\<lparr>srv := s\<rparr>, q_main := Some f\<rparr>)"

definition v1_racing_main_send ::
  "'w v1_api \<Rightarrow> (bytes \<Rightarrow> 'w \<Rightarrow> (bool \<times> nat) \<times> 'w) \<Rightarrow> flight \<Rightarrow> 'w v1_racing \<Rightarrow> 'w v1_racing" where
  "v1_racing_main_send api bad f y = v1_send_on api bad (\<lambda>g z. z\<lparr>q_main := g\<rparr>) id f y"

inductive v1_racing_step ::
  "'w v1_api \<Rightarrow> (bytes \<Rightarrow> 'w \<Rightarrow> (bool \<times> nat) \<times> 'w) \<Rightarrow> 'w v1_racing \<Rightarrow> 'w v1_racing \<Rightarrow> bool" for api bad where
  accept: "\<not> terminated (q_sys y) \<Longrightarrow> v1_racing_step api bad y (v1_racing_accept api bad y)"
| ping: "\<not> terminated (q_sys y) \<Longrightarrow> v1_racing_step api bad y (v1_racing_ping api bad y)"
| main: "\<not> terminated (q_sys y) \<Longrightarrow> q_main y = None \<Longrightarrow> wf_call c \<Longrightarrow> v1_racing_step api bad y (v1_racing_main api c y)"
| main_send: "\<not> terminated (q_sys y) \<Longrightarrow> q_main y = Some f \<Longrightarrow> v1_racing_step api bad y (v1_racing_main_send api bad f y)"
| environment: "\<not> terminated (q_sys y) \<Longrightarrow> v1_racing_step api bad y (y\<lparr>q_sys := (q_sys y)\<lparr>world := w\<rparr>\<rparr>)"

definition v1_quiet :: "'w V1_sys \<Rightarrow> 'w v1_racing" where
  "v1_quiet v = \<lparr>q_sys = v, q_acc = None, q_png = None, q_main = None\<rparr>"

inductive v1_racing_reachable ::
  "'w v1_api \<Rightarrow> (bytes \<Rightarrow> 'w \<Rightarrow> (bool \<times> nat) \<times> 'w) \<Rightarrow> 'w v1_racing \<Rightarrow> bool" for api bad where
  start: "v1_racing_reachable api bad (v1_quiet (V1_Start w))"
| step: "v1_racing_reachable api bad y \<Longrightarrow> v1_racing_step api bad y z \<Longrightarrow> v1_racing_reachable api bad z"

section \<open>What is promised\<close>

definition v1_flight_ok :: "flight \<Rightarrow> bool" where
  "v1_flight_ok f \<longleftrightarrow> unat (fl_size f) = length (fl_data f) \<and> V1_frame_ok (fl_data f)"

definition v1_racing_inv :: "'w v1_racing \<Rightarrow> bool" where
  "v1_racing_inv y \<longleftrightarrow> V1_sys_inv (q_sys y) \<and> pred_option v1_flight_ok (q_acc y) \<and> pred_option v1_flight_ok (q_png y) \<and>
     pred_option v1_flight_ok (q_main y)"

text \<open>A run of the accept thread (\<open>True\<close>) and the ping thread (\<open>False\<close>); writes fail and the client has gone.\<close>

definition v1_racing_run :: "'w v1_api \<Rightarrow> (bytes \<Rightarrow> 'w \<Rightarrow> (bool \<times> nat) \<times> 'w) \<Rightarrow> bool list \<Rightarrow> 'w v1_racing \<Rightarrow> 'w v1_racing" where
  "v1_racing_run api bad ts y = foldl (\<lambda>z t. if t then v1_racing_accept api bad z else v1_racing_ping api bad z) y ts"

definition failing_v1_api :: "unit v1_api" where
  "failing_v1_api = sample_v1_api\<lparr>WriteFile := (\<lambda>_ _ w. ((False, 0), w)), PeekNamedPipe := (\<lambda>_ w. (False, w))\<rparr>"

definition bad_write :: "bytes \<Rightarrow> unit \<Rightarrow> (bool \<times> nat) \<times> unit" where
  "bad_write d w = ((False, 0), w)"

definition v1_racing_sample :: "unit v1_racing" where
  "v1_racing_sample = v1_racing_run failing_v1_api bad_write [True, True, True, False, False, False, False, True, True, True]
     (v1_quiet (V1_Start ()))"

section \<open>The invariant\<close>

lemma V1_SendRaw_step_inv:
  assumes "v1_flight_ok f" and "V1_srv_inv s" and "V1_SendRaw_step api bad f s w = (r, s', w')"
  shows "V1_srv_inv s' \<and> (mPipe s' = mPipe s \<or> mPipe s' = None)" and "r = In_flight g \<Longrightarrow> v1_flight_ok g" and "r \<noteq> Sent (Inl e)"
  using assms
  by (auto simp: V1_SendRaw_step_def v1_flight_ok_def V1_reset_pipe_def V1_srv_inv_def Let_def split_beta
      split: send_pc.splits option.splits if_splits)

text \<open>What the sends of the three threads have in common.\<close>

locale v1_sending_thread =
  fixes api :: "'w v1_api" and bad :: "bytes \<Rightarrow> 'w \<Rightarrow> (bool \<times> nat) \<times> 'w"
    and get :: "'w v1_racing \<Rightarrow> flight option" and put :: "flight option \<Rightarrow> 'w v1_racing \<Rightarrow> 'w v1_racing"
    and nxt :: "'w V1_sys \<Rightarrow> 'w V1_sys"
  assumes get_put: "get (put f y) = f" and sys_put: "q_sys (put f y) = q_sys y" and put_put: "put f (put g y) = put f y"
    and put_sys: "(put f y)\<lparr>q_sys := v\<rparr> = put f (y\<lparr>q_sys := v\<rparr>)"
    and flies: "\<not> terminated (q_sys y) \<Longrightarrow> get y = Some h \<Longrightarrow> v1_racing_step api bad y (v1_send_on api bad put nxt h y)"
    and nxt_inv: "V1_sys_inv v \<Longrightarrow> V1_sys_inv (nxt v)" and nxt_terminated: "terminated (nxt v) = terminated v"
begin

lemma send_on_inv:
  assumes "V1_sys_inv (q_sys y)" and "v1_flight_ok f"
  shows "\<exists>g v. v1_send_on api bad put nxt f y = put g (y\<lparr>q_sys := v\<rparr>) \<and> V1_sys_inv v \<and> pred_option v1_flight_ok g \<and>
    terminated v = terminated (q_sys y)"
proof -
  let ?v = "q_sys y"
  obtain r s w where r: "V1_SendRaw_step api bad f (srv ?v) (world ?v) = (r, s, w)" by (metis prod_cases3)
  have i: "V1_srv_inv (srv ?v)" using assms(1) by (simp add: V1_sys_inv_def)
  note n = V1_SendRaw_step_inv [OF assms(2) i r]
  have v: "V1_sys_inv (?v\<lparr>srv := s, world := w\<rparr>)" using n(1) assms(1) by (auto simp: V1_sys_inv_def)
  show ?thesis
  proof (cases r)
    case (In_flight g)
    have "v1_send_on api bad put nxt f y = put (Some g) (y\<lparr>q_sys := ?v\<lparr>srv := s, world := w\<rparr>\<rparr>)"
      using r In_flight by (simp add: v1_send_on_def)
    moreover have "pred_option v1_flight_ok (Some g)" using n(2) [OF In_flight] by simp
    ultimately show ?thesis using v by (intro exI [of _ "Some g"] exI [of _ "?v\<lparr>srv := s, world := w\<rparr>"]) simp
  next
    case (Sent x)
    with n(3) obtain b where "x = Inr b" by (cases x) auto
    then have "v1_send_on api bad put nxt f y = put None (y\<lparr>q_sys := nxt (?v\<lparr>srv := s, world := w\<rparr>)\<rparr>)"
      using r Sent by (simp add: v1_send_on_def)
    then show ?thesis
      using nxt_inv [OF v] nxt_terminated by (intro exI [of _ None] exI [of _ "nxt (?v\<lparr>srv := s, world := w\<rparr>)"]) simp
  qed
qed

text \<open>Left alone, a send in flight does what \<open>V1_SendRaw\<close> does.\<close>

lemma send_completes:
  assumes "\<not> terminated v" and "V1_SendRaw api n data (srv v) (world v) = (Inr b, s, w)"
  shows "(v1_racing_step api bad)\<^sup>*\<^sup>* (put (Some (start_send n data)) (y\<lparr>q_sys := v\<rparr>)) (put None (y\<lparr>q_sys := nxt (v\<lparr>srv := s, world := w\<rparr>)\<rparr>))"
proof -
  let ?f = "start_send n data"
  let ?y = "\<lambda>f v. put (Some f) (y\<lparr>q_sys := v\<rparr>)" and ?z = "put None (y\<lparr>q_sys := nxt (v\<lparr>srv := s, world := w\<rparr>)\<rparr>)"
  have fly: "v1_racing_step api bad (?y f x) (v1_send_on api bad put nxt f (?y f x))" if "\<not> terminated x" for f x
    using that by (intro flies) (simp_all add: get_put sys_put)
  have on: "v1_send_on api bad put nxt f (?y f x) =
     (case V1_SendRaw_step api bad f (srv x) (world x) of
        (In_flight g, s1, w1) \<Rightarrow> ?y g (x\<lparr>srv := s1, world := w1\<rparr>)
      | (Sent (Inl e), s1, w1) \<Rightarrow> put None (y\<lparr>q_sys := x\<lparr>srv := s1, world := w1, terminated := True\<rparr>\<rparr>)
      | (Sent (Inr b), s1, w1) \<Rightarrow> put None (y\<lparr>q_sys := nxt (x\<lparr>srv := s1, world := w1\<rparr>)\<rparr>))" for f x
    by (simp add: v1_send_on_def sys_put put_sys put_put Let_def split: prod.splits send_next.splits sum.splits)
  show ?thesis
  proof (cases "mPipe (srv v)")
    case None
    then have "v1_send_on api bad put nxt ?f (?y ?f v) = ?z"
      using assms(2) unfolding on by (auto simp: V1_SendRaw_step_def start_send_def V1_SendRaw_def split: if_splits)
    then show ?thesis using fly [OF assms(1), of ?f] by auto
  next
    case (Some p)
    obtain ok k w1 where wr: "WriteFile api p data (world v) = ((ok, k), w1)" by (metis surj_pair)
    let ?v1 = "v\<lparr>srv := (srv v)\<lparr>v1_written := v1_written (srv v) @ [(p, data)]\<rparr>, world := w1\<rparr>"
    have n: "unat n = length data" using assms(2) by (auto simp: V1_SendRaw_def split: if_splits)
    have 1: "v1_send_on api bad put nxt ?f (?y ?f v) = ?y (?f\<lparr>fl_pc := S_Send\<rparr>) v"
      unfolding on using Some n by (simp add: V1_SendRaw_step_def start_send_def)
    have 2: "v1_send_on api bad put nxt (?f\<lparr>fl_pc := S_Send\<rparr>) (?y (?f\<lparr>fl_pc := S_Send\<rparr>) v) = (if ok then ?z else ?y (?f\<lparr>fl_pc := S_Reset\<rparr>) ?v1)"
      unfolding on using Some n wr assms(2) by (auto simp: V1_SendRaw_step_def start_send_def V1_SendRaw_def)
    have 3: "\<not> ok \<Longrightarrow> v1_send_on api bad put nxt (?f\<lparr>fl_pc := S_Reset\<rparr>) (?y (?f\<lparr>fl_pc := S_Reset\<rparr>) ?v1) = ?z"
      unfolding on using Some n wr assms(2) by (auto simp: V1_SendRaw_step_def start_send_def V1_SendRaw_def V1_reset_pipe_def)
    have "v1_racing_step api bad (?y ?f v) (?y (?f\<lparr>fl_pc := S_Send\<rparr>) v)" using fly [OF assms(1), of ?f] 1 by simp
    moreover have "(v1_racing_step api bad)\<^sup>*\<^sup>* (?y (?f\<lparr>fl_pc := S_Send\<rparr>) v) ?z"
      using fly [OF assms(1), of "?f\<lparr>fl_pc := S_Send\<rparr>"] fly [of ?v1 "?f\<lparr>fl_pc := S_Reset\<rparr>"] assms(1) 2 3 by (cases ok) auto
    ultimately show ?thesis by (meson converse_rtranclp_into_rtranclp)
  qed
qed

end

interpretation v1_accept_send: v1_sending_thread api bad q_acc "\<lambda>g z. z\<lparr>q_acc := g\<rparr>" "\<lambda>v. v\<lparr>acc := A_Wait\<rparr>"
  for api :: "'w v1_api" and bad :: "bytes \<Rightarrow> 'w \<Rightarrow> (bool \<times> nat) \<times> 'w"
proof unfold_locales
  fix y :: "'w v1_racing" and h
  assume "\<not> terminated (q_sys y)" and "q_acc y = Some h"
  then show "v1_racing_step api bad y (v1_send_on api bad (\<lambda>g z. z\<lparr>q_acc := g\<rparr>) (\<lambda>v. v\<lparr>acc := A_Wait\<rparr>) h y)"
    using v1_racing_step.accept [of y api bad] by (simp add: v1_racing_accept_def Let_def)
qed (simp_all add: V1_sys_inv_def V1_serving_def)

interpretation v1_ping_send: v1_sending_thread api bad q_png "\<lambda>g z. z\<lparr>q_png := g\<rparr>" "\<lambda>v. v\<lparr>png := P_Loop\<rparr>"
  for api :: "'w v1_api" and bad :: "bytes \<Rightarrow> 'w \<Rightarrow> (bool \<times> nat) \<times> 'w"
proof unfold_locales
  fix y :: "'w v1_racing" and h
  assume "\<not> terminated (q_sys y)" and "q_png y = Some h"
  then show "v1_racing_step api bad y (v1_send_on api bad (\<lambda>g z. z\<lparr>q_png := g\<rparr>) (\<lambda>v. v\<lparr>png := P_Loop\<rparr>) h y)"
    using v1_racing_step.ping [of y api bad] by (simp add: v1_racing_ping_def Let_def)
qed (simp_all add: V1_sys_inv_def)

interpretation v1_main_send: v1_sending_thread api bad q_main "\<lambda>g z. z\<lparr>q_main := g\<rparr>" id
  for api :: "'w v1_api" and bad :: "bytes \<Rightarrow> 'w \<Rightarrow> (bool \<times> nat) \<times> 'w"
  by unfold_locales (simp_all add: v1_racing_step.main_send [unfolded v1_racing_main_send_def])

lemma v1_flight_ok_start:
  "wf_V1_DeviceInfo d \<Longrightarrow> v1_messageType d = v1_to_underlying V1_MT_DeviceInfo \<Longrightarrow> v1_size d = word_of_nat sizeof_V1_DeviceInfo \<Longrightarrow>
     v1_flight_ok (start_send (v1_size d) (struct_bytes pad (V1_DeviceInfo_fields d)))"
  "v1_flight_ok (start_send (v1_size (V1_state_of dev st)) (struct_bytes pad (V1_State_fields (V1_state_of dev st))))"
  "v1_flight_ok (start_send (v1_size (V1_ping_message api s)) (struct_bytes pad (V1_Ping_fields (V1_ping_message api s))))"
  by (simp_all add: v1_flight_ok_def start_send_def V1_frame_ok_DeviceInfo V1_frame_ok_State V1_frame_ok_Ping layout_simps unat_sizeof_v1)

lemma v1_main_sends_ok:
  assumes "V1_srv_inv s" and "v1_main_sends api c s w = (s1, f)"
  shows "V1_srv_inv s1 \<and> mPipe s1 = mPipe s \<and> v1_flight_ok f"
  using assms v1_flight_ok_start
  by (cases c) (auto simp: v1_main_sends_def V1_srv_inv_def Let_def)

lemma v1_racing_accept_inv:
  assumes "\<not> terminated (q_sys y)" and "v1_racing_inv y"
  shows "v1_racing_inv (v1_racing_accept api bad y) \<and>
    (terminated (q_sys (v1_racing_accept api bad y)) \<longrightarrow> q_acc y = None \<and> V1_step api (q_sys y) (q_sys (v1_racing_accept api bad y)))"
proof -
  have i: "V1_sys_inv (q_sys y)" using assms(2) by (simp add: v1_racing_inv_def)
  show ?thesis
  proof (cases "q_acc y")
    case (Some f)
    then have "v1_flight_ok f" using assms(2) by (simp add: v1_racing_inv_def)
    from v1_accept_send.send_on_inv [OF i this, of api bad] Some assms show ?thesis
      by (auto simp: v1_racing_accept_def v1_racing_inv_def)
  next
    case None
    have st: "V1_step api (q_sys y) (V1_accept_thread api (q_sys y))" using assms(1) by (rule V1_step.accept)
    show ?thesis
    proof (cases "acc (q_sys y) = A_Greet \<and> v1_isValid (mV1Device (srv (q_sys y)))")
      case True
      then have "v1_flight_ok (start_send (v1_size (mV1Device (srv (q_sys y)))) (struct_bytes pad (V1_DeviceInfo_fields (mV1Device (srv (q_sys y))))))" for pad
        using i by (intro v1_flight_ok_start) (simp_all add: V1_sys_inv_def V1_srv_inv_def)
      then show ?thesis using assms None True by (auto simp: v1_racing_accept_def v1_racing_inv_def Let_def)
    next
      case False
      then have "v1_racing_accept api bad y = y\<lparr>q_sys := V1_accept_thread api (q_sys y)\<rparr>"
        using None by (auto simp: v1_racing_accept_def Let_def)
      then show ?thesis using assms(2) None st V1_step_inv [OF st i] by (simp add: v1_racing_inv_def)
    qed
  qed
qed

lemma v1_racing_ping_inv:
  assumes "\<not> terminated (q_sys y)" and "v1_racing_inv y"
  shows "v1_racing_inv (v1_racing_ping api bad y) \<and>
    (terminated (q_sys (v1_racing_ping api bad y)) \<longrightarrow> q_acc y = None \<and> V1_step api (q_sys y) (q_sys (v1_racing_ping api bad y)))"
proof -
  have i: "V1_sys_inv (q_sys y)" using assms(2) by (simp add: v1_racing_inv_def)
  show ?thesis
  proof (cases "q_png y")
    case (Some f)
    then have "v1_flight_ok f" using assms(2) by (simp add: v1_racing_inv_def)
    from v1_ping_send.send_on_inv [OF i this, of api bad] Some assms show ?thesis
      by (auto simp: v1_racing_ping_def v1_racing_inv_def)
  next
    case None
    have st: "V1_step api (q_sys y) (V1_ping_thread api (q_sys y))" using assms(1) by (rule V1_step.ping)
    have "png (q_sys y) \<noteq> P_Sleep \<Longrightarrow> terminated (V1_ping_thread api (q_sys y)) = terminated (q_sys y)"
      by (cases "png (q_sys y)") (simp_all add: V1_ping_thread_def V1_PingLoop_step_def)
    then show ?thesis using assms None i V1_step_inv [OF st i] v1_flight_ok_start(3)
      by (auto simp: v1_racing_ping_def v1_racing_inv_def Let_def V1_sys_inv_def V1_srv_inv_def)
  qed
qed

lemma v1_racing_step_inv:
  assumes "v1_racing_step api bad y z" and "v1_racing_inv y"
  shows "v1_racing_inv z \<and> (terminated (q_sys z) \<longrightarrow> q_acc y = None \<and> V1_step api (q_sys y) (q_sys z))"
  using assms
proof (induction rule: v1_racing_step.induct)
  case (accept y)
  then show ?case by (rule v1_racing_accept_inv)
next
  case (ping y)
  then show ?case by (rule v1_racing_ping_inv)
next
  case (main y c)
  obtain s f where c: "v1_main_sends api c (srv (q_sys y)) (world (q_sys y)) = (s, f)" by fastforce
  have "V1_srv_inv (srv (q_sys y))" using main(4) by (simp add: v1_racing_inv_def V1_sys_inv_def)
  from v1_main_sends_ok [OF this c] main c show ?case by (simp add: v1_racing_main_def v1_racing_inv_def V1_sys_inv_def)
next
  case (main_send y f)
  then have i: "V1_sys_inv (q_sys y)" and "v1_flight_ok f" by (simp_all add: v1_racing_inv_def)
  from v1_main_send.send_on_inv [OF this, of api bad] main_send show ?case
    by (auto simp: v1_racing_main_send_def v1_racing_inv_def)
next
  case (environment y w)
  then show ?case by (simp add: v1_racing_inv_def V1_sys_inv_def)
qed

lemma v1_racing_reachable_inv: "v1_racing_reachable api bad y \<Longrightarrow> v1_racing_inv y"
  by (induction rule: v1_racing_reachable.induct) (simp_all add: v1_racing_inv_def v1_quiet_def V1_sys_inv_Start v1_racing_step_inv [unfolded v1_racing_inv_def])

lemma v1_racing_steps_reachable:
  "(v1_racing_step api bad)\<^sup>*\<^sup>* y z \<Longrightarrow> v1_racing_reachable api bad y \<Longrightarrow> v1_racing_reachable api bad z"
  by (induction rule: rtranclp_induct) (auto intro: v1_racing_reachable.step)

section \<open>The atomic server is one of the behaviours\<close>

lemma v1_flight_sends:
  assumes "v1_flight_ok (start_send n data)"
  obtains b s' w' where "V1_SendRaw api n data s w = (Inr b, s', w')"
  using assms V1_SendRaw_sent [of n data api s w] by (auto simp: v1_flight_ok_def start_send_def)

lemma v1_quiet_accept:
  assumes "\<not> terminated v" and "V1_sys_inv v"
  shows "(v1_racing_step api bad)\<^sup>*\<^sup>* (v1_quiet v) (v1_quiet (V1_accept_thread api v))"
proof (cases "acc v = A_Greet \<and> v1_isValid (mV1Device (srv v))")
  case False
  then have "v1_racing_accept api bad (v1_quiet v) = v1_quiet (V1_accept_thread api v)"
    by (auto simp: v1_quiet_def v1_racing_accept_def Let_def)
  then show ?thesis using v1_racing_step.accept [of "v1_quiet v" api bad] assms(1) by (simp add: v1_quiet_def r_into_rtranclp)
next
  case True
  let ?d = "mV1Device (srv v)" and ?bs = "struct_bytes (v1_padding api (world v)) (V1_DeviceInfo_fields (mV1Device (srv v)))"
  have "v1_flight_ok (start_send (v1_size ?d) ?bs)"
    using assms(2) True by (intro v1_flight_ok_start) (simp_all add: V1_sys_inv_def V1_srv_inv_def)
  then obtain b s w where r: "V1_SendRaw api (v1_size ?d) ?bs (srv v) (world v) = (Inr b, s, w)" by (rule v1_flight_sends)
  have "v1_racing_step api bad (v1_quiet v) ((v1_quiet v)\<lparr>q_acc := Some (start_send (v1_size ?d) ?bs)\<rparr>)"
    using v1_racing_step.accept [of "v1_quiet v" api bad] assms(1) True by (simp add: v1_quiet_def v1_racing_accept_def Let_def)
  moreover have "V1_accept_thread api v = v\<lparr>srv := s, world := w, acc := A_Wait\<rparr>"
    using True r by (simp add: V1_accept_thread_def V1_AcceptLoop_step_def V1_Send_DeviceInfo_def)
  then have "(v1_racing_step api bad)\<^sup>*\<^sup>* ((v1_quiet v)\<lparr>q_acc := Some (start_send (v1_size ?d) ?bs)\<rparr>) (v1_quiet (V1_accept_thread api v))"
    using v1_accept_send.send_completes [OF assms(1) r, of bad "v1_quiet v"] by (simp add: v1_quiet_def)
  ultimately show ?thesis by (rule converse_rtranclp_into_rtranclp)
qed

lemma v1_quiet_ping:
  assumes "\<not> terminated v"
  shows "(v1_racing_step api bad)\<^sup>*\<^sup>* (v1_quiet v) (v1_quiet (V1_ping_thread api v))"
proof (cases "png v = P_Sleep")
  case False
  then show ?thesis using v1_racing_step.ping [of "v1_quiet v" api bad] assms
    by (simp add: v1_quiet_def v1_racing_ping_def r_into_rtranclp)
next
  case True
  let ?s = "srv v" and ?w = "sleep_for_ms api 1000 (world v)" and ?m = "V1_ping_message api (srv v)"
  let ?v = "v\<lparr>srv := ?s\<lparr>mPingSequenceNumber := (mPingSequenceNumber ?s + 1) mod 2 ^ v1_size_t_bits api\<rparr>, world := ?w\<rparr>"
  let ?bs = "struct_bytes (v1_padding api ?w) (V1_Ping_fields ?m)"
  obtain b s w where r: "V1_SendRaw api (v1_size ?m) ?bs (srv ?v) (world ?v) = (Inr b, s, w)"
    by (rule v1_flight_sends [OF v1_flight_ok_start(3)])
  have "v1_racing_step api bad (v1_quiet v) ((v1_quiet v)\<lparr>q_sys := ?v, q_png := Some (start_send (v1_size ?m) ?bs)\<rparr>)"
    using v1_racing_step.ping [of "v1_quiet v" api bad] assms True by (simp add: v1_quiet_def v1_racing_ping_def Let_def)
  moreover have "V1_ping_thread api v = v\<lparr>srv := s, world := w, png := P_Loop\<rparr>"
    using True r by (simp add: V1_ping_thread_def V1_PingLoop_step_def V1_ping_def V1_Send_Ping_def Let_def)
  then have "(v1_racing_step api bad)\<^sup>*\<^sup>* ((v1_quiet v)\<lparr>q_sys := ?v, q_png := Some (start_send (v1_size ?m) ?bs)\<rparr>) (v1_quiet (V1_ping_thread api v))"
    using v1_ping_send.send_completes [OF _ r, of bad "v1_quiet v"] assms by (simp add: v1_quiet_def)
  ultimately show ?thesis by (rule converse_rtranclp_into_rtranclp)
qed

lemma v1_quiet_call:
  assumes "\<not> terminated v" and "V1_sys_inv v" and "wf_call c"
  shows "(v1_racing_step api bad)\<^sup>*\<^sup>* (v1_quiet v) (v1_quiet (V1_main_call api c v))"
proof -
  obtain s1 f where m: "v1_main_sends api c (srv v) (world v) = (s1, f)" by fastforce
  have "v1_flight_ok f" using v1_main_sends_ok [OF _ m] assms(2) by (simp add: V1_sys_inv_def)
  moreover have f: "f = start_send (fl_size f) (fl_data f)"
    using m by (cases c) (auto simp: v1_main_sends_def start_send_def Let_def)
  ultimately obtain b s w where r: "V1_SendRaw api (fl_size f) (fl_data f) s1 (world v) = (Inr b, s, w)"
    by (metis v1_flight_sends)
  let ?v = "v\<lparr>srv := s1\<rparr>"
  have "v1_racing_step api bad (v1_quiet v) ((v1_quiet v)\<lparr>q_sys := ?v, q_main := Some f\<rparr>)"
    using v1_racing_step.main [of "v1_quiet v" c api bad] assms(1,3) m by (simp add: v1_quiet_def v1_racing_main_def)
  moreover have "V1_main_call api c v = v\<lparr>srv := s, world := w\<rparr>"
    using m r by (cases c) (auto simp: V1_main_call_def V1_handler_def V1_SetDevice_def V1_SetState_def V1_Send_DeviceInfo_def
        V1_Send_State_def v1_main_sends_def start_send_def Let_def)
  then have "(v1_racing_step api bad)\<^sup>*\<^sup>* ((v1_quiet v)\<lparr>q_sys := ?v, q_main := Some f\<rparr>) (v1_quiet (V1_main_call api c v))"
    using v1_main_send.send_completes [of ?v api "fl_size f" "fl_data f" b s w bad "v1_quiet v"] r assms(1) f by (simp add: v1_quiet_def)
  ultimately show ?thesis by (rule converse_rtranclp_into_rtranclp)
qed

lemma v1_quiet_step:
  assumes "V1_step api v z" and "V1_sys_inv v"
  shows "(v1_racing_step api bad)\<^sup>*\<^sup>* (v1_quiet v) (v1_quiet z)"
  using assms
proof (induction rule: V1_step.induct)
  case (environment y w')
  then have "v1_racing_step api bad (v1_quiet y) ((v1_quiet y)\<lparr>q_sys := (q_sys (v1_quiet y))\<lparr>world := w'\<rparr>\<rparr>)"
    by (intro v1_racing_step.environment) (simp add: v1_quiet_def)
  then show ?case by (simp add: v1_quiet_def r_into_rtranclp)
qed (simp_all add: v1_quiet_accept v1_quiet_ping v1_quiet_call)

text \<open>Every state that the server reaches with atomic sends it also reaches with interleaved ones.\<close>

theorem V1_reachable_racing: "V1_reachable api n y \<Longrightarrow> v1_racing_reachable api bad (v1_quiet y)"
proof (induction rule: V1_reachable.induct)
  case (step n y z)
  from v1_quiet_step [OF step(2) V1_reachable_inv [OF step(1)]] step(3) show ?case by (rule v1_racing_steps_reachable)
qed (rule v1_racing_reachable.start)

section \<open>Runs\<close>

lemma v1_racing_thread_terminated:
  assumes "terminated (q_sys y)"
  shows "terminated (q_sys (v1_racing_accept api bad y))" and "terminated (q_sys (v1_racing_ping api bad y))"
  using assms
  by (auto simp: v1_racing_accept_def v1_racing_ping_def v1_send_on_def V1_accept_thread_def V1_ping_thread_def Let_def
      split: option.splits prod.splits sum.splits send_next.splits)

lemma v1_racing_run_reachable:
  assumes "v1_racing_reachable api bad y" and "\<not> terminated (q_sys (v1_racing_run api bad ts y))"
  shows "v1_racing_reachable api bad (v1_racing_run api bad ts y)"
  using assms(2)
proof (induction ts rule: rev_induct)
  case Nil
  then show ?case using assms(1) by (simp add: v1_racing_run_def)
next
  case (snoc t ts)
  let ?z = "v1_racing_run api bad ts y"
  have z: "v1_racing_run api bad (ts @ [t]) y = (if t then v1_racing_accept api bad ?z else v1_racing_ping api bad ?z)"
    by (simp add: v1_racing_run_def)
  have n: "\<not> terminated (q_sys ?z)" using snoc(2) v1_racing_thread_terminated [of ?z api bad] by (auto simp: z split: if_splits)
  from snoc(1) [OF this] n show ?case
    unfolding z by (auto intro: v1_racing_reachable.step v1_racing_step.accept v1_racing_step.ping)
qed

lemma failing_v1_fields [simp]:
  "CreateNamedPipeW failing_v1_api a b c d e f g w = (Some 1, w)" "ConnectNamedPipe failing_v1_api p w = Some (True, w)"
  "PeekNamedPipe failing_v1_api q w = (False, w)" "WriteFile failing_v1_api p bs w = ((False, 0), w)" "CloseHandle failing_v1_api p w = w"
  "stop_requested failing_v1_api t w = False" "sleep_for_ms failing_v1_api n w = w"
  by (simp_all add: failing_v1_api_def sample_v1_api_def)

lemmas v1_racing_run_defs =
  v1_racing_accept_def v1_racing_ping_def v1_send_on_def V1_SendRaw_step_def start_send_def v1_quiet_def V1_Start_def V1Server_init_def
  V1_DeviceInfo_zero_def V1_accept_thread_def V1_AcceptLoop_step_def V1_ping_thread_def V1_PingLoop_step_def V1_reset_pipe_def
  layout_simps unat_sizeof_v1 Let_def

lemma v1_racing_sample_state:
  "map_option fl_pc (q_png v1_racing_sample) = Some S_Reset \<and> q_acc v1_racing_sample = None \<and> acc (q_sys v1_racing_sample) = A_Connect 1 \<and>
   \<not> terminated (q_sys v1_racing_sample)"
  by (simp add: v1_racing_sample_def v1_racing_run_def v1_racing_run_defs)

lemma v1_racing_sample_reachable: "v1_racing_reachable failing_v1_api bad_write v1_racing_sample"
proof -
  have "\<not> terminated (q_sys v1_racing_sample)" using v1_racing_sample_state by blast
  then show ?thesis unfolding v1_racing_sample_def by (rule v1_racing_run_reachable [OF v1_racing_reachable.start])
qed

section \<open>Properties\<close>

text \<open>C14: races in the V1 sends do not break the protocol.  With the sends of the three threads interleaved
  at every access to the pipe, in every reachable state every frame written is well formed, also those in
  flight, the pipe is only held while a client is served, and a thread only ends the process when creating
  the named pipe fails with an error other than the two that mean another instance is running.\<close>

theorem v1_racing_safe:
  assumes "v1_racing_reachable api bad y"
  shows "list_all (\<lambda>(p, bs). V1_frame_ok bs) (v1_written (srv (q_sys y))) \<and>
    (\<forall>f \<in> set_option (q_acc y) \<union> set_option (q_png y) \<union> set_option (q_main y). V1_frame_ok (fl_data f)) \<and>
    (mPipe (srv (q_sys y)) \<noteq> None \<longrightarrow> V1_serving (acc (q_sys y))) \<and>
    (\<forall>z. v1_racing_step api bad y z \<and> terminated (q_sys z) \<longrightarrow>
       acc (q_sys y) = A_Loop \<and> GetLastError api (world (q_sys z)) \<notin> {ERROR_ACCESS_DENIED, ERROR_PIPE_BUSY})"
proof -
  have i: "v1_racing_inv y" using assms by (rule v1_racing_reachable_inv)
  moreover from i have "V1_sys_inv (q_sys y)" by (simp add: v1_racing_inv_def)
  then have "\<forall>z. v1_racing_step api bad y z \<and> terminated (q_sys z) \<longrightarrow>
       acc (q_sys y) = A_Loop \<and> GetLastError api (world (q_sys z)) \<notin> {ERROR_ACCESS_DENIED, ERROR_PIPE_BUSY}"
    using v1_racing_step_inv [OF _ i] V1_step_terminates by blast
  ultimately show ?thesis
    by (auto simp: v1_racing_inv_def V1_sys_inv_def V1_srv_inv_def v1_flight_ok_def option.pred_set)
qed

theorem v1_racing_safe_witness:
  "v1_racing_reachable failing_v1_api bad_write v1_racing_sample \<and>
   list_all (\<lambda>(p, bs). V1_frame_ok bs) (v1_written (srv (q_sys v1_racing_sample)))"
  using v1_racing_safe [OF v1_racing_sample_reachable] v1_racing_sample_reachable by blast

text \<open>C33: the race closes the wrong pipe, too.  When the ping thread's write to a client has failed and,
  before it resets the pipe, the next client connects, the reset closes the pipe of the new client, to
  which nothing was written; the accept thread, finding no pipe, closes up and starts over.\<close>

theorem v1_race_drops_client:
  assumes "v1_racing_reachable api bad y" and "\<not> terminated (q_sys y)" and "q_png y = Some f" and "fl_pc f = S_Reset"
    and "q_acc y = None" and "acc (q_sys y) = A_Connect p" and "ConnectNamedPipe api p (world (q_sys y)) = Some (True, w1)"
  shows "\<exists>z w2. v1_racing_reachable api bad z \<and> acc (q_sys z) = A_Greet \<and> mPipe (srv (q_sys z)) = None \<and>
    world (q_sys z) = CloseHandle api p w2 \<and> v1_written (srv (q_sys z)) = v1_written (srv (q_sys y))"
proof -
  let ?z = "v1_racing_run api bad [True, False] y"
  obtain s w2 where s: "V1_reset_pipe api (srv (q_sys y)) w1 = (s, w2)" "v1_written s = v1_written (srv (q_sys y))"
    by (cases "mPipe (srv (q_sys y))") (auto simp: V1_reset_pipe_def)
  let ?v = "(q_sys y)\<lparr>srv := s\<lparr>mPipe := Some p\<rparr>, world := w2, acc := A_Greet\<rparr>"
  have "v1_racing_accept api bad y = y\<lparr>q_sys := ?v\<rparr>"
    using assms(5-7) s(1) by (simp add: v1_racing_accept_def V1_accept_thread_def V1_AcceptLoop_step_def)
  moreover have "v1_racing_ping api bad (y\<lparr>q_sys := ?v\<rparr>) =
      y\<lparr>q_sys := ?v\<lparr>srv := s\<lparr>mPipe := None\<rparr>, world := CloseHandle api p w2, png := P_Loop\<rparr>, q_png := None\<rparr>"
    using assms(3,4) by (simp add: v1_racing_ping_def v1_send_on_def V1_SendRaw_step_def V1_reset_pipe_def)
  ultimately have z: "?z = y\<lparr>q_sys := ?v\<lparr>srv := s\<lparr>mPipe := None\<rparr>, world := CloseHandle api p w2, png := P_Loop\<rparr>, q_png := None\<rparr>"
    by (simp add: v1_racing_run_def)
  then have "v1_racing_reachable api bad ?z" using assms(2) by (intro v1_racing_run_reachable [OF assms(1)]) simp
  then show ?thesis using z s(2) by (intro exI [of _ ?z] exI [of _ w2]) simp
qed

theorem v1_race_drops_client_witness:
  "\<exists>z. v1_racing_reachable failing_v1_api bad_write z \<and> acc (q_sys z) = A_Greet \<and> mPipe (srv (q_sys z)) = None"
proof -
  obtain f where "q_png v1_racing_sample = Some f" "fl_pc f = S_Reset" using v1_racing_sample_state by auto
  then show ?thesis using v1_race_drops_client [OF v1_racing_sample_reachable] v1_racing_sample_state failing_v1_fields(2) by blast
qed

end
