(* ===== verification/V2Stream.thy ===== *)
theory V2Stream
  imports V2Server
begin

text \<open>
  The byte streams between the V2 server and a client.  The socket is a stream: a reader finds the
  borders of the messages from the sizes in their headers, which is also how \<^verbatim>\<open>AcceptOnce\<close> reads what the
  client sends.  The first part is what a client gets from the frames of the server, however the stream
  is cut; the second part is a whole session of messages from the client.
\<close>

section \<open>Frames in a stream\<close>

text \<open>The first message of a stream, if all of it is there.\<close>

definition next_frame :: "bytes \<Rightarrow> (bytes \<times> bytes) option" where
  "next_frame bs =
     (if length bs < sizeof_Header then None
      else
        let n = unat (msg_size (Header_at bs))
        in if n < sizeof_Header \<or> length bs < n then None else Some (take n bs, drop n bs))"

function split_frames :: "bytes \<Rightarrow> bytes list \<times> bytes" where
  "split_frames bs =
     (case next_frame bs of
        None \<Rightarrow> ([], bs)
      | Some (f, rest) \<Rightarrow> (let (fs, r) = split_frames rest in (f # fs, r)))"
  by pat_completeness auto
termination
  by (relation "measure length") (auto simp: next_frame_def Let_def sizeof_Header_def split: if_splits)

text \<open>What was handed to \<^verbatim>\<open>send\<close> for a client, and the messages it makes of it.\<close>

definition client_frames :: "SOCKET \<Rightarrow> V2Server \<Rightarrow> bytes list" where
  "client_frames c s = map snd (filter (\<lambda>(d, bs). d = c) (v2_sent s))"

definition client_stream :: "SOCKET \<Rightarrow> V2Server \<Rightarrow> bytes" where
  "client_stream c s = concat (client_frames c s)"

datatype client_message =
    CM_Hello Hello
  | CM_Device DeviceInfo
  | CM_State State
  | CM_Ping Ping
  | CM_Debug bytes
  | CM_Other u32

definition decode_frame :: "nat \<Rightarrow> bytes \<Rightarrow> client_message" where
  "decode_frame ab bs =
     (let t = messageType (Header_at bs)
      in if t = to_underlying MT_Hello then CM_Hello (Hello_at bs)
         else if t = to_underlying MT_DeviceInfo then CM_Device (DeviceInfo_at bs)
         else if t = to_underlying MT_State then CM_State (State_at bs)
         else if t = to_underlying MT_Ping then CM_Ping (Ping_at bs)
         else if t = to_underlying MT_DebugMessage then CM_Debug (DebugMessage_message ab bs)
         else CM_Other t)"

definition client_reads :: "nat \<Rightarrow> bytes \<Rightarrow> client_message list" where
  "client_reads ab bs = map (decode_frame ab) (fst (split_frames bs))"

section \<open>A session of messages from the client\<close>

text \<open>
  \<open>input\<close> is what the client has sent and the server has not yet received; \<^verbatim>\<open>recv\<close> returns as much of it as
  it is asked for.
\<close>

definition whole_recv :: "'w v2_api \<Rightarrow> SOCKET option \<Rightarrow> ('w \<Rightarrow> bytes) \<Rightarrow> bool" where
  "whole_recv api sock input \<longleftrightarrow>
     (\<forall>w n. 0 < n \<and> n \<le> length (input w) \<longrightarrow>
        (\<exists>w'. sock_recv api sock (int n) w = Some (Received (take n (input w)), w') \<and> input w' = drop n (input w)))"

text \<open>A world that is the client's stream.\<close>

definition stream_v2_api :: "bytes v2_api" where
  "stream_v2_api =
     \<lparr>sock_accept = (\<lambda>_ w. Some (Some 7, w)), sock_send = (\<lambda>_ d w. (int (length d), w)),
      sock_recv = (\<lambda>_ n w. Some (Received (take (nat n) w), drop (nat n) w)), sock_error = (\<lambda>_. 0), sock_close = (\<lambda>_ w. w),
      v2_sleep_ms = (\<lambda>_ w. w), v2_stop_requested = (\<lambda>_ _. False), v2_padding = (\<lambda>_ _. 0), size_t_bits = 64\<rparr>"

definition sample_debug :: "bytes \<Rightarrow> bytes" where
  "sample_debug msg =
     DebugMessage_bytes (InitHeader MT_DebugMessage (sizeof_Header + length msg) 0
       \<lparr>messageType = 0, msg_size = 0, nonPersistentTabletId = 0\<rparr>) msg"

definition sample_session :: "bytes list \<Rightarrow> bytes V2_sys" where
  "sample_session fs =
     \<lparr>v2_srv = (V2Server_init sample_config AlwaysSet)\<lparr>mClientSocket := Some 7\<rparr>, v2_acc = B_Serve (replicate 1024 0), v2_png = Q_Loop,
      v2_world = concat fs, v2_terminated = False\<rparr>"

section \<open>Lemmas on frames\<close>

declare split_frames.simps [simp del]

lemma frame_length: "V2_frame_ok f \<Longrightarrow> sizeof_Header \<le> length f"
  by (auto simp: V2_frame_ok_def sizeof_consts)

lemma Header_at_prefix:
  assumes "sizeof_Header \<le> length bs"
  shows "Header_at (bs @ rest) = Header_at bs"
  using assms by (intro Header_at_cong) simp

lemma next_frame_append:
  assumes "V2_frame_ok f"
  shows "next_frame (f @ rest) = Some (f, rest)"
  using frame_length [OF assms] assms by (simp add: next_frame_def Header_at_prefix V2_frame_ok_def Let_def)

text \<open>A proper part of a frame is not taken for one.\<close>

lemma next_frame_part:
  assumes "V2_frame_ok f" and "n < length f"
  shows "next_frame (take n f) = None"
proof (cases "n < sizeof_Header")
  case False
  then have "Header_at (take n f) = Header_at f"
    using Header_at_prefix [of "take n f" "drop n f"] assms(2) by simp
  then show ?thesis using assms by (simp add: next_frame_def V2_frame_ok_def Let_def)
qed (use assms in \<open>simp add: next_frame_def\<close>)

lemma split_frames_append:
  assumes "list_all V2_frame_ok fs"
  shows "split_frames (concat fs @ rest) = (fs @ fst (split_frames rest), snd (split_frames rest))"
  using assms
proof (induction fs)
  case (Cons f fs)
  then show ?case by (subst split_frames.simps) (simp add: next_frame_append)
qed simp

lemma split_frames_empty [simp]: "split_frames [] = ([], [])"
  by (subst split_frames.simps) (simp add: next_frame_def sizeof_Header_def)

text \<open>However much of the stream has arrived, the whole frames in it are the first ones sent.\<close>

lemma split_frames_take:
  assumes "list_all V2_frame_ok fs"
  shows "\<exists>k rest. split_frames (take n (concat fs)) = (take k fs, rest) \<and> concat (take k fs) @ rest = take n (concat fs) \<and>
    (k < length fs \<longrightarrow> length rest < length (fs ! k))"
  using assms
proof (induction fs arbitrary: n)
  case (Cons f fs)
  then have f: "V2_frame_ok f" and fs: "list_all V2_frame_ok fs" by simp_all
  show ?case
  proof (cases "n < length f")
    case True
    then have "split_frames (take n (concat (f # fs))) = ([], take n f)"
      using next_frame_part [OF f True] by (subst split_frames.simps) simp
    then show ?thesis using True by (intro exI [of _ 0] exI [of _ "take n f"]) simp
  next
    case False
    obtain k rest where k: "split_frames (take (n - length f) (concat fs)) = (take k fs, rest)"
      "concat (take k fs) @ rest = take (n - length f) (concat fs)" "k < length fs \<longrightarrow> length rest < length (fs ! k)"
      using Cons.IH [OF fs] by blast
    have "take n (concat (f # fs)) = concat [f] @ take (n - length f) (concat fs)" using False by simp
    then have "split_frames (take n (concat (f # fs))) = (f # take k fs, rest)"
      using split_frames_append [of "[f]" "take (n - length f) (concat fs)"] f k(1) by simp
    then show ?thesis using k False by (intro exI [of _ "Suc k"] exI [of _ rest]) simp
  qed
qed simp

lemma client_frames_ok: "V2_srv_inv s \<Longrightarrow> list_all V2_frame_ok (client_frames c s)"
  by (auto simp: V2_srv_inv_def client_frames_def list_all_iff)

lemma client_reads_stream:
  assumes "V2_srv_inv s"
  shows "client_reads ab (client_stream c s) = map (decode_frame ab) (client_frames c s)"
  using split_frames_append [OF client_frames_ok [OF assms], of c "[]"] by (simp add: client_reads_def client_stream_def)

lemma decode_frame_kinds:
  "messageType st = to_underlying MT_State \<Longrightarrow> decode_frame ab (struct_bytes pad (State_fields st)) = CM_State st"
  "messageType p = to_underlying MT_Ping \<Longrightarrow> decode_frame ab (struct_bytes pad (Ping_fields p)) = CM_Ping p"
  "V2_device_ok d \<Longrightarrow> decode_frame ab (struct_bytes pad (DeviceInfo_fields d)) = CM_Device d"
  "decode_frame ab (struct_bytes pad (Hello_fields (hello_message k))) = CM_Hello (hello_message k)"
  using State_at_bytes [of pad st "[]"] Ping_at_bytes [of pad p "[]"] DeviceInfo_at_bytes [of d pad "[]"]
    Hello_at_bytes [of "hello_message k" pad "[]"]
  by (simp_all add: decode_frame_def V2_frame_header V2_device_ok_def)

lemma decode_frame_known: "V2_frame_ok f \<Longrightarrow> decode_frame ab f \<noteq> CM_Other t"
  by (auto simp: V2_frame_ok_def decode_frame_def Let_def)

lemma client_reads_snoc:
  assumes "V2_srv_inv s" and "v2_sent s' = v2_sent s @ [(c, f)]" and "V2_frame_ok f"
  shows "client_reads ab (client_stream c s') = client_reads ab (client_stream c s) @ [decode_frame ab f]"
proof -
  have fs: "client_frames c s' = client_frames c s @ [f]" using assms(2) by (simp add: client_frames_def)
  have "list_all V2_frame_ok (client_frames c s @ [f])" using client_frames_ok [OF assms(1)] assms(3) by simp
  from split_frames_append [OF this, of "[]"] show ?thesis
    unfolding client_reads_stream [OF assms(1)] by (simp add: client_reads_def client_stream_def fs)
qed

section \<open>Lemmas on sessions\<close>

lemma mem_slice_prefix: "off + n \<le> length bs \<Longrightarrow> mem_slice off n (bs @ rest) = mem_slice off n bs"
  by (simp add: mem_slice_def)

text \<open>What is printed for a message does not depend on what is left in the buffer behind it.\<close>

lemma message_line_prefix:
  assumes "V2_frame_ok f" and "length f < 2 ^ ab"
  shows "message_line ab (f @ rest) = message_line ab f"
proof -
  have h: "Header_at (f @ rest) = Header_at f" using Header_at_prefix frame_length [OF assms(1)] by blast
  have sz: "unat (msg_size (Header_at f)) = length f" using assms(1) by (simp add: V2_frame_ok_def)
  have "DebugMessage_message ab (f @ rest) = DebugMessage_message ab f"
    using frame_length [OF assms(1)]
    by (simp add: DebugMessage_message_def h sz size_t_sub_def mem_slice_prefix sizeof_Header_def)
  moreover have "Hello_at (f @ rest) = Hello_at f" if "messageType (Header_at f) = to_underlying MT_Hello"
  proof -
    have "length f = sizeof_Hello" using assms(1) that by (auto simp: V2_frame_ok_def)
    then show ?thesis by (simp add: Hello_at_def h get_u64_def get_chars_def get_u8_def mem_slice_prefix sizeof_consts)
  qed
  ultimately show ?thesis by (simp add: message_line_def h Let_def)
qed

lemma whole_recv_delivers:
  assumes "whole_recv api sock input" and "n \<le> length (input w)"
  shows "\<exists>cs w'. delivers api sock w n cs w' \<and> concat cs = take n (input w) \<and> length cs \<le> 1 \<and> input w' = drop n (input w)"
proof (cases "n = 0")
  case True
  then show ?thesis using delivers.none [of api sock w] by (intro exI [of _ "[]"] exI [of _ w]) simp
next
  case False
  then obtain w' where w': "sock_recv api sock (int n) w = Some (Received (take n (input w)), w')" "input w' = drop n (input w)"
    using assms unfolding whole_recv_def by (metis gr0I)
  have "delivers api sock w' (n - length (take n (input w))) [] w'" using assms(2) delivers.none [of api sock w'] by simp
  from delivers.piece [OF w'(1) _ _ this] False assms(2) w'(2) show ?thesis
    by (intro exI [of _ "[take n (input w)]"] exI [of _ w']) simp
qed

lemma session_step:
  assumes "whole_recv api (Some c) input" and "\<And>w. \<not> v2_stop_requested api Accept_thread w" and "v2_acc y = B_Serve buf"
    and "1024 \<le> length buf" and "mClientSocket (v2_srv y) = Some c" and "input (v2_world y) = f @ rest" and "V2_frame_ok f"
    and "length f < 2 ^ 31" and "31 \<le> size_t_bits api"
  shows "\<exists>buf' w'. V2_accept_thread api (V2_accept_thread api y) =
      y\<lparr>v2_srv := (v2_srv y)\<lparr>console := console (v2_srv y) @ [message_line (size_t_bits api) f]\<rparr>, v2_world := w', v2_acc := B_Serve buf'\<rparr> \<and>
    1024 \<le> length buf' \<and> input w' = rest"
proof -
  let ?w = "v2_world y"
  have le: "sizeof_Header \<le> length f" and sz: "unat (msg_size (Header_at f)) = length f"
    using frame_length assms(7) by (auto simp: V2_frame_ok_def)
  obtain cs1 w1 where 1: "delivers api (Some c) ?w sizeof_Header cs1 w1" "concat cs1 = take sizeof_Header f" "length cs1 \<le> 1"
    "input w1 = drop sizeof_Header f @ rest"
    using whole_recv_delivers [OF assms(1), of sizeof_Header ?w] le assms(6) by auto
  have "take sizeof_Header f \<noteq> []" using le by (auto simp: sizeof_Header_def)
  then have c1: "cs1 = [take sizeof_Header f]" using 1(2,3) by (cases cs1) auto
  obtain cs2 w2 where 2: "delivers api (Some c) w1 (length f - sizeof_Header) cs2 w2" "concat cs2 = drop sizeof_Header f" "length cs2 \<le> 1"
    "input w2 = rest"
    using whole_recv_delivers [OF assms(1), of "length f - sizeof_Header" w1] 1(4) le by (auto simp: diff_le_mono)
  obtain r where r: "read_message api (Some c) buf ?w = Some (Inr (message_line (size_t_bits api) (f @ r)), f @ r, w2)"
    using read_message_frame [OF sz le assms(8,4) 1(1) [unfolded c1] 2(1,2,3)] by blast
  have "1024 \<le> length (f @ r)" using read_message_length_ge [OF r] assms(4) by simp
  moreover have "length f < 2 ^ size_t_bits api"
    using assms(8,9) by (meson less_le_trans one_le_numeral power_increasing)
  then have "message_line (size_t_bits api) (f @ r) = message_line (size_t_bits api) f" by (rule message_line_prefix [OF assms(7)])
  moreover have s: "V2_accept_thread api y = y\<lparr>v2_acc := B_Read buf\<rparr>"
    using assms(2,3) by (simp add: V2_accept_thread_def V2_AcceptLoop_step_def)
  ultimately show ?thesis
    unfolding s using r assms(5) 2(4)
    by (intro exI [of _ "f @ r"] exI [of _ w2]) (simp add: V2_accept_thread_def V2_AcceptLoop_step_def)
qed

lemma session_steps:
  assumes "whole_recv api (Some c) input" and "\<And>w. \<not> v2_stop_requested api Accept_thread w"
    and "list_all (\<lambda>f. V2_frame_ok f \<and> length f < 2 ^ 31) fs" and "31 \<le> size_t_bits api"
    and "v2_acc y = B_Serve buf" and "1024 \<le> length buf" and "mClientSocket (v2_srv y) = Some c" and "input (v2_world y) = concat fs @ rest"
  shows "\<exists>buf' w'. (V2_accept_thread api ^^ (2 * length fs)) y =
      y\<lparr>v2_srv := (v2_srv y)\<lparr>console := console (v2_srv y) @ map (message_line (size_t_bits api)) fs\<rparr>, v2_world := w', v2_acc := B_Serve buf'\<rparr> \<and>
    1024 \<le> length buf' \<and> input w' = rest"
  using assms(3,5-8)
proof (induction fs arbitrary: y buf)
  case Nil
  then show ?case by (intro exI [of _ buf] exI [of _ "v2_world y"]) simp
next
  case (Cons f fs)
  let ?s = "(v2_srv y)\<lparr>console := console (v2_srv y) @ [message_line (size_t_bits api) f]\<rparr>"
  obtain buf1 w1 where 1: "V2_accept_thread api (V2_accept_thread api y) = y\<lparr>v2_srv := ?s, v2_world := w1, v2_acc := B_Serve buf1\<rparr>"
    "1024 \<le> length buf1" "input w1 = concat fs @ rest"
    using session_step [OF assms(1,2) Cons.prems(2-4), of f "concat fs @ rest"] Cons.prems assms(4) by auto
  have "2 * length (f # fs) = Suc (Suc (2 * length fs))" by simp
  then have "(V2_accept_thread api ^^ (2 * length (f # fs))) y =
      (V2_accept_thread api ^^ (2 * length fs)) (y\<lparr>v2_srv := ?s, v2_world := w1, v2_acc := B_Serve buf1\<rparr>)"
    by (simp only: funpow_Suc_right comp_apply 1(1))
  moreover obtain buf2 w2 where "(V2_accept_thread api ^^ (2 * length fs)) (y\<lparr>v2_srv := ?s, v2_world := w1, v2_acc := B_Serve buf1\<rparr>) =
      y\<lparr>v2_srv := ?s\<lparr>console := console ?s @ map (message_line (size_t_bits api)) fs\<rparr>, v2_world := w2, v2_acc := B_Serve buf2\<rparr>"
    "1024 \<le> length buf2" "input w2 = rest"
    using Cons.IH [of "y\<lparr>v2_srv := ?s, v2_world := w1, v2_acc := B_Serve buf1\<rparr>" buf1] 1 Cons.prems by auto
  ultimately show ?case by auto
qed

lemma sample_debug_ok:
  assumes "length msg < 1000"
  shows "V2_frame_ok (sample_debug msg)" and "length (sample_debug msg) < 2 ^ 31"
    and "message_line ab (sample_debug msg) = Client_message msg"
proof -
  let ?h = "InitHeader MT_DebugMessage (sizeof_Header + length msg) 0 \<lparr>messageType = 0, msg_size = 0, nonPersistentTabletId = 0\<rparr>"
  have lt: "sizeof_Header + length msg < 2 ^ 32" using assms by (simp add: sizeof_Header_def)
  then have sz: "unat (msg_size ?h) = sizeof_Header + length msg"
    by (simp add: unat_of_nat take_bit_nat_eq_self del: of_nat_add)
  show "V2_frame_ok (sample_debug msg)"
    unfolding sample_debug_def by (rule V2_frame_DebugMessage(1) [OF lt]) simp_all
  show "length (sample_debug msg) < 2 ^ 31"
    using assms by (simp add: sample_debug_def DebugMessage_bytes_def Header_fields_def)
  show "message_line ab (sample_debug msg) = Client_message msg"
    using message_line_debug [OF sz, of ab "[]"] by (simp add: sample_debug_def)
qed

lemma stream_whole_recv: "whole_recv stream_v2_api sock id"
  by (simp add: whole_recv_def stream_v2_api_def)

section \<open>Properties\<close>



end
