(* ===== verification/Reconnect.thy ===== *)
theory Reconnect
  imports V1Server V2Server "HOL-Library.Sublist"
begin

text \<open>
  The next client.  Each server serves one client at a time, on its accept thread; when that client goes
  the thread has to find out and to wait for another one.  Both accept threads are shown to do so in
  a bounded number of their own steps, from wherever they are, and to greet the client that connects.
\<close>

section \<open>Threads that make progress\<close>

text \<open>A thread whose steps lower a rank for as long as it has not reached its goal.\<close>

locale ranked_thread =
  fixes step :: "'s \<Rightarrow> 's" and invar :: "'s \<Rightarrow> bool" and goal :: "'s \<Rightarrow> bool" and rank :: "'s \<Rightarrow> nat"
  assumes progress: "invar s \<Longrightarrow> \<not> goal s \<Longrightarrow> invar (step s) \<and> rank (step s) < rank s"
begin

lemma reaches: "invar s \<Longrightarrow> \<exists>n \<le> rank s. invar ((step ^^ n) s) \<and> goal ((step ^^ n) s)"
proof (induction "rank s" arbitrary: s rule: less_induct)
  case less
  show ?case
  proof (cases "goal s")
    case True
    then show ?thesis using less.prems by (intro exI [of _ 0]) simp
  next
    case False
    then have p: "invar (step s)" "rank (step s) < rank s" using progress [OF less.prems] by auto
    then obtain n where "n \<le> rank (step s)" "invar ((step ^^ n) (step s))" "goal ((step ^^ n) (step s))"
      using less.hyps by blast
    then show ?thesis using p(2) by (intro exI [of _ "Suc n"]) (simp add: funpow_swap1)
  qed
qed

end

section \<open>Definitions\<close>

text \<open>What an accept thread does not change, and what it only adds to, until it waits for a client:
  \<^verbatim>\<open>mClientSocket\<close> and \<^verbatim>\<open>mPipe\<close> can be closed but not replaced.\<close>

definition v2_kept :: "V2Server \<Rightarrow> V2Server \<Rightarrow> bool" where
  "v2_kept s s' \<longleftrightarrow> mDevice s' = mDevice s \<and> mConfig s' = mConfig s \<and> mListenSocket s' = mListenSocket s \<and>
     prefix (v2_sent s) (v2_sent s') \<and> mClientSocket s' \<in> {mClientSocket s, None}"

definition v1_kept :: "V1Server \<Rightarrow> V1Server \<Rightarrow> bool" where
  "v1_kept s s' \<longleftrightarrow> mV1Device s' = mV1Device s \<and> prefix (v1_written s) (v1_written s') \<and> mPipe s' \<in> {mPipe s, None}"

text \<open>The client of the V2 server has gone, and the thread is not asked to stop: \<^verbatim>\<open>recv\<close> on its
  socket, or on none, reports the end of the stream or an error.\<close>

definition v2_client_gone :: "'w v2_api \<Rightarrow> V2Server \<Rightarrow> bool" where
  "v2_client_gone api s \<longleftrightarrow>
     (\<forall>w. \<not> v2_stop_requested api Accept_thread w) \<and>
     (\<forall>sock len w. sock \<in> {mClientSocket s, None} \<longrightarrow>
        (\<exists>r w'. sock_recv api sock len w = Some (r, w') \<and> r \<in> {Recv_zero, Recv_error}))"

fun v2_accept_rank :: "V2_pc \<Rightarrow> nat" where
  "v2_accept_rank B_Hello = 5"
| "v2_accept_rank B_Device = 4"
| "v2_accept_rank (B_Serve buf) = 3"
| "v2_accept_rank (B_Read buf) = 2"
| "v2_accept_rank B_Loop = 1"
| "v2_accept_rank pc = 0"

text \<open>The client of the V1 server has gone, the thread is not asked to stop, and pipes can be made.\<close>

definition v1_client_gone :: "'w v1_api \<Rightarrow> V1Server \<Rightarrow> bool" where
  "v1_client_gone api s \<longleftrightarrow>
     (\<forall>w. \<not> stop_requested api Accept_thread w) \<and>
     (\<forall>p w. p \<in> {mPipe s, None} \<longrightarrow> \<not> fst (PeekNamedPipe api p w)) \<and>
     (\<forall>name om pm n out inp t w. \<exists>p w'. CreateNamedPipeW api name om pm n out inp t w = (Some p, w'))"

fun v1_accept_rank :: "V1_pc \<Rightarrow> nat" where
  "v1_accept_rank A_Greet = 4"
| "v1_accept_rank A_Wait = 3"
| "v1_accept_rank A_Peek = 2"
| "v1_accept_rank A_Loop = 1"
| "v1_accept_rank pc = 0"

text \<open>A V2 client that has gone while the server was about to greet it, and a V1 client that has gone
  while the server was watching its pipe.\<close>

definition gone_v2_api :: "bytes list v2_api" where
  "gone_v2_api = sample_v2_api\<lparr>sock_recv := (\<lambda>_ _ w. Some (Recv_zero, w))\<rparr>"

definition gone_v2_ready :: "bytes list V2_sys" where
  "gone_v2_ready = V2_main_thread gone_v2_api (Main_call (Call_SetDevice DeviceInfo_init))
     (V2_accept_thread gone_v2_api (V2_accept_thread gone_v2_api (V2_running sample_config AlwaysSet 3 [])))"

definition gone_v1_api :: "unit v1_api" where
  "gone_v1_api = sample_v1_api\<lparr>PeekNamedPipe := (\<lambda>_ w. (False, w))\<rparr>"

definition gone_v1_ready :: "unit V1_sys" where
  "gone_v1_ready = V1_main_call gone_v1_api (Call_SetDevice DeviceInfo_init)
     (V1_accept_thread gone_v1_api (V1_accept_thread gone_v1_api (V1_accept_thread gone_v1_api (V1_Start ()))))"

section \<open>The V2 server\<close>

lemma v2_kept_refl [simp]: "v2_kept s s"
  by (simp add: v2_kept_def)

lemma V2_SendRaw_kept: "v2_kept s0 s \<Longrightarrow> v2_kept s0 (fst (snd (V2_SendRaw api n bs s w)))"
  by (auto simp: V2_SendRaw_def v2_kept_def Let_def split_beta split: option.splits)

lemma V2_accept_kept:
  assumes "v2_kept s0 (v2_srv y)" and "v2_acc y \<noteq> B_Accept" and "\<forall>w. \<not> v2_stop_requested api Accept_thread w"
  shows "v2_kept s0 (v2_srv (V2_accept_thread api y))"
proof -
  have console: "v2_kept s0 (s\<lparr>console := l\<rparr>) = v2_kept s0 s" for s l by (simp add: v2_kept_def)
  have "v2_kept s0 (fst (snd (V2_AcceptLoop_step api (v2_acc y) (v2_srv y) (v2_world y))))"
    using assms
    by (cases "v2_acc y") (simp_all add: V2_AcceptLoop_step_def V2_Send_Hello_def V2_Send_DeviceInfo_def
        V2_SendRaw_kept console split_beta split: option.split sum.split)
  then show ?thesis by (auto simp: V2_accept_thread_def split: prod.splits sum.splits)
qed

lemma V2_accept_inv: "V2_sys_inv y \<Longrightarrow> V2_sys_inv (V2_accept_thread api y)"
  using V2_step_effect [OF V2_step.accept, of y api] V2_effect_inv by (auto simp: V2_sys_inv_def)

lemma read_message_gone:
  assumes "v2_client_gone api s" and "sock \<in> {mClientSocket s, None}"
  shows "\<exists>e w'. read_message api sock buf w = Some (Inl e, buf, w')"
proof -
  obtain r w' where "sock_recv api sock (to_int32 sizeof_Header) w = Some (r, w')" "r \<in> {Recv_zero, Recv_error}"
    using assms unfolding v2_client_gone_def by blast
  then have "\<exists>e. ReadNBytes api sock 0 sizeof_Header buf w = Some (Inl e, buf, w')"
    by (subst ReadNBytes.simps) (auto simp: sizeof_Header_def)
  then show ?thesis by (auto simp: read_message_def)
qed

lemma V2_accept_rank:
  assumes "v2_client_gone api s" and "v2_kept s (v2_srv y)" and "V2_sys_inv y" and "v2_acc y \<noteq> B_Done" and "v2_acc y \<noteq> B_Accept"
  shows "v2_acc (V2_accept_thread api y) \<noteq> B_Done \<and>
    v2_accept_rank (v2_acc (V2_accept_thread api y)) < v2_accept_rank (v2_acc y)"
proof -
  obtain pc s' w' where st: "V2_AcceptLoop_step api (v2_acc y) (v2_srv y) (v2_world y) = (Inr pc, s', w')"
    using V2_accept_effect [of "v2_srv y" "v2_acc y" api "v2_world y"] assms(3) by (auto simp: V2_sys_inv_def)
  have s: "\<not> v2_stop_requested api Accept_thread w" for w using assms(1) by (simp add: v2_client_gone_def)
  have "pc \<noteq> B_Done \<and> v2_accept_rank pc < v2_accept_rank (v2_acc y)"
  proof (cases "v2_acc y")
    case (B_Read buf)
    then show ?thesis
      using st read_message_gone [OF assms(1), of "mClientSocket (v2_srv y)" buf "v2_world y"] assms(2)
      by (auto simp: V2_AcceptLoop_step_def v2_kept_def)
  next
    case B_Hello
    then show ?thesis
      using st by (cases "fst (V2_Send_Hello api (hello_message (mConfig (v2_srv y))) (v2_srv y) (v2_world y))")
        (auto simp: V2_AcceptLoop_step_def split_beta)
  next
    case B_Device
    then show ?thesis
      using st by (cases "fst (V2_Send_DeviceInfo api (the (mDevice (v2_srv y))) (v2_srv y) (v2_world y))")
        (auto simp: V2_AcceptLoop_step_def split_beta split: option.splits)
  qed (use st s assms(4,5) in \<open>auto simp: V2_AcceptLoop_step_def\<close>)
  then show ?thesis using st by (simp add: V2_accept_thread_def)
qed

interpretation v2_accepting: ranked_thread "V2_accept_thread api"
    "\<lambda>y. v2_client_gone api s \<and> V2_sys_inv y \<and> v2_acc y \<noteq> B_Done \<and> v2_kept s (v2_srv y)" "\<lambda>y. v2_acc y = B_Accept" "\<lambda>y. v2_accept_rank (v2_acc y)"
  for api :: "'w v2_api" and s :: V2Server
proof (unfold_locales, elim conjE)
  fix y :: "'w V2_sys" assume a: "v2_client_gone api s" "V2_sys_inv y" "v2_acc y \<noteq> B_Done" "v2_kept s (v2_srv y)" "v2_acc y \<noteq> B_Accept"
  have stop: "\<forall>w. \<not> v2_stop_requested api Accept_thread w" using a(1) unfolding v2_client_gone_def by (rule conjunct1)
  show "(v2_client_gone api s \<and> V2_sys_inv (V2_accept_thread api y) \<and> v2_acc (V2_accept_thread api y) \<noteq> B_Done \<and>
      v2_kept s (v2_srv (V2_accept_thread api y))) \<and> v2_accept_rank (v2_acc (V2_accept_thread api y)) < v2_accept_rank (v2_acc y)"
    using V2_accept_rank [OF a(1,4,2,3,5)] V2_accept_inv [OF a(2)] V2_accept_kept [OF a(4,5) stop] a(1) by simp
qed

section \<open>The V1 server\<close>

lemma v1_kept_refl [simp]: "v1_kept s s"
  by (simp add: v1_kept_def)

lemma V1_SendRaw_kept: "v1_kept s0 s \<Longrightarrow> v1_kept s0 (fst (snd (V1_SendRaw api n bs s w)))"
  by (auto simp: V1_SendRaw_def v1_kept_def Let_def split_beta split: option.splits)

lemma V1_accept_kept:
  assumes "v1_kept s0 (srv y)" and "\<forall>p. acc y \<noteq> A_Connect p"
  shows "v1_kept s0 (srv (V1_accept_thread api y))"
proof -
  have reset: "v1_kept s0 (fst (V1_reset_pipe api (srv y) w))" for w using assms(1) by (simp add: v1_kept_def)
  have "v1_kept s0 (fst (snd (V1_AcceptLoop_step api (acc y) (srv y) (world y))))"
    using assms
    by (cases "acc y") (simp_all add: V1_AcceptLoop_step_def V1_Send_DeviceInfo_def V1_SendRaw_kept reset Let_def split_beta split: option.split)
  then show ?thesis by (auto simp: V1_accept_thread_def split: prod.splits sum.splits)
qed

lemma v1_client_goneD:
  assumes "v1_client_gone api s"
  shows "\<not> stop_requested api Accept_thread w"
    and "p \<in> {mPipe s, None} \<Longrightarrow> \<not> fst (PeekNamedPipe api p w)"
    and "\<exists>p w'. CreateNamedPipeW api name om pm n out inp t w = (Some p, w')"
  using assms unfolding v1_client_gone_def by (simp, blast, simp)

lemma V1_accept_rank:
  assumes "v1_client_gone api s" and "v1_kept s (srv y)" and "V1_sys_inv y" and "\<not> terminated y" and "acc y \<noteq> A_Done"
    and "\<forall>p. acc y \<noteq> A_Connect p"
  shows "acc (V1_accept_thread api y) \<noteq> A_Done \<and> \<not> terminated (V1_accept_thread api y) \<and>
    v1_accept_rank (acc (V1_accept_thread api y)) < v1_accept_rank (acc y)"
proof -
  obtain p w' where w': "CreateNamedPipeW api NamedPipePathW [PIPE_ACCESS_DUPLEX, FILE_FLAG_FIRST_PIPE_INSTANCE]
      [PIPE_TYPE_MESSAGE, PIPE_READMODE_MESSAGE, PIPE_WAIT, PIPE_REJECT_REMOTE_CLIENTS] 1 8192 0 0 (world y) = (Some p, w')"
    using v1_client_goneD(3) [OF assms(1)] by blast
  have g: "\<not> stop_requested api Accept_thread (world y)" "\<not> fst (PeekNamedPipe api (mPipe (srv y)) (world y))"
    using v1_client_goneD(1,2) [OF assms(1)] assms(2) by (auto simp: v1_kept_def)
  have d: "\<exists>b s' w'. V1_Send_DeviceInfo api (mV1Device (srv y)) (srv y) (world y) = (Inr b, s', w')" if "v1_isValid (mV1Device (srv y))"
    using V1_Send_DeviceInfo_sent [of "mV1Device (srv y)" api "srv y" "world y"] assms(3) that
    unfolding V1_sys_inv_def V1_srv_inv_def by blast
  show ?thesis
  proof (cases "acc y")
    case A_Greet
    then show ?thesis using d assms(4) by (auto simp: V1_accept_thread_def V1_AcceptLoop_step_def)
  next
    case A_Loop
    then show ?thesis using assms(4) g(1) w' by (simp add: V1_accept_thread_def V1_AcceptLoop_step_def)
  next
    case A_Wait
    then show ?thesis using assms(4) g(1) by (simp add: V1_accept_thread_def V1_AcceptLoop_step_def split_beta)
  next
    case A_Peek
    then show ?thesis using assms(4) g(2) by (simp add: V1_accept_thread_def V1_AcceptLoop_step_def split_beta)
  qed (use assms(5,6) in simp_all)
qed

interpretation v1_accepting: ranked_thread "V1_accept_thread api"
    "\<lambda>y. v1_client_gone api s \<and> V1_sys_inv y \<and> \<not> terminated y \<and> acc y \<noteq> A_Done \<and> v1_kept s (srv y)"
    "\<lambda>y. \<exists>p. acc y = A_Connect p" "\<lambda>y. v1_accept_rank (acc y)"
  for api :: "'w v1_api" and s :: V1Server
proof (unfold_locales, elim conjE)
  fix y :: "'w V1_sys" assume a: "v1_client_gone api s" "V1_sys_inv y" "\<not> terminated y" "acc y \<noteq> A_Done" "v1_kept s (srv y)" "\<nexists>p. acc y = A_Connect p"
  then have n: "\<forall>p. acc y \<noteq> A_Connect p" by simp
  show "(v1_client_gone api s \<and> V1_sys_inv (V1_accept_thread api y) \<and> \<not> terminated (V1_accept_thread api y) \<and>
      acc (V1_accept_thread api y) \<noteq> A_Done \<and> v1_kept s (srv (V1_accept_thread api y))) \<and>
      v1_accept_rank (acc (V1_accept_thread api y)) < v1_accept_rank (acc y)"
    using V1_accept_rank [OF a(1,5,2,3,4) n] V1_step_inv [OF V1_step.accept [OF a(3)] a(2), of api] V1_accept_kept [OF a(5) n] a(1) by simp
qed

lemma V1_greeting_steps:
  assumes "\<not> terminated y" and "V1_sys_inv y" and "acc y = A_Connect p" and "v1_isValid (mV1Device (srv y))"
    and "ConnectNamedPipe api p (world y) = Some (True, w1)" and "\<And>data w. fst (fst (WriteFile api p data w))"
  shows "\<exists>pad. v1_written (srv ((V1_accept_thread api ^^ 2) y)) = v1_written (srv y) @
      [(p, struct_bytes pad (V1_DeviceInfo_fields (mV1Device (srv y))))] \<and>
    acc ((V1_accept_thread api ^^ 2) y) = A_Wait \<and> mPipe (srv ((V1_accept_thread api ^^ 2) y)) = Some p"
proof -
  obtain s0 w0 where r0: "V1_reset_pipe api (srv y) w1 = (s0, w0)" by fastforce
  then have s0: "mV1Device s0 = mV1Device (srv y)" "v1_written s0 = v1_written (srv y)"
    using V1_reset_pipe_simps [of api "srv y" w1] by simp_all
  let ?d = "mV1Device (srv y)" and ?s = "s0\<lparr>mPipe := Some p\<rparr>"
  let ?bs = "struct_bytes (v1_padding api w0) (V1_DeviceInfo_fields ?d)"
  have "wf_V1_DeviceInfo ?d" "v1_size ?d = word_of_nat sizeof_V1_DeviceInfo"
    using assms(2,4) unfolding V1_sys_inv_def V1_srv_inv_def by blast+
  then have l: "unat (v1_size ?d) = length ?bs" by (simp add: layout_simps unat_sizeof_v1)
  obtain b n w2 where wr: "WriteFile api p ?bs w0 = ((b, n), w2)" by (metis surj_pair)
  with assms(6) have "b" by (metis fst_conv)
  with wr l have send: "\<exists>r. V1_Send_DeviceInfo api ?d ?s w0 = (Inr r, ?s\<lparr>v1_written := v1_written ?s @ [(p, ?bs)]\<rparr>, w2)"
    by (auto simp: V1_Send_DeviceInfo_def V1_SendRaw_def)
  have y1: "V1_accept_thread api y = y\<lparr>srv := ?s, world := w0, acc := A_Greet\<rparr>"
    by (simp add: V1_accept_thread_def V1_AcceptLoop_step_def assms(3,5) r0)
  have "V1_accept_thread api (V1_accept_thread api y) =
      y\<lparr>srv := ?s\<lparr>v1_written := v1_written ?s @ [(p, ?bs)]\<rparr>, world := w2, acc := A_Wait\<rparr>"
    unfolding y1 using send assms(4) s0(1) by (auto simp: V1_accept_thread_def V1_AcceptLoop_step_def)
  then show ?thesis using s0(2) by (auto simp: numeral_2_eq_2)
qed

section \<open>Sample systems\<close>

lemma gone_v2_api_gone: "v2_client_gone gone_v2_api s"
  by (simp add: v2_client_gone_def gone_v2_api_def sample_v2_api_def)

lemma gone_v1_api_gone: "v1_client_gone gone_v1_api s"
  by (simp add: v1_client_gone_def gone_v1_api_def sample_v1_api_def)

lemma gone_v2_served:
  "V2_accept_thread gone_v2_api (V2_accept_thread gone_v2_api (V2_running sample_config AlwaysSet 3 [])) =
     \<lparr>v2_srv = (V2Server_init sample_config AlwaysSet)\<lparr>mListenSocket := Some 3, mClientSocket := Some 7\<rparr>,
      v2_acc = B_Hello, v2_png = Q_Loop, v2_world = [], v2_terminated = False\<rparr>"
  by (simp add: gone_v2_api_def sample_v2_api_def V2_accept_thread_def V2_AcceptLoop_step_def V2_running_def V2_reset_client_def V2Server_init_def)

lemma gone_v2_ready_state:
  "v2_acc gone_v2_ready = B_Hello" "mDevice (v2_srv gone_v2_ready) = Some (V2_device_of DeviceInfo_init)"
  "mConfig (v2_srv gone_v2_ready) = sample_config"
proof -
  let ?s = "(V2Server_init sample_config AlwaysSet)\<lparr>mListenSocket := Some 3, mClientSocket := Some 7\<rparr>"
  obtain s' w' where "V2_SetDevice gone_v2_api DeviceInfo_init ?s [] = (Inr (), s', w')"
    "V2_sent_one (struct_bytes (v2_padding gone_v2_api []) (DeviceInfo_fields (V2_device_of DeviceInfo_init)))
       (?s\<lparr>mDevice := Some (V2_device_of DeviceInfo_init)\<rparr>) s'"
    using V2_SetDevice_sent [of DeviceInfo_init gone_v2_api ?s "[]"] by auto
  then show "v2_acc gone_v2_ready = B_Hello" "mDevice (v2_srv gone_v2_ready) = Some (V2_device_of DeviceInfo_init)"
    "mConfig (v2_srv gone_v2_ready) = sample_config"
    unfolding gone_v2_ready_def gone_v2_served by (simp_all add: V2_main_thread_def V2_main_def V2_handler_def V2_sent_one_def V2Server_init_def)
qed

lemma gone_v2_ready_reachable: "V2_reachable gone_v2_api sample_config AlwaysSet 3 3 gone_v2_ready"
  unfolding gone_v2_ready_def numeral_3_eq_3
  by (intro V2_reachable.step [OF _ V2_step.main] V2_reachable.step [OF _ V2_step.accept] V2_reachable.start)
    (simp_all add: V2_accept_thread_def V2_AcceptLoop_step_def V2_running_def V2_reset_client_def V2Server_init_def gone_v2_api_def sample_v2_api_def)

lemma gone_v1_served:
  "V1_accept_thread gone_v1_api (V1_accept_thread gone_v1_api (V1_accept_thread gone_v1_api (V1_Start ()))) =
     \<lparr>srv = V1Server_init\<lparr>mPipe := Some 1\<rparr>, acc = A_Wait, png = P_Loop, world = (), terminated = False\<rparr>"
  by (simp add: gone_v1_api_def V1_run_defs sample_v1_api_def V1_DeviceInfo_zero_def)

lemma gone_v1_ready_state:
  "acc gone_v1_ready = A_Wait" "\<not> terminated gone_v1_ready" "mV1Device (srv gone_v1_ready) = V1_device_of gone_v1_api DeviceInfo_init"
proof -
  let ?s = "V1Server_init\<lparr>mPipe := Some 1\<rparr>"
  obtain s' w' where "V1_SetDevice gone_v1_api DeviceInfo_init ?s () = (Inr (), s', w')"
    "V1_sent (struct_bytes (v1_padding gone_v1_api ()) (V1_DeviceInfo_fields (V1_device_of gone_v1_api DeviceInfo_init)))
       (?s\<lparr>mV1Device := V1_device_of gone_v1_api DeviceInfo_init\<rparr>) s'"
    using V1_SetDevice_sent [of gone_v1_api DeviceInfo_init ?s "()"] by auto
  then show "acc gone_v1_ready = A_Wait" "\<not> terminated gone_v1_ready"
    "mV1Device (srv gone_v1_ready) = V1_device_of gone_v1_api DeviceInfo_init"
    unfolding gone_v1_ready_def gone_v1_served by (simp_all add: V1_main_call_def V1_handler_def V1_sent_def)
qed

lemma gone_v1_ready_reachable: "V1_reachable gone_v1_api 4 gone_v1_ready"
proof -
  have "V1_reachable gone_v1_api (Suc (Suc (Suc (Suc 0)))) gone_v1_ready"
    unfolding gone_v1_ready_def
    by (intro V1_reachable_thread V1_reachable.start) (simp_all add: V1_run_defs gone_v1_api_def sample_v1_api_def V1_DeviceInfo_zero_def)
  then show ?thesis by (simp add: numeral_eq_Suc)
qed

section \<open>Properties\<close>

text \<open>C10: the V2 server always gets to its next client.  From any state of its threads in which the
  accept thread has not returned, when the client being served has gone (its socket reports the end of
  the stream or an error), no stop is requested and \<^verbatim>\<open>accept\<close> gives a client whose
  sends succeed, at most eight steps of the accept thread leave the server serving that client, the last
  two messages sent being the hello message and the device, both to it.\<close>

theorem V2_serves_next_client:
  assumes "V2_reachable api config db l n y" and "v2_acc y \<noteq> B_Done" and "v2_client_gone api (v2_srv y)"
    and "mDevice (v2_srv y) = Some d"
    and "\<And>w. \<exists>w'. sock_accept api (mListenSocket (v2_srv y)) w = Some (Some c, w')"
    and "\<And>data w. fst (sock_send api c data w) \<noteq> SOCKET_ERROR"
  shows "\<exists>k \<le> 8. let z = (V2_accept_thread api ^^ k) y in
    v2_acc z = B_Serve (replicate 1024 0) \<and>
    (\<exists>before hello dev. v2_sent (v2_srv z) = before @ [(c, hello), (c, dev)] \<and> prefix (v2_sent (v2_srv y)) before \<and>
       Hello_at hello = hello_message (mConfig (v2_srv y)) \<and> DeviceInfo_at dev = d)"
proof -
  have "V2_sys_inv y" using assms(1) by (rule V2_reachable_inv)
  then obtain k where k: "k \<le> v2_accept_rank (v2_acc y)" and
      x: "V2_sys_inv ((V2_accept_thread api ^^ k) y)" "v2_kept (v2_srv y) (v2_srv ((V2_accept_thread api ^^ k) y))"
        "v2_acc ((V2_accept_thread api ^^ k) y) = B_Accept"
    using v2_accepting.reaches [of api "v2_srv y" y] assms(2,3) by auto
  let ?x = "(V2_accept_thread api ^^ k) y"
  obtain w1 where acc: "sock_accept api (mListenSocket (v2_srv ?x)) (v2_world ?x) = Some (Some c, w1)"
    using assms(5) x(2) unfolding v2_kept_def by metis
  have dev: "mDevice (v2_srv ?x) = Some d" "mConfig (v2_srv ?x) = mConfig (v2_srv y)"
    using x(2) assms(4) by (simp_all add: v2_kept_def)
  moreover have t: "\<not> v2_terminated ?x" and ok: "V2_device_ok d"
    using x(1) dev(1) by (simp_all add: V2_sys_inv_def V2_srv_inv_def)
  ultimately obtain pad1 pad2 where z:
    "v2_sent (v2_srv ((V2_accept_thread api ^^ 3) ?x)) = v2_sent (v2_srv ?x) @
      [(c, struct_bytes pad1 (Hello_fields (hello_message (mConfig (v2_srv y))))), (c, struct_bytes pad2 (DeviceInfo_fields d))]"
    "v2_acc ((V2_accept_thread api ^^ 3) ?x) = B_Serve (replicate 1024 0)"
    using V2_greeting_steps [OF t x(3) dev(1) ok acc assms(6)] by auto
  have "k + 3 \<le> 8" using k by (cases "v2_acc y") auto
  moreover have "Hello_at (struct_bytes pad1 (Hello_fields (hello_message K))) = hello_message K" for K
    using Hello_at_bytes [of "hello_message K" pad1 "[]"] by simp
  moreover have "DeviceInfo_at (struct_bytes pad2 (DeviceInfo_fields d)) = d"
    using DeviceInfo_at_bytes [of d pad2 "[]"] ok by (simp add: V2_device_ok_def)
  moreover have "(V2_accept_thread api ^^ (k + 3)) y = (V2_accept_thread api ^^ 3) ?x"
    by (metis add.commute comp_apply funpow_add)
  ultimately show ?thesis using z x(2) unfolding Let_def v2_kept_def by metis
qed

theorem V2_serves_next_client_witness:
  "\<exists>k \<le> 8. let z = (V2_accept_thread gone_v2_api ^^ k) gone_v2_ready in
    v2_acc z = B_Serve (replicate 1024 0) \<and>
    (\<exists>before hello dev. v2_sent (v2_srv z) = before @ [(7, hello), (7, dev)] \<and> prefix (v2_sent (v2_srv gone_v2_ready)) before \<and>
       Hello_at hello = hello_message sample_config \<and> DeviceInfo_at dev = V2_device_of DeviceInfo_init)"
  using V2_serves_next_client [OF gone_v2_ready_reachable _ gone_v2_api_gone gone_v2_ready_state(2), of 7]
  by (simp add: gone_v2_ready_state) (simp add: gone_v2_api_def sample_v2_api_def SOCKET_ERROR_def)

text \<open>C11: the V1 server always gets to its next client.  From any state of its threads in which the
  accept thread has not returned, when the client being served has gone (its pipe cannot be peeked), the device is known, no
  stop is requested, pipes can be made, a client connects and writes to its pipe succeed, at most six
  steps of the accept thread leave the server watching that client's pipe, the last message written
  being the device, to that pipe.\<close>

theorem V1_serves_next_client:
  assumes "V1_reachable api n y" and "\<not> terminated y" and "acc y \<noteq> A_Done" and "v1_client_gone api (srv y)"
    and "v1_isValid (mV1Device (srv y))"
    and "\<And>p w. \<exists>w'. ConnectNamedPipe api p w = Some (True, w')"
    and "\<And>p data w. fst (fst (WriteFile api p data w))"
  shows "\<exists>k \<le> 6. let z = (V1_accept_thread api ^^ k) y in
    acc z = A_Wait \<and>
    (\<exists>p before dev. mPipe (srv z) = Some p \<and> v1_written (srv z) = before @ [(p, dev)] \<and>
       prefix (v1_written (srv y)) before \<and> V1_DeviceInfo_at dev = mV1Device (srv y))"
proof -
  have "V1_sys_inv y" using assms(1) by (rule V1_reachable_inv)
  then obtain k p where k: "k \<le> v1_accept_rank (acc y)" and
      x: "V1_sys_inv ((V1_accept_thread api ^^ k) y)" "\<not> terminated ((V1_accept_thread api ^^ k) y)"
        "v1_kept (srv y) (srv ((V1_accept_thread api ^^ k) y))" "acc ((V1_accept_thread api ^^ k) y) = A_Connect p"
    using v1_accepting.reaches [of api "srv y" y] assms(2-4) by auto
  let ?x = "(V1_accept_thread api ^^ k) y"
  obtain w1 where c: "ConnectNamedPipe api p (world ?x) = Some (True, w1)" using assms(6) by blast
  have dev: "mV1Device (srv ?x) = mV1Device (srv y)" using x(3) by (simp add: v1_kept_def)
  with assms(5) have v: "v1_isValid (mV1Device (srv ?x))" by simp
  obtain pad where z:
    "v1_written (srv ((V1_accept_thread api ^^ 2) ?x)) = v1_written (srv ?x) @ [(p, struct_bytes pad (V1_DeviceInfo_fields (mV1Device (srv y))))]"
    "acc ((V1_accept_thread api ^^ 2) ?x) = A_Wait" "mPipe (srv ((V1_accept_thread api ^^ 2) ?x)) = Some p"
    using V1_greeting_steps [OF x(2,1,4) v c assms(7)] dev by auto
  have "k + 2 \<le> 6" using k by (cases "acc y") auto
  moreover have "V1_DeviceInfo_at (struct_bytes pad (V1_DeviceInfo_fields (mV1Device (srv y)))) = mV1Device (srv y)"
    using V1_DeviceInfo_at_bytes [of "mV1Device (srv y)" pad "[]"] \<open>V1_sys_inv y\<close> by (simp add: V1_sys_inv_def V1_srv_inv_def)
  moreover have "(V1_accept_thread api ^^ (k + 2)) y = (V1_accept_thread api ^^ 2) ?x"
    by (metis add.commute comp_apply funpow_add)
  ultimately show ?thesis using z x(3) unfolding Let_def v1_kept_def by metis
qed

theorem V1_serves_next_client_witness:
  "\<exists>k \<le> 6. let z = (V1_accept_thread gone_v1_api ^^ k) gone_v1_ready in
    acc z = A_Wait \<and>
    (\<exists>p before dev. mPipe (srv z) = Some p \<and> v1_written (srv z) = before @ [(p, dev)] \<and>
       prefix (v1_written (srv gone_v1_ready)) before \<and> V1_DeviceInfo_at dev = V1_device_of gone_v1_api DeviceInfo_init)"
  using V1_serves_next_client [OF gone_v1_ready_reachable gone_v1_ready_state(2) _ gone_v1_api_gone]
  by (simp add: gone_v1_ready_state) (simp add: gone_v1_api_def sample_v1_api_def V1_device_of_def)

end
