(* ===== verification/PktDef.thy ===== *)
theory PktDef
  imports WintabTablet
begin

text \<open>
  Packets.  \<^verbatim>\<open>include/wintab/PKTDEF.H\<close> declares the struct of a packet from \<^verbatim>\<open>PACKETDATA\<close> by a chain of
  \<^verbatim>\<open>#if\<close>, one for each bit of the mask; a driver stores the members that go with the mask the context
  was opened for.  This theory has the chain for any mask, and relates it to the struct \<open>PACKET\<close> that
  it gives for the adapter's mask and to what the adapter reads from a packet.
\<close>

section \<open>Masks and members\<close>

definition PK_CONTEXT :: u32 where "PK_CONTEXT = 0x0001"

definition PK_STATUS :: u32 where "PK_STATUS = 0x0002"

definition PK_TIME :: u32 where "PK_TIME = 0x0004"

definition PK_SERIAL_NUMBER :: u32 where "PK_SERIAL_NUMBER = 0x0010"

definition PK_CURSOR :: u32 where "PK_CURSOR = 0x0020"

definition PK_TANGENT_PRESSURE :: u32 where "PK_TANGENT_PRESSURE = 0x0800"

definition PK_ORIENTATION :: u32 where "PK_ORIENTATION = 0x1000"

definition PK_ROTATION :: u32 where "PK_ROTATION = 0x2000"

definition PKEXT_ABSOLUTE :: u32 where "PKEXT_ABSOLUTE = 1"

definition PKEXT_RELATIVE :: u32 where "PKEXT_RELATIVE = 2"

record ORIENTATION =
  orAzimuth :: u32
  orAltitude :: u32
  orTwist :: u32

definition ORIENTATION_fields :: "ORIENTATION \<Rightarrow> cfield list" where
  "ORIENTATION_fields r = [U32 (orAzimuth r), U32 (orAltitude r), U32 (orTwist r)]"

record ROTATION =
  roPitch :: u32
  roRoll :: u32
  roYaw :: u32

definition ROTATION_fields :: "ROTATION \<Rightarrow> cfield list" where
  "ROTATION_fields r = [U32 (roPitch r), U32 (roRoll r), U32 (roYaw r)]"

record TILT =
  tiltX :: u32
  tiltY :: u32

definition TILT_fields :: "TILT \<Rightarrow> cfield list" where
  "TILT_fields r = [U32 (tiltX r), U32 (tiltY r)]"

text \<open>Everything a packet can report: one value for each member of the struct with all of its members.\<close>

record tablet_report =
  rContext :: u64
  rStatus :: u32
  rTime :: u32
  rChanged :: u32
  rSerialNumber :: u32
  rCursor :: u32
  rButtons :: u32
  rX :: u32
  rY :: u32
  rZ :: u32
  rNormalPressure :: u32
  rTangentPressure :: u32
  rOrientation :: ORIENTATION
  rRotation :: ROTATION
  rFKeys :: u32
  rTilt :: TILT

definition pk_if :: "bool \<Rightarrow> cfield list \<Rightarrow> cfield list" where
  "pk_if b fs = (if b then fs else [])"

text \<open>
  The members for a mask, in the order of the chain.  The mode only decides between \<^verbatim>\<open>int\<close> and
  \<^verbatim>\<open>UINT\<close>, which have the same bits.  A nested struct is laid out as its members, which have its alignment.
  A macro that is not defined counts as 0 in \<^verbatim>\<open>#if\<close>.
\<close>

definition pk_extension :: "u32 \<Rightarrow> bool" where
  "pk_extension ext \<longleftrightarrow> ext = PKEXT_RELATIVE \<or> ext = PKEXT_ABSOLUTE"

definition packet_fields :: "nat \<Rightarrow> u32 \<Rightarrow> u32 \<Rightarrow> u32 \<Rightarrow> tablet_report \<Rightarrow> cfield list" where
  "packet_fields arch data PACKETFKEYS PACKETTILT v =
     pk_if (data AND PK_CONTEXT \<noteq> 0) [handle_field arch (rContext v)] @
     pk_if (data AND PK_STATUS \<noteq> 0) [U32 (rStatus v)] @
     pk_if (data AND PK_TIME \<noteq> 0) [U32 (rTime v)] @
     pk_if (data AND PK_CHANGED \<noteq> 0) [U32 (rChanged v)] @
     pk_if (data AND PK_SERIAL_NUMBER \<noteq> 0) [U32 (rSerialNumber v)] @
     pk_if (data AND PK_CURSOR \<noteq> 0) [U32 (rCursor v)] @
     pk_if (data AND PK_BUTTONS \<noteq> 0) [U32 (rButtons v)] @
     pk_if (data AND PK_X \<noteq> 0) [U32 (rX v)] @
     pk_if (data AND PK_Y \<noteq> 0) [U32 (rY v)] @
     pk_if (data AND PK_Z \<noteq> 0) [U32 (rZ v)] @
     pk_if (data AND PK_NORMAL_PRESSURE \<noteq> 0) [U32 (rNormalPressure v)] @
     pk_if (data AND PK_TANGENT_PRESSURE \<noteq> 0) [U32 (rTangentPressure v)] @
     pk_if (data AND PK_ORIENTATION \<noteq> 0) (ORIENTATION_fields (rOrientation v)) @
     pk_if (data AND PK_ROTATION \<noteq> 0) (ROTATION_fields (rRotation v)) @
     pk_if (pk_extension PACKETFKEYS) [U32 (rFKeys v)] @
     pk_if (pk_extension PACKETTILT) (TILT_fields (rTilt v))"

text \<open>
  The struct of an extension packet: a base and the data of the extensions whose macro is defined.
  The data structs have alignment 4, so nothing is between them.
\<close>

record SLIDERDATA =
  sl_nTablet :: "8 word"
  sl_nControl :: "8 word"
  nMode :: "8 word"
  sl_nReserved :: "8 word"
  nPosition :: u32

definition SLIDERDATA_fields :: "SLIDERDATA \<Rightarrow> cfield list" where
  "SLIDERDATA_fields k = [U8 (sl_nTablet k), U8 (sl_nControl k), U8 (nMode k), U8 (sl_nReserved k), U32 (nPosition k)]"

definition packetext_bytes ::
  "(nat \<Rightarrow> byte) \<Rightarrow> nat \<Rightarrow> u32 \<Rightarrow> u32 \<Rightarrow> u32 \<Rightarrow> EXTENSIONBASE \<Rightarrow> EXPKEYSDATA \<Rightarrow> SLIDERDATA \<Rightarrow> SLIDERDATA \<Rightarrow> bytes" where
  "packetext_bytes pad arch expkeys touchstrip touchring base k strip ring =
     struct_bytes pad (EXTENSIONBASE_fields arch base) @
     (if pk_extension expkeys then struct_bytes pad (EXPKEYSDATA_fields k) else []) @
     (if pk_extension touchstrip then struct_bytes pad (SLIDERDATA_fields strip) else []) @
     (if pk_extension touchring then struct_bytes pad (SLIDERDATA_fields ring) else [])"

definition PACKETEXPKEYS :: u32 where "PACKETEXPKEYS = PKEXT_ABSOLUTE"

text \<open>The members the adapter's struct has, and the bits of a mask that stand for others.\<close>

definition packet_of :: "tablet_report \<Rightarrow> PACKET" where
  "packet_of v =
     \<lparr>pkChanged = rChanged v, pkButtons = rButtons v, pkX = rX v, pkY = rY v, pkZ = rZ v, pkNormalPressure = rNormalPressure v\<rparr>"

definition other_members :: u32 where
  "other_members =
     PK_CONTEXT OR PK_STATUS OR PK_TIME OR PK_SERIAL_NUMBER OR PK_CURSOR OR PK_TANGENT_PRESSURE OR PK_ORIENTATION OR PK_ROTATION"

definition sample_report :: tablet_report where
  "sample_report =
     \<lparr>rContext = 5, rStatus = 0, rTime = 0, rChanged = PK_X OR PK_Y, rSerialNumber = 0, rCursor = 0, rButtons = 0, rX = 300, rY = 500,
      rZ = 0, rNormalPressure = 0, rTangentPressure = 0, rOrientation = \<lparr>orAzimuth = 0, orAltitude = 0, orTwist = 0\<rparr>,
      rRotation = \<lparr>roPitch = 0, roRoll = 0, roYaw = 0\<rparr>, rFKeys = 0, rTilt = \<lparr>tiltX = 0, tiltY = 0\<rparr>\<rparr>"

definition sample_slider :: SLIDERDATA where
  "sample_slider = \<lparr>sl_nTablet = 0, sl_nControl = 0, nMode = 0, sl_nReserved = 0, nPosition = 0\<rparr>"

section \<open>Lemmas\<close>

lemmas pk_bits =
  PK_CONTEXT_def PK_STATUS_def PK_TIME_def PK_CHANGED_def PK_SERIAL_NUMBER_def PK_CURSOR_def PK_BUTTONS_def PK_X_def PK_Y_def
  PK_Z_def PK_NORMAL_PRESSURE_def PK_TANGENT_PRESSURE_def PK_ORIENTATION_def PK_ROTATION_def

lemma fields_size: "off + sum_list (map fsize fs) \<le> end_offset off fs"
proof (induction fs arbitrary: off)
  case (Cons f fs)
  show ?case
    using Cons [of "align_up (falign f) off + fsize f"] falign_align_up_ge [of off f]
    unfolding end_offset.simps list.map sum_list.Cons by linarith
qed simp

lemma struct_size: "sum_list (map fsize fs) \<le> length (struct_bytes pad fs)"
proof -
  have "end_offset 0 fs \<le> length (struct_bytes pad fs)" by (simp add: struct_bytes_def length_struct_body)
  then show ?thesis using fields_size [of 0 fs] by simp
qed

lemma pk_if_simps [simp]: "pk_if True fs = fs" "pk_if False fs = []"
  by (simp_all add: pk_if_def)

lemma PACKETDATA_has:
  "(PACKETDATA OR m) AND PK_CHANGED \<noteq> 0" "(PACKETDATA OR m) AND PK_BUTTONS \<noteq> 0" "(PACKETDATA OR m) AND PK_X \<noteq> 0"
  "(PACKETDATA OR m) AND PK_Y \<noteq> 0" "(PACKETDATA OR m) AND PK_Z \<noteq> 0" "(PACKETDATA OR m) AND PK_NORMAL_PRESSURE \<noteq> 0"
  "(PACKETDATA OR m) AND PK_CONTEXT = m AND PK_CONTEXT" "(PACKETDATA OR m) AND PK_STATUS = m AND PK_STATUS"
  "(PACKETDATA OR m) AND PK_TIME = m AND PK_TIME" "(PACKETDATA OR m) AND PK_SERIAL_NUMBER = m AND PK_SERIAL_NUMBER"
  "(PACKETDATA OR m) AND PK_CURSOR = m AND PK_CURSOR" "(PACKETDATA OR m) AND PK_TANGENT_PRESSURE = m AND PK_TANGENT_PRESSURE"
  "(PACKETDATA OR m) AND PK_ORIENTATION = m AND PK_ORIENTATION" "(PACKETDATA OR m) AND PK_ROTATION = m AND PK_ROTATION"
  by (simp_all add: PACKETDATA_def pk_bits bit.conj_disj_distrib2 or_eq_0_iff)

lemma other_members_iff:
  "m AND other_members = 0 \<longleftrightarrow>
     m AND PK_CONTEXT = 0 \<and> m AND PK_STATUS = 0 \<and> m AND PK_TIME = 0 \<and> m AND PK_SERIAL_NUMBER = 0 \<and> m AND PK_CURSOR = 0 \<and>
     m AND PK_TANGENT_PRESSURE = 0 \<and> m AND PK_ORIENTATION = 0 \<and> m AND PK_ROTATION = 0"
  unfolding other_members_def bit.conj_disj_distrib or_eq_0_iff by blast

lemma packet_fields_adapter:
  assumes "m AND other_members = 0"
  shows "packet_fields arch (PACKETDATA OR m) 0 0 v = PACKET_fields (packet_of v)"
  using assms unfolding other_members_iff
  by (simp add: packet_fields_def PACKETDATA_has pk_extension_def PKEXT_ABSOLUTE_def PKEXT_RELATIVE_def PACKET_fields_def packet_of_def)

lemma fsize_handle: "0 < fsize (handle_field arch h)"
  by (simp add: handle_field_def)

lemma packet_fields_larger:
  assumes "m AND other_members \<noteq> 0 \<or> pk_extension fkeys \<or> pk_extension tilt"
  shows "sizeof_PACKET < length (struct_bytes pad (packet_fields arch (PACKETDATA OR m) fkeys tilt v))"
proof -
  have "24 < sum_list (map fsize (packet_fields arch (PACKETDATA OR m) fkeys tilt v))"
    using assms fsize_handle [of arch "rContext v"] unfolding other_members_iff de_Morgan_conj
    by (auto simp: packet_fields_def PACKETDATA_has pk_if_def ORIENTATION_fields_def ROTATION_fields_def TILT_fields_def)
  then show ?thesis using struct_size [of "packet_fields arch (PACKETDATA OR m) fkeys tilt v" pad] by (simp add: sizeof_PACKET_def)
qed

lemma packetext_adapter:
  "packetext_bytes pad arch PACKETEXPKEYS 0 0 base k strip ring = PACKETEXT_bytes pad arch \<lparr>pkBase = base, pkExpKeys = k\<rparr>"
  by (simp add: packetext_bytes_def PACKETEXT_bytes_def pk_extension_def PACKETEXPKEYS_def PKEXT_ABSOLUTE_def PKEXT_RELATIVE_def)

lemma PACKETEXT_base_size: "arch = 32 \<or> arch = 64 \<Longrightarrow> sizeof (EXTENSIONBASE_fields arch b) = offsetof_pkExpKeys arch"
  by (auto simp: EXTENSIONBASE_fields_def handle_field_def offsetof_pkExpKeys_def sizeof_def struct_align_def align_up_def)

lemma EXPKEYSDATA_bytes: "struct_bytes pad (EXPKEYSDATA_fields k) = [nTablet k, nControl k, nLocation k, nReserved k] @ le_bytes 4 (unat (nState k))"
  by (simp add: EXPKEYSDATA_fields_def struct_bytes_def sizeof_def struct_align_def align_up_def)

lemma PACKETEXT_members:
  assumes "arch = 32 \<or> arch = 64"
  shows "length (PACKETEXT_bytes pad arch p) = sizeof_PACKETEXT arch"
    and "mem_u8 (offsetof_pkExpKeys arch + 1) (map Some (PACKETEXT_bytes pad arch p)) = Some (nControl (pkExpKeys p))"
    and "mem_u32 (offsetof_pkExpKeys arch + 4) (map Some (PACKETEXT_bytes pad arch p)) = Some (nState (pkExpKeys p))"
proof -
  let ?b = "struct_bytes pad (EXTENSIONBASE_fields arch (pkBase p))" and ?k = "pkExpKeys p"
  have l: "length ?b = offsetof_pkExpKeys arch" using PACKETEXT_base_size [OF assms] by simp
  show "length (PACKETEXT_bytes pad arch p) = sizeof_PACKETEXT arch"
    using l by (simp add: PACKETEXT_bytes_def sizeof_PACKETEXT_def EXPKEYSDATA_bytes del: length_struct_bytes)
  have "mem_slice (offsetof_pkExpKeys arch + n) m (PACKETEXT_bytes pad arch p) =
      take m (drop n ([nTablet ?k, nControl ?k, nLocation ?k, nReserved ?k] @ le_bytes 4 (unat (nState ?k))))" for n m
    using l by (simp add: PACKETEXT_bytes_def mem_slice_def EXPKEYSDATA_bytes del: length_struct_bytes)
  then have s: "mem_slice (offsetof_pkExpKeys arch + n) m (map Some (PACKETEXT_bytes pad arch p)) =
      map Some (take m (drop n ([nTablet ?k, nControl ?k, nLocation ?k, nReserved ?k] @ le_bytes 4 (unat (nState ?k)))))" for n m
    by (simp only: mem_slice_def drop_map take_map)
  show "mem_u8 (offsetof_pkExpKeys arch + 1) (map Some (PACKETEXT_bytes pad arch p)) = Some (nControl ?k)"
    unfolding mem_u8_def mem_bytes_def s by simp
  show "mem_u32 (offsetof_pkExpKeys arch + 4) (map Some (PACKETEXT_bytes pad arch p)) = Some (nState ?k)"
    unfolding mem_u32_def mem_bytes_def s using unsigned_less [of "nState ?k", where 'a = nat] by (simp add: le_nat_le_bytes list_all_iff)
qed

lemma ProcessMessageImpl_packetext:
  assumes "WTPacket api lParam (ucast wParam) w = (Some (PACKETEXT_bytes pad (arch_bits api) p), w1)" and "resolved t F_WTPacket"
    and "arch_bits api = 32 \<or> arch_bits api = 64"
  shows "ProcessMessageImpl api WT_PACKETEXT wParam lParam t w =
    (case express_key (nControl (pkExpKeys p)) (nState (pkExpKeys p)) (mState t) of
       Inl f \<Rightarrow> (Inl f, t, w1) | Inr st \<Rightarrow> (Inr True, t\<lparr>mState := st\<rparr>, w1))"
  using assms(1,2) PACKETEXT_members [OF assms(3), of pad p]
  by (simp add: ProcessMessageImpl_def mem_store_all WT_PACKET_def WT_PACKETEXT_def WT_PROXIMITY_def WT_CTXOVERLAP_def WT_DEFBASE_def)

lemma sample_wintab_arch: "arch_bits (sample_wintab_api b ctx q) = 64"
  and sample_wintab_packet: "WTPacket (sample_wintab_api b ctx q) c n w = (q, w)"
  by (simp_all add: sample_wintab_api_def)

section \<open>Properties\<close>

text \<open>C21: what the adapter reads depends on the mask of its context.  The adapter opens its context for
  \<^verbatim>\<open>PACKETDATA\<close> and the mask \<open>m\<close> of one of the driver's extensions.  When the driver stores the members that the
  header's chain gives for that mask, the adapter reads the reported values if \<open>m\<close> adds no member; if
  it adds one, the packet is larger than the struct it is stored to.\<close>

theorem packet_of_mask:
  assumes "WTPacket api lParam (ucast wParam) w = (Some (struct_bytes pad (packet_fields arch (PACKETDATA OR m) fkeys tilt v)), w1)"
    and "resolved t F_WTPacket"
  shows "ProcessMessageImpl api WT_PACKET wParam lParam t w =
    (if m AND other_members = 0 \<and> \<not> pk_extension fkeys \<and> \<not> pk_extension tilt
     then case packet_state (maxY (mDeviceInfo t)) (packet_of v) (mState t) of
            Inl f \<Rightarrow> (Inl f, t, w1) | Inr st \<Rightarrow> (Inr True, t\<lparr>mState := st\<rparr>, w1)
     else (Inl (UB Out_of_bounds_write), t, w1))"
proof (cases "m AND other_members = 0 \<and> \<not> pk_extension fkeys \<and> \<not> pk_extension tilt")
  case True
  then have "packet_fields arch (PACKETDATA OR m) fkeys tilt v = packet_fields arch (PACKETDATA OR m) 0 0 v"
    by (simp add: packet_fields_def pk_extension_def PKEXT_ABSOLUTE_def PKEXT_RELATIVE_def)
  with True have "packet_fields arch (PACKETDATA OR m) fkeys tilt v = PACKET_fields (packet_of v)"
    using packet_fields_adapter by simp
  then show ?thesis using True ProcessMessageImpl_packet [OF assms(2)] assms(1) by simp
next
  case False
  then have "sizeof_PACKET < length (struct_bytes pad (packet_fields arch (PACKETDATA OR m) fkeys tilt v))"
    using packet_fields_larger by blast
  then show ?thesis
    unfolding if_not_P [OF False] using assms by (simp add: ProcessMessageImpl_def WT_PACKET_def WT_PROXIMITY_def WT_CTXOVERLAP_def WT_DEFBASE_def)
qed

theorem packet_of_mask_witness:
  "fst (ProcessMessageImpl (sample_wintab_api True 5 (Some (struct_bytes (\<lambda>_. 0) (packet_fields 64 (PACKETDATA OR PK_TIME) 0 0 sample_report))))
      WT_PACKET 1 5 sample_tablet (None, 0, True)) = Inl (UB Out_of_bounds_write)"
  using packet_of_mask [of "sample_wintab_api True 5 (Some (struct_bytes (\<lambda>_. 0) (packet_fields 64 (PACKETDATA OR PK_TIME) 0 0 sample_report)))"
      5 1 "(None, 0, True)" "\<lambda>_. 0" 64 PK_TIME 0 0 sample_report "(None, 0, True)" sample_tablet]
  by (simp add: sample_wintab_api_def other_members_iff pk_bits)

text \<open>C22: express keys, from the packet to the state.  When the driver stores the extension packet that the
  header declares for \<^verbatim>\<open>PACKETEXPKEYS\<close>, a report for control \<open>k < 16\<close> sets bit \<open>k\<close> of the auxiliary buttons
  to whether the key is down and changes no other button; for the controls 16 to 31 no button changes
  at all, although the buttons are reported as valid.\<close>

theorem express_key_packet:
  assumes "WTPacket api lParam (ucast wParam) w =
      (Some (packetext_bytes pad (arch_bits api) PACKETEXPKEYS 0 0 base k strip ring), w1)"
    and "resolved t F_WTPacket" and "arch_bits api = 32 \<or> arch_bits api = 64" and "unat (nControl k) < 32"
  shows "\<exists>st'. ProcessMessageImpl api WT_PACKETEXT wParam lParam t w = (Inr True, t\<lparr>mState := st'\<rparr>, w1) \<and>
    HasData st' VM_AuxButtons \<and>
    (\<forall>j. bit (auxButtons st') j \<longleftrightarrow>
       (if j = unat (nControl k) \<and> unat (nControl k) < 16 then nState k \<noteq> 0 else bit (auxButtons (mState t)) j))"
proof -
  obtain st' where st': "express_key (nControl k) (nState k) (mState t) = Inr st'" using express_key_total [OF assms(4)] by blast
  have "HasData st' VM_AuxButtons" using express_key_bits(2) [OF assms(4) st'] by (simp add: HasData_bits bit_or_iff)
  then show ?thesis
    using ProcessMessageImpl_packetext [OF assms(1) [unfolded packetext_adapter] assms(2,3)] st' express_key_bits(1) [OF assms(4) st']
    by auto
qed

theorem express_key_packet_witness:
  "\<exists>st'. ProcessMessageImpl (sample_wintab_api True 5 (Some (packetext_bytes (\<lambda>_. 0) 64 PACKETEXPKEYS 0 0
        \<lparr>nContext = 5, nStatus = 0, nTime = 0, nSerialNumber = 1\<rparr>
        \<lparr>nTablet = 0, nControl = 3, nLocation = 0, nReserved = 0, nState = 1\<rparr> sample_slider sample_slider)))
      WT_PACKETEXT 1 5 sample_tablet (None, 0, True) = (Inr True, sample_tablet\<lparr>mState := st'\<rparr>, (None, 0, True)) \<and> bit (auxButtons st') 3"
  using express_key_packet [of "sample_wintab_api True 5 (Some (packetext_bytes (\<lambda>_. 0) 64 PACKETEXPKEYS 0 0
        \<lparr>nContext = 5, nStatus = 0, nTime = 0, nSerialNumber = 1\<rparr>
        \<lparr>nTablet = 0, nControl = 3, nLocation = 0, nReserved = 0, nState = 1\<rparr> sample_slider sample_slider))" 5 1 "(None, 0, True)" "\<lambda>_. 0"
      "\<lparr>nContext = 5, nStatus = 0, nTime = 0, nSerialNumber = 1\<rparr>"
      "\<lparr>nTablet = 0, nControl = 3, nLocation = 0, nReserved = 0, nState = 1\<rparr>" sample_slider sample_slider "(None, 0, True)" sample_tablet]
  by (auto simp: sample_wintab_arch sample_wintab_packet)

end
