(* ===== verification/Fix32.thy ===== *)
theory Fix32
  imports Adapter_Prelude
begin

text \<open>
  The fixed-point numbers of \<^verbatim>\<open>include/wintab/WINTAB.H\<close>, in which drivers report resolutions: 16 bits
  before the point and 16 behind it.  The macros compute on \<^verbatim>\<open>DWORD\<close>, where every operation wraps;
  \<^verbatim>\<open>HIWORD\<close> and \<^verbatim>\<open>LOWORD\<close> give 16 bits.
\<close>

section \<open>Definitions\<close>

type_synonym FIX32 = u32

definition FIX_INT :: "FIX32 \<Rightarrow> u16" where
  "FIX_INT x = ucast (drop_bit 16 x)"

definition FIX_FRAC :: "FIX32 \<Rightarrow> u16" where
  "FIX_FRAC x = ucast x"

text \<open>\<^verbatim>\<open>CASTFIX32\<close> of a \<^verbatim>\<open>long\<close>: the product is signed.\<close>

definition CASTFIX32 :: "int \<Rightarrow> FIX32 result" where
  "CASTFIX32 x =
     (if - (2 ^ 31) \<le> x * 65536 \<and> x * 65536 < 2 ^ 31 then Inr (word_of_int (x * 65536)) else Inl (UB Signed_overflow))"

text \<open>The sum of \<^verbatim>\<open>ROUND\<close> is an \<^verbatim>\<open>int\<close>.\<close>

definition FIX_ROUND :: "FIX32 \<Rightarrow> nat" where
  "FIX_ROUND x = unat (FIX_INT x) + (if 0x8000 < FIX_FRAC x then 1 else 0)"

definition FIX_MUL :: "FIX32 \<Rightarrow> FIX32 \<Rightarrow> FIX32" where
  "FIX_MUL a b =
     drop_bit 16 (ucast (FIX_FRAC a) * ucast (FIX_FRAC b)) +
     ucast (FIX_INT a) * ucast (FIX_FRAC b) +
     ucast (FIX_INT b) * ucast (FIX_FRAC a) +
     push_bit 16 (ucast (FIX_INT a) * ucast (FIX_INT b))"

text \<open>\<open>None\<close> is a division by zero.\<close>

definition FIX_DIV :: "FIX32 \<Rightarrow> FIX32 \<Rightarrow> FIX32 option" where
  "FIX_DIV a b =
     (if b = 0 then None
      else
        let temp = push_bit 16 (a div b);
            rem = a mod b;
            (rem1, btemp) = (if FIX_INT b < 256 then (push_bit 8 rem, b) else (rem, drop_bit 8 b));
            temp1 = temp + push_bit 8 (rem1 div btemp);
            rem2 = push_bit 8 (rem1 mod btemp)
        in Some (temp1 + rem2 div btemp))"

section \<open>Words as numbers\<close>

lemma unat_drop_bit: "unat (drop_bit n x :: u32) = unat x div 2 ^ n"
  using unsigned_less [of x, where ?'a = nat] unfolding unsigned_drop_bit_eq by (simp add: drop_bit_eq_div take_bit_nat_eq_self)

lemma unat_push_bit: "unat (push_bit n x :: u32) = (2 ^ n * unat x) mod 2 ^ 32"
  unfolding unsigned_push_bit_eq by (simp add: push_bit_eq_mult take_bit_eq_mod mult.commute)

lemmas unat_shifts =
  unat_drop_bit [of 8, simplified] unat_drop_bit [of 16, simplified] unat_push_bit [of 8, simplified] unat_push_bit [of 16, simplified]

lemma FIX_parts:
  "unat (FIX_INT x) = unat x div 65536" "unat (FIX_FRAC x) = unat x mod 65536"
  "unat (ucast (FIX_INT x) :: u32) = unat x div 65536" "unat (ucast (FIX_FRAC x) :: u32) = unat x mod 65536"
proof -
  have lt: "unat x div 65536 < 65536" using unsigned_less [of x, where ?'a = nat] by (simp add: less_mult_imp_div_less)
  show i: "unat (FIX_INT x) = unat x div 65536"
    using lt by (simp add: FIX_INT_def unsigned_ucast_eq unat_shifts take_bit_nat_eq_self)
  show f: "unat (FIX_FRAC x) = unat x mod 65536"
    by (simp add: FIX_FRAC_def unsigned_ucast_eq take_bit_eq_mod)
  show "unat (ucast (FIX_INT x) :: u32) = unat x div 65536"
    using i lt by (simp add: unsigned_ucast_eq take_bit_nat_eq_self)
  show "unat (ucast (FIX_FRAC x) :: u32) = unat x mod 65536"
    using f by (simp add: unsigned_ucast_eq take_bit_nat_eq_self)
qed

section \<open>Multiplication\<close>

lemma product_parts:
  fixes a b :: nat
  shows "(a mod 65536 * (b mod 65536)) div 65536 + a div 65536 * (b mod 65536) + b div 65536 * (a mod 65536) +
    65536 * (a div 65536 * (b div 65536)) = a * b div 65536"
proof -
  define A \<alpha> B \<beta> where d: "A = a div 65536" "\<alpha> = a mod 65536" "B = b div 65536" "\<beta> = b mod 65536"
  then have ab: "a = 65536 * A + \<alpha>" "b = 65536 * B + \<beta>" by simp_all
  have "a * b = \<alpha> * \<beta> + 65536 * (A * \<beta> + B * \<alpha> + 65536 * (A * B))" unfolding ab by (simp add: algebra_simps)
  then have "a * b div 65536 = \<alpha> * \<beta> div 65536 + (A * \<beta> + B * \<alpha> + 65536 * (A * B))" by simp
  then show ?thesis unfolding d [symmetric] by simp
qed

lemma unat_FIX_MUL: "unat (FIX_MUL a b) = (unat a * unat b div 65536) mod 2 ^ 32"
proof -
  have "unat a mod 65536 * (unat b mod 65536) \<le> 65535 * 65535" by (intro mult_mono) (simp_all flip: less_Suc_eq_le)
  then have "unat a mod 65536 * (unat b mod 65536) mod 2 ^ 32 = unat a mod 65536 * (unat b mod 65536)" by simp
  then have "unat (FIX_MUL a b) = (((unat a mod 65536 * (unat b mod 65536)) div 65536 + unat a div 65536 * (unat b mod 65536) +
      unat b div 65536 * (unat a mod 65536) + 65536 * (unat a div 65536 * (unat b div 65536)))) mod 2 ^ 32"
    unfolding FIX_MUL_def unat_word_ariths(1) unat_shifts unat_word_ariths(2) FIX_parts len_num1 by (simp add: mod_simps)
  then show ?thesis unfolding product_parts .
qed

section \<open>Division\<close>

text \<open>Long division, one digit to base \<open>k\<close>.\<close>

lemma scale_div:
  fixes k x b :: nat
  shows "k * x div b = k * (x div b) + k * (x mod b) div b"
proof (cases "b = 0")
  case False
  have "k * x = b * (k * (x div b)) + k * (x mod b)"
    by (metis add_mult_distrib2 div_mult_mod_eq mult.assoc mult.commute)
  then show ?thesis using False by simp
qed simp

lemma long_division:
  fixes a b :: nat
  shows "65536 * (a div b) + 256 * (256 * (a mod b) div b) + 256 * (256 * (a mod b) mod b) div b = 65536 * a div b"
  using scale_div [of 65536 a b] scale_div [of 256 "256 * (a mod b)" b] by simp

text \<open>Dividing by the upper 24 bits of a divisor of \<open>2 ^ 24\<close> or more instead.\<close>

lemma short_divisor:
  fixes r b :: nat
  assumes "r < b" and "2 ^ 24 \<le> b"
  shows "65536 * r div b \<le> 256 * r div (b div 256)" and "256 * r div (b div 256) \<le> Suc (65536 * r div b)"
proof -
  let ?t = "b div 256" and ?q = "65536 * r div b"
  have t: "65536 \<le> ?t" and b: "256 * ?t \<le> b" "b \<le> 256 * ?t + 255" using assms(2) by auto
  have "?q \<le> 65536 * r div (256 * ?t)" using b(1) t by (intro div_le_mono2) auto
  also have "65536 * r div (256 * ?t) = 256 * r div ?t"
    using div_mult_mult1 [of 256 "256 * r" ?t] by simp
  finally show "?q \<le> 256 * r div ?t" .
  have q: "?q < 65536" using assms by (simp add: less_mult_imp_div_less)
  have small: "255 * Suc q \<le> 256 * t" if "q < 65536" "65536 \<le> t" for q t :: nat
    using that by (intro mult_le_mono) simp_all
  have "65536 * r < Suc ?q * b" using assms(1) dividend_less_div_times [of b "65536 * r"] by simp
  also have "\<dots> \<le> Suc ?q * (256 * ?t + 255)" using b(2) by (rule mult_le_mono2)
  also have "\<dots> = 256 * (Suc ?q * ?t) + 255 * Suc ?q" by (simp add: algebra_simps)
  also have "\<dots> \<le> 256 * (Suc ?q * ?t) + 256 * ?t" using small [OF q t] by (rule add_left_mono)
  also have "\<dots> = 256 * (Suc (Suc ?q) * ?t)" by simp
  finally have "256 * r < Suc (Suc ?q) * ?t" by simp
  then have "256 * r div ?t < Suc (Suc ?q)" by (rule less_mult_imp_div_less)
  then show "256 * r div ?t \<le> Suc ?q" by simp
qed

lemma FIX_INT_small: "FIX_INT b < 256 \<longleftrightarrow> unat b < 2 ^ 24"
  by (simp add: word_less_nat_alt FIX_parts less_mult_imp_div_less div_less_iff_less_mult)

lemma mod_small_push:
  fixes x :: nat
  shows "x < 2 ^ 24 \<Longrightarrow> 256 * x mod 2 ^ 32 = 256 * x"
  by simp

lemma FIX_DIV_small:
  assumes "b \<noteq> 0" and "unat b < 2 ^ 24"
  shows "\<exists>c. FIX_DIV a b = Some c \<and> unat c = (65536 * unat a div unat b) mod 2 ^ 32"
proof -
  let ?r = "unat a mod unat b"
  have b: "0 < unat b" using assms(1) by (simp add: unat_gt_0)
  then have r: "?r < 2 ^ 24" "256 * ?r mod unat b < 2 ^ 24" using assms(2) by (meson less_trans mod_less_divisor)+
  have d: "256 * ?r div unat b < 2 ^ 24" using b mod_less_divisor [OF b, of "unat a"] by (simp add: less_mult_imp_div_less less_trans)
  let ?c = "push_bit 16 (a div b) + push_bit 8 (push_bit 8 (a mod b) div b) + push_bit 8 (push_bit 8 (a mod b) mod b) div b"
  have "unat ?c = (65536 * (unat a div unat b) + 256 * (256 * ?r div unat b) + 256 * (256 * ?r mod unat b) div unat b) mod 2 ^ 32"
    unfolding unat_word_ariths(1) unat_div unat_mod unat_shifts
    using mod_small_push [OF r(1)] mod_small_push [OF r(2)] mod_small_push [OF d] by (simp add: unat_div unat_mod unat_shifts mod_simps)
  then show ?thesis
    using assms unfolding long_division by (simp add: FIX_DIV_def FIX_INT_small Let_def)
qed

lemma FIX_DIV_large:
  assumes "2 ^ 24 \<le> unat b"
  shows "\<exists>c. FIX_DIV a b = Some c \<and> 65536 * unat a div unat b \<le> unat c \<and> unat c \<le> Suc (65536 * unat a div unat b)"
proof -
  let ?r = "unat a mod unat b" and ?t = "unat b div 256" and ?q = "unat a div unat b"
  have b: "0 < unat b" and nz: "b \<noteq> 0" using assms by auto
  have r: "?r < unat b" using b by simp
  have lt: "unat a < 2 ^ 32" "unat b < 2 ^ 32"
    using unsigned_less [of a, where ?'a = nat] unsigned_less [of b, where ?'a = nat] by simp_all
  have q: "?q < 256" using lt(1) assms by (simp add: less_mult_imp_div_less)
  have t: "?t < 2 ^ 24" "65536 \<le> ?t" using lt(2) assms by (simp_all add: less_mult_imp_div_less)
  note s = short_divisor [OF r assms]
  have e: "65536 * unat a div unat b = 65536 * ?q + 65536 * ?r div unat b" by (rule scale_div)
  have dr: "256 * ?r div ?t \<le> 65536"
    using s(2) less_mult_imp_div_less [of "65536 * ?r" 65536 "unat b"] r by simp
  then have d: "?r div ?t < 2 ^ 24" "65536 * ?q + 256 * ?r div ?t < 2 ^ 32"
    using scale_div [of 256 ?r ?t] q by simp_all
  have m: "?r mod ?t < 2 ^ 24" using t less_trans mod_less_divisor [of ?t ?r] by linarith
  let ?c = "push_bit 16 (a div b) + push_bit 8 ((a mod b) div drop_bit 8 b) + push_bit 8 ((a mod b) mod drop_bit 8 b) div drop_bit 8 b"
  have "unat ?c = (65536 * ?q + 256 * (?r div ?t) + 256 * (?r mod ?t) div ?t) mod 2 ^ 32"
    unfolding unat_word_ariths(1) unat_div unat_mod unat_shifts
    using mod_small_push [OF d(1)] mod_small_push [OF m] by (simp add: unat_div unat_mod unat_shifts mod_simps)
  also have "65536 * ?q + 256 * (?r div ?t) + 256 * (?r mod ?t) div ?t = 65536 * ?q + 256 * ?r div ?t"
    using scale_div [of 256 ?r ?t] by simp
  finally have "unat ?c = 65536 * ?q + 256 * ?r div ?t" using d(2) by simp
  moreover have "FIX_DIV a b = Some ?c" using nz assms by (simp add: FIX_DIV_def FIX_INT_small Let_def)
  ultimately show ?thesis unfolding e using s by simp
qed

section \<open>Conversions\<close>

text \<open>Rounding gives a nearest integer, the lower one of two.\<close>

theorem FIX_ROUND_nearest: "\<bar>int (FIX_ROUND x) * 65536 - int (unat x)\<bar> \<le> 32768"
proof -
  let ?i = "unat x div 65536" and ?f = "unat x mod 65536"
  have x: "int (unat x) = 65536 * int ?i + int ?f" by (metis mult_div_mod_eq of_nat_add of_nat_mult of_nat_numeral)
  have "0x8000 < FIX_FRAC x \<longleftrightarrow> 32768 < ?f" by (simp add: word_less_nat_alt FIX_parts)
  then have "int (FIX_ROUND x) * 65536 = 65536 * int ?i + (if 32768 < ?f then 65536 else 0)"
    by (simp add: FIX_ROUND_def FIX_parts)
  moreover have "int ?f < 65536" by simp
  ultimately show ?thesis unfolding x by (auto split: if_splits)
qed

text \<open>An integer of up to 15 bits survives the conversion; the product overflows from 16 bits on.\<close>

theorem CASTFIX32_integer:
  assumes "0 \<le> n"
  shows "n < 2 ^ 15 \<longrightarrow> (\<exists>x. CASTFIX32 n = Inr x \<and> unat (FIX_INT x) = nat n \<and> FIX_ROUND x = nat n)"
    and "2 ^ 15 \<le> n \<longrightarrow> CASTFIX32 n = Inl (UB Signed_overflow)"
proof -
  have "unat (word_of_int (n * 65536) :: FIX32) = nat n * 65536" if "n < 2 ^ 15"
    unfolding unsigned_of_int using assms that by (simp add: take_bit_int_eq_self nat_mult_distrib)
  then show "n < 2 ^ 15 \<longrightarrow> (\<exists>x. CASTFIX32 n = Inr x \<and> unat (FIX_INT x) = nat n \<and> FIX_ROUND x = nat n)"
    using assms by (simp add: CASTFIX32_def FIX_ROUND_def FIX_parts word_less_nat_alt)
  show "2 ^ 15 \<le> n \<longrightarrow> CASTFIX32 n = Inl (UB Signed_overflow)"
    by (simp add: CASTFIX32_def)
qed

section \<open>Properties\<close>

text \<open>C40: \<^verbatim>\<open>FIX_MUL\<close>, which multiplies the halves of its operands, is the product of the two numbers,
  rounded down to the 16 bits behind the point, and wraps only if the product does not fit.\<close>

theorem FIX_MUL_exact: "unat (FIX_MUL a b) = (unat a * unat b div 2 ^ 16) mod 2 ^ 32"
  using unat_FIX_MUL by simp

text \<open>C39: \<^verbatim>\<open>FIX_DIV\<close>, which finds the fraction a byte at a time, is the quotient rounded down when the
  divisor is below 256 (as a fixed-point number); for larger divisors it is that or one unit in the last
  place more.\<close>

theorem FIX_DIV_error:
  assumes "b \<noteq> 0"
  shows "\<exists>c. FIX_DIV a b = Some c \<and>
    (if unat b < 256 * 2 ^ 16 then unat c = (unat a * 2 ^ 16 div unat b) mod 2 ^ 32
     else unat c \<in> {unat a * 2 ^ 16 div unat b, unat a * 2 ^ 16 div unat b + 1})"
proof (cases "unat b < 2 ^ 24")
  case True
  then show ?thesis using FIX_DIV_small [OF assms, of a] by (simp add: mult.commute)
next
  case False
  then obtain c where "FIX_DIV a b = Some c" "65536 * unat a div unat b \<le> unat c" "unat c \<le> Suc (65536 * unat a div unat b)"
    using FIX_DIV_large [of b a] by auto
  with False show ?thesis by (auto simp: mult.commute le_Suc_eq)
qed

text \<open>For the witness the quotient is below one and the macro gives one.\<close>

theorem FIX_DIV_error_witness:
  "FIX_DIV 0x010000FE 0x010000FF = Some 0x10000 \<and>
   unat (0x10000 :: FIX32) \<in> {unat (0x010000FE :: FIX32) * 2 ^ 16 div unat (0x010000FF :: FIX32),
     unat (0x010000FE :: FIX32) * 2 ^ 16 div unat (0x010000FF :: FIX32) + 1}"
proof -
  have "FIX_DIV 0x010000FE 0x010000FF = Some 0x10000" by code_simp
  with FIX_DIV_error [of "0x010000FF" "0x010000FE"] show ?thesis by simp
qed

end
