(* ===== verification/Spec2Isabelle.thy ===== *)
theory Spec2Isabelle
  imports Adapter_Shutdown V1Race V2Stream Reconnect PktDef Fix32
begin

text \<open>
  A verification of the WinTab adapter (\<^verbatim>\<open>src/\<close>), a Windows program that reads a graphics tablet
  through the WinTab API of its driver and serves it to OpenTabletDriver-IPC clients.

  \<^bold>\<open>The program.\<close>  \<^verbatim>\<open>main\<close> starts a \<^verbatim>\<open>V2Server\<close> (Unix socket, found by clients through files) and, if
  asked to, a \<^verbatim>\<open>V1Server\<close> (named pipe), and puts both behind a \<^verbatim>\<open>MultiHandler\<close>.  It makes a window
  and a \<^verbatim>\<open>WintabTablet\<close> for it, which connects to the driver, announces the device to the handler and
  turns window messages into states.  Drivers that only report to the foreground window are
  handled by injecting a library (\<^verbatim>\<open>InjectDll\<close>) whose hooks answer with the adapter's window
  (\<^verbatim>\<open>ForegroundOverride\<close>).

  \<^bold>\<open>The theories.\<close>  Code that is not in the repository (Win32, WinSock, the driver, MinHook, build
  constants) is a parameter: a record of functions on a state \<open>'w\<close> of the outside world.  A call that may
  block returns an option, where \<open>None\<close> is not returning.  Exceptions and undefined behaviour are
  values of \<open>fault\<close>.
  \<^item> \<open>Adapter_Prelude\<close>: integers, results, faults, strings and buffers.
  \<^item> \<open>Wire_Layout\<close>: members of C structs at their offsets, with padding, as bytes.
  \<^item> \<open>Float32\<close>: the \<^verbatim>\<open>float\<close> operations the adapter uses, on IEEE bit patterns with exact values as
    multiples of \<open>2 ^ - 149\<close>.
  \<^item> \<open>OTDIPC_V2\<close>, \<open>OTDIPC_V1\<close>: the messages of \<^verbatim>\<open>include/OTDIPC\<close>, as records with their bytes.
  \<^item> \<open>Utf8\<close>: \<^verbatim>\<open>utf8.cpp\<close>.
  \<^item> \<open>Handler\<close>: \<^verbatim>\<open>IHandler\<close> and its contract, the locale \<open>handler_contract\<close>: a device makes the
    handler ready, and a state succeeds once it is.
  \<^item> \<open>Transport\<close>: the locale \<open>frame_sender\<close> of what the send functions of both servers share.
  \<^item> \<open>V1Server\<close>, \<open>V2Server\<close>: the servers.  Each thread is a step function on a program counter; the
    relations \<open>V1_step\<close>, \<open>V2_step\<close> interleave the threads, calls of the handler and the outside world.
    What is sent is kept in ghost fields (\<open>v1_written\<close>, \<open>v2_sent\<close>).
  \<^item> \<open>V2Race\<close>, \<open>V1Race\<close>: the servers with \<^verbatim>\<open>SendRaw\<close> split at its accesses to the client's socket or pipe,
    which the three threads share without a lock; the locales \<open>sending_thread\<close> and \<open>v1_sending_thread\<close> are
    what their sends have in common.
  \<^item> \<open>V2Stream\<close>: the byte streams between the V2 server and a client: how a client finds the messages in
    what the server sends, and the server reading a whole session of the client.
  \<^item> \<open>Reconnect\<close>: the accept threads getting from a client that has gone to the next one, both by the
    locale \<open>ranked_thread\<close>, a thread whose steps lower a rank until it reaches its goal.
  \<^item> \<open>V2Discovery\<close>: construction, start and destruction of the V2 server, on an explicit disk.
  \<^item> \<open>WinTab\<close>: the constants and structs of \<^verbatim>\<open>include/wintab\<close> in use.  \<open>PktDef\<close>: the packet structs that
    \<^verbatim>\<open>PKTDEF.H\<close> declares, for any mask.  \<open>Fix32\<close>: the fixed-point macros of \<^verbatim>\<open>WINTAB.H\<close>.
  \<^item> \<open>InjectDll\<close>, \<open>ForegroundOverride\<close>: the injection, with the trace of what it acquires and
    releases, and the shared window handle with the hooks of the injected library.
  \<^item> \<open>WintabTablet\<close>: the driver's library with the functions it exports, construction, connection,
    messages, destruction.  Locals that the source leaves uninitialised are memory with unset bytes.
  \<^item> \<open>Adapter_Handlers\<close>, \<open>Adapter_Main\<close>: \<^verbatim>\<open>main.cpp\<close>.  \<open>main_start\<close> starts the servers; \<open>main_step\<close> is the
    rest of the main thread, which constructs the tablet, runs the message loop and then the
    destructors, each wait for a thread being a step of its own; \<open>adapter_step\<close> interleaves it with the
    threads of the servers, the console handler and the outside world.
  \<^item> \<open>Adapter_Shutdown\<close>: when the process ends, and when it cannot.

  \<^bold>\<open>What is shown.\<close>  Invariants by rule induction over every interleaving: frames are well
  formed, also when sends race, the V2 threads do not throw and the V1 threads only on a pipe
  error, ping numbers increase, arrays keep their sizes, and, in this theory, the whole program stays
  safe from the start of its servers to its end.  The contract of \<^verbatim>\<open>IHandler\<close> is interpreted for both
  servers, for the \<^verbatim>\<open>MultiHandler\<close> of \<^verbatim>\<open>main\<close>, once with what is said of the threads kept, and for the
  logger; the tablet's side of it is proved once in the locale.  Functional behaviour: what clients
  read from states, devices, greetings and debug messages, also as a stream cut anywhere, sessions of
  messages from the client, positions of packets, packets for any mask, express keys, the discovery files,
  the life of the override, no leak in the injection, fixed-point arithmetic.  Refinement: the servers
  implement one view of the tablet, and the server with atomic sends is a special case of the
  one with racing sends.  Liveness: from the message loop the program can reach its end when the
  calls of its threads return, and the accept threads get from a client that has gone to the next one in
  a bounded number of their steps.  Several theorems state behaviour that the source probably does
  not intend: reads split by the transport, a program that cannot end because a thread is blocked,
  races that disconnect the next client, a client that has gone but keeps its socket, a
  ping before the greeting, more than 1024 modules, the last process of the list, a refused context, a
  library that lacks functions, a stale pressure axis, negative hover distances, express keys from 16
  on, an empty Plug and Play id, and the compatibility version written as a byte.

  \<^bold>\<open>Bounds and loops.\<close>  No fuel is used.  Loops that may not end (\<open>ReadNBytes\<close>, \<open>query_processes\<close>,
  \<open>find_extension\<close>) are partial functions into option; the first and the last are shown to return under
  stated conditions on \<^verbatim>\<open>recv\<close> and on the driver, while \<open>query_processes\<close>
  repeats for as long as the system keeps asking for a larger buffer.  Ping
  numbers are ordered for the first \<open>2 ^ 64\<close> steps, and positions are exact up to \<open>2 ^ 24\<close> units, the
  integers a \<^verbatim>\<open>float\<close> holds.

  \<^bold>\<open>Not modelled.\<close>  Races finer than one access to the client's socket, such as torn reads of the device
  that the main thread replaces while the accept thread sends it: in the language they are
  undefined, and the steps of the models are atomic.  The racing sends are modelled for each server
  on its own; in the whole program a send is one step, and so is the constructor of the
  tablet.  Console output of the tablet, the V1 server and \<^verbatim>\<open>dprint\<close>.  Failing queries
  of \<^verbatim>\<open>std::filesystem::exists\<close>, and implementation identifiers with path separators (the one in use has
  none).  The socket file that \<^verbatim>\<open>bind\<close> makes.  What the outside world looks like after a failed start.
  Answers of \<^verbatim>\<open>WTInfoW\<close> that are larger than the struct they are documented to be.
  Parsing of the command line, which is a library.  The parts of the WinTab headers that declare functions,
  constants and structs that nothing in the repository uses: there is no code in them.  Build files.
\<close>

section \<open>The whole program\<close>

lemma main_handler_sv2:
  assumes "SetState (main_handler api otd1) st h = (r, h')"
    and "V2_SetState (v2api api) st (v2_srv (sv2 h)) (v2_world (sv2 h)) = (r2, s2, w2)"
  shows "v2_srv (sv2 h') = s2"
proof -
  have "call_V1 (v1api api) c h1 = (r1, h2) \<Longrightarrow> sv2 h2 = sv2 h1" for c h1 r1 h2
    by (auto simp: call_V1_def split: option.splits prod.splits)
  moreover have "call_V2 (v2api api) (Call_SetState st) h = (r2, h\<lparr>sv2 := (sv2 h)\<lparr>v2_srv := s2, v2_world := w2\<rparr>\<rparr>)"
    using assms(2) by (simp add: call_V2_def V2_handler_def)
  ultimately show ?thesis
    using assms(1)
    by (fastforce simp: main_handler_def MultiHandler_def server_handlers_def push_back_def V2_member_def V1_member_def
        split: if_splits prod.splits sum.splits)
qed

lemma ProcessMessageImpl_known:
  "ProcessMessageImpl api message wParam lParam t w = (Inr True, t1, w1) \<Longrightarrow> CanProcessMessage message"
  by (auto simp: ProcessMessageImpl_def CanProcessMessage_def split: if_splits)

definition sample_client_env :: "((bytes list, unit) servers, nat option \<times> HWND \<times> bool) tablet_env" where
  "sample_client_env =
     \<lparr>gInstance = Live sample_tablet,
      te_handler = sample_servers\<lparr>sv2 := (sv2 sample_servers)\<lparr>v2_srv := (v2_srv (sv2 sample_servers))
        \<lparr>mDevice := Some DeviceInfo_init, mClientSocket := Some 7\<rparr>\<rparr>\<rparr>,
      te_world = (None, 0, True)\<rparr>"



text \<open>C18: every array keeps its declared size.  In every state the program reaches, the arrays of the
  device that the tablet describes, of the device that the V2 server keeps and of the one that the
  V1 server keeps have the lengths of their declarations, the headers of the latter two carry the
  size and the type of their struct, and the buffer the V2 server reads into holds its initial 1024
  bytes or more.\<close>

theorem adapter_well_typed:
  assumes "adapter_reachable api args y"
  shows "(\<forall>t. gInstance (ad_env y) = Live t \<longrightarrow> wf_DeviceInfo (mDeviceInfo t)) \<and>
    pred_option V2_device_ok (mDevice (v2_srv (sv2 (ad_servers y)))) \<and> V2_buffer_ok (v2_acc (sv2 (ad_servers y))) \<and>
    pred_option (\<lambda>z. wf_V1_DeviceInfo (mV1Device (srv z)) \<and>
      (v1_isValid (mV1Device (srv z)) \<longrightarrow> v1_size (mV1Device (srv z)) = word_of_nat sizeof_V1_DeviceInfo)) (sv1 (ad_servers y))"
proof -
  have inv: "adapter_inv api args y" using assms by (rule adapter_reachable_inv)
  then have "pred_option V1_sys_inv (sv1 (ad_servers y))" by (simp add: adapter_inv_def servers_inv_def)
  then have "pred_option (\<lambda>z. wf_V1_DeviceInfo (mV1Device (srv z)) \<and>
      (v1_isValid (mV1Device (srv z)) \<longrightarrow> v1_size (mV1Device (srv z)) = word_of_nat sizeof_V1_DeviceInfo)) (sv1 (ad_servers y))"
    by (rule option.pred_mono_strong) (simp add: V1_sys_inv_def V1_srv_inv_def)
  with inv show ?thesis by (simp add: adapter_inv_def tablet_ok_def servers_inv_def V2_sys_inv_def V2_srv_inv_def)
qed

theorem adapter_well_typed_witness:
  "\<exists>y t. adapter_reachable sample_main_api (sample_args True) y \<and> gInstance (ad_env y) = Live t \<and>
     wf_DeviceInfo (mDeviceInfo t)"
proof -
  obtain y where r: "adapter_reachable sample_main_api (sample_args True) y" "ad_pc y = M_Wait"
    using sample_main_waits [of sample_main_api True] by blast
  then obtain t where "gInstance (ad_env y) = Live t" using adapter_reachable_inv by (fastforce simp: adapter_inv_def)
  with adapter_well_typed [OF r(1)] r show ?thesis by blast
qed





end
